(* ===== verification/JS_Runtime.thy ===== *)
theory JS_Runtime
  imports Prelude
begin

text \<open>
  The part of the script language that the two Qt Installer Framework scripts of
  \<open>src/deploy/installer\<close> use: effectful code that may throw or not return, the string
  methods \<open>indexOf\<close>, \<open>trim\<close>, \<open>split(/\n+/)\<close> and \<open>replace\<close>, and \<open>Number\<close>.
  Strings are sequences of 8-bit characters; every literal of the scripts is ASCII.
\<close>

section \<open>Code that may throw or not return\<close>

text \<open>
  A piece of script code is a function of the state. \<open>None\<close>: it does not return.
  \<open>Some (Inl e, s)\<close>: it throws \<open>e\<close> with the state \<open>s\<close> it had reached, which stays, as
  an exception does not undo assignments. \<open>Some (Inr a, s)\<close>: it returns \<open>a\<close>.
\<close>

datatype js_error = TypeError

type_synonym ('s, 'a) js = "'s \<Rightarrow> ((js_error + 'a) \<times> 's) option"

definition js_return :: "'a \<Rightarrow> ('s, 'a) js" where
  "js_return a s = Some (Inr a, s)"

definition js_throw :: "js_error \<Rightarrow> ('s, 'a) js" where
  "js_throw e s = Some (Inl e, s)"

definition js_bind :: "('s, 'a) js \<Rightarrow> ('a \<Rightarrow> ('s, 'b) js) \<Rightarrow> ('s, 'b) js" where
  "js_bind m f s =
     (case m s of
        None \<Rightarrow> None
      | Some (Inl e, s') \<Rightarrow> Some (Inl e, s')
      | Some (Inr a, s') \<Rightarrow> f a s')"

abbreviation js_seq :: "('s, 'a) js \<Rightarrow> ('s, 'b) js \<Rightarrow> ('s, 'b) js" where
  "js_seq m n \<equiv> js_bind m (\<lambda>_. n)"

definition js_get :: "('s \<Rightarrow> 'a) \<Rightarrow> ('s, 'a) js" where
  "js_get f s = Some (Inr (f s), s)"

definition js_modify :: "('s \<Rightarrow> 's) \<Rightarrow> ('s, unit) js" where
  "js_modify f s = Some (Inr (), f s)"

lemma js_run [script_simps]:
  "js_return a s = Some (Inr a, s)"
  "js_throw e s = Some (Inl e, s)"
  "js_get f s = Some (Inr (f s), s)"
  "js_modify g s = Some (Inr (), g s)"
  by (simp_all add: js_return_def js_throw_def js_get_def js_modify_def)

lemma js_bind_run [script_simps]:
  "m s = None \<Longrightarrow> js_bind m f s = None"
  "m s = Some (Inl e, s') \<Longrightarrow> js_bind m f s = Some (Inl e, s')"
  "m s = Some (Inr a, s') \<Longrightarrow> js_bind m f s = f a s'"
  by (simp_all add: js_bind_def)

lemma js_bind_eq_Some:
  "js_bind m f s = Some (r, t) \<longleftrightarrow>
     (\<exists>e. m s = Some (Inl e, t) \<and> r = Inl e) \<or>
     (\<exists>a s'. m s = Some (Inr a, s') \<and> f a s' = Some (r, t))"
  by (auto simp: js_bind_def split: option.splits sum.splits)

lemma js_bind_assoc [script_simps]:
  "js_bind (js_bind m f) g = js_bind m (\<lambda>a. js_bind (f a) g)"
  by (rule ext) (auto simp: js_bind_def split: option.splits sum.splits)

lemma js_bind_if [script_simps]:
  "js_bind (if b then m else n) f = (if b then js_bind m f else js_bind n f)"
  by simp

lemma js_bind_mono [partial_function_mono]:
  fixes m :: "('x \<Rightarrow> 'y option) \<Rightarrow> ('s, 'a) js"
    and k :: "('x \<Rightarrow> 'y option) \<Rightarrow> 'a \<Rightarrow> ('s, 'b) js"
  assumes "mono_option (\<lambda>f. m f s)" and "\<And>a s'. mono_option (\<lambda>f. k f a s')"
  shows "mono_option (\<lambda>f. js_bind (m f) (\<lambda>a. k f a) s)"
proof (rule monotoneI)
  fix f g :: "'x \<Rightarrow> 'y option"
  assume le: "fun_ord option_ord f g"
  have m: "option_ord (m f s) (m g s)"
    using assms(1) le by (simp add: monotone_def)
  have k: "option_ord (k f a s') (k g a s')" for a s'
    using assms(2) le by (simp add: monotone_def)
  show "option_ord (js_bind (m f) (k f) s) (js_bind (m g) (k g) s)"
  proof (cases "m f s")
    case None
    then show ?thesis by (simp add: js_bind_def flat_ord_def)
  next
    case (Some rs)
    with m have "m g s = Some rs" by (simp add: flat_ord_def)
    with Some k show ?thesis
      by (cases rs) (auto simp: js_bind_def option.leq_refl split: sum.splits)
  qed
qed

lemma js_if_mono [partial_function_mono]:
  fixes m n :: "('x \<Rightarrow> 'y option) \<Rightarrow> ('s, 'a) js"
  assumes "mono_option (\<lambda>f. m f s)" and "mono_option (\<lambda>f. n f s)"
  shows "mono_option (\<lambda>f. (if b then m f else n f) s)"
  using assms by (cases b) simp_all

text \<open>
  Every run of \<open>m\<close> that comes to an end, by returning or by throwing, relates its first
  state to its last one by \<open>R\<close>. For a reflexive and transitive \<open>R\<close> this composes along the
  control structures, which \<open>script_relation\<close> proves once for every such relation.
\<close>

definition js_steps :: "('s \<Rightarrow> 's \<Rightarrow> bool) \<Rightarrow> ('s, 'a) js \<Rightarrow> bool" where
  "js_steps R m \<longleftrightarrow> (\<forall>s r t. m s = Some (r, t) \<longrightarrow> R s t)"

lemma js_stepsI: "(\<And>s r t. m s = Some (r, t) \<Longrightarrow> R s t) \<Longrightarrow> js_steps R m"
  by (auto simp: js_steps_def)

lemma js_stepsD: "js_steps R m \<Longrightarrow> m s = Some (r, t) \<Longrightarrow> R s t"
  by (auto simp: js_steps_def)

lemma js_steps_mono: "js_steps R m \<Longrightarrow> (\<And>s t. R s t \<Longrightarrow> R' s t) \<Longrightarrow> js_steps R' m"
  by (auto simp: js_steps_def)

locale script_relation =
  fixes R :: "'s \<Rightarrow> 's \<Rightarrow> bool"
  assumes refl_step: "R s s"
    and trans_step: "R s t \<Longrightarrow> R t u \<Longrightarrow> R s u"
begin

lemma steps_return: "js_steps R (js_return a)"
  by (auto simp: js_steps_def js_return_def refl_step)

lemma steps_throw: "js_steps R (js_throw e)"
  by (auto simp: js_steps_def js_throw_def refl_step)

lemma steps_get: "js_steps R (js_get f)"
  by (auto simp: js_steps_def js_get_def refl_step)

lemma steps_modify: "(\<And>s. R s (f s)) \<Longrightarrow> js_steps R (js_modify f)"
  by (auto simp: js_steps_def js_modify_def)

lemma steps_bind: "js_steps R m \<Longrightarrow> (\<And>a. js_steps R (k a)) \<Longrightarrow> js_steps R (js_bind m k)"
  by (rule js_stepsI) (auto simp: js_bind_eq_Some intro: trans_step dest: js_stepsD)

lemma steps_if: "js_steps R m \<Longrightarrow> js_steps R n \<Longrightarrow> js_steps R (if b then m else n)"
  by simp

lemmas steps_intros = steps_return steps_throw steps_get steps_bind steps_if

end

text \<open>
  \<open>js_wp m Q s\<close>: if \<open>m\<close> returns from \<open>s\<close>, its value and last state satisfy \<open>Q\<close>. The
  equations below compute it along the control structures.
\<close>

definition js_wp :: "('s, 'a) js \<Rightarrow> ('a \<Rightarrow> 's \<Rightarrow> bool) \<Rightarrow> 's \<Rightarrow> bool" where
  "js_wp m Q s \<longleftrightarrow> (\<forall>a t. m s = Some (Inr a, t) \<longrightarrow> Q a t)"

lemma js_wp_return [script_simps]: "js_wp (js_return a) Q s \<longleftrightarrow> Q a s"
  by (simp add: js_wp_def js_run)

lemma js_wp_throw [script_simps]: "js_wp (js_throw e) Q s"
  by (simp add: js_wp_def js_run)

lemma js_wp_get [script_simps]: "js_wp (js_get f) Q s \<longleftrightarrow> Q (f s) s"
  by (simp add: js_wp_def js_run)

lemma js_wp_modify [script_simps]: "js_wp (js_modify g) Q s \<longleftrightarrow> Q () (g s)"
  by (simp add: js_wp_def js_run)

lemma js_wp_bind [script_simps]: "js_wp (js_bind m k) Q s \<longleftrightarrow> js_wp m (\<lambda>a. js_wp (k a) Q) s"
  by (auto simp: js_wp_def js_bind_eq_Some)

lemma js_wp_trivial: "(\<And>a t. Q a t) \<Longrightarrow> js_wp m Q s"
  by (simp add: js_wp_def)

lemma js_wp_get_bind: "js_wp (k (f s)) Q s \<Longrightarrow> js_wp (js_bind (js_get f) k) Q s"
  by (simp add: script_simps)

lemma js_wp_modify_bind: "js_wp (k ()) Q (g s) \<Longrightarrow> js_wp (js_bind (js_modify g) k) Q s"
  by (simp add: script_simps)

lemma js_wp_bind_any: "(\<And>a t. js_wp (k a) Q t) \<Longrightarrow> js_wp (js_bind m k) Q s"
  by (simp add: script_simps js_wp_trivial)

lemma js_wp_if:
  "(b \<Longrightarrow> js_wp m Q s) \<Longrightarrow> (\<not> b \<Longrightarrow> js_wp n Q s) \<Longrightarrow> js_wp (if b then m else n) Q s"
  by simp

lemma js_wp_mono: "js_wp m Q s \<Longrightarrow> (\<And>a t. Q a t \<Longrightarrow> Q' a t) \<Longrightarrow> js_wp m Q' s"
  by (auto simp: js_wp_def)

lemma js_wpD: "js_wp m Q s \<Longrightarrow> m s = Some (Inr a, t) \<Longrightarrow> Q a t"
  by (auto simp: js_wp_def)

lemma js_returned:
  assumes "case m of Some (Inr a, t) \<Rightarrow> P t | _ \<Rightarrow> False"
  obtains a t where "m = Some (Inr a, t)" and "P t"
proof (cases m)
  case (Some rt)
  obtain r t where rt: "rt = (r, t)" by (cases rt)
  with assms Some that show ?thesis by (cases r) auto
qed (use assms in simp)

text \<open>Code that always comes to an end, and code that never throws.\<close>

definition js_total :: "('s, 'a) js \<Rightarrow> bool" where
  "js_total m \<longleftrightarrow> (\<forall>s. m s \<noteq> None)"

lemma total_bind: "js_total m \<Longrightarrow> (\<And>a. js_total (k a)) \<Longrightarrow> js_total (js_bind m k)"
  by (auto simp: js_total_def js_bind_def split: option.splits sum.splits)

lemma total_basic:
  "js_total (js_return a)" "js_total (js_throw e)" "js_total (js_get f)" "js_total (js_modify g)"
  by (simp_all add: js_total_def js_run)

lemma total_if: "js_total m \<Longrightarrow> js_total n \<Longrightarrow> js_total (if b then m else n)"
  by simp

lemmas total_intros = total_bind total_basic total_if

definition js_nothrow :: "('s, 'a) js \<Rightarrow> bool" where
  "js_nothrow m \<longleftrightarrow> (\<forall>s e t. m s \<noteq> Some (Inl e, t))"

lemma nothrow_intros:
  "js_nothrow (js_return a)" "js_nothrow (js_get f)" "js_nothrow (js_modify g)"
  by (simp_all add: js_nothrow_def js_run)

lemma nothrow_bind: "js_nothrow m \<Longrightarrow> (\<And>a. js_nothrow (k a)) \<Longrightarrow> js_nothrow (js_bind m k)"
  by (auto simp: js_nothrow_def js_bind_eq_Some)

lemma nothrow_if: "js_nothrow m \<Longrightarrow> js_nothrow n \<Longrightarrow> js_nothrow (if b then m else n)"
  by simp

text \<open>\<open>js_throws Q m\<close>: what \<open>m\<close> throws, and the state it throws in, satisfy \<open>Q\<close>.\<close>

definition js_throws :: "(js_error \<Rightarrow> 's \<Rightarrow> bool) \<Rightarrow> ('s, 'a) js \<Rightarrow> bool" where
  "js_throws Q m \<longleftrightarrow> (\<forall>s e t. m s = Some (Inl e, t) \<longrightarrow> Q e t)"

lemma throws_nothrow: "js_nothrow m \<Longrightarrow> js_throws Q m"
  by (auto simp: js_throws_def js_nothrow_def)

lemma throws_bind: "js_throws Q m \<Longrightarrow> (\<And>a. js_throws Q (k a)) \<Longrightarrow> js_throws Q (js_bind m k)"
  by (auto simp: js_throws_def js_bind_eq_Some)

lemma throws_if: "js_throws Q m \<Longrightarrow> js_throws Q n \<Longrightarrow> js_throws Q (if b then m else n)"
  by simp

section \<open>Strings\<close>

text \<open>\<open>s.indexOf(t, pos)\<close>: the first index from \<open>pos\<close> (clamped into the string) at
  which \<open>t\<close> occurs, or -1.\<close>

definition occurs_at :: "string \<Rightarrow> string \<Rightarrow> nat \<Rightarrow> bool" where
  "occurs_at s t i \<longleftrightarrow> i + length t \<le> length s \<and> take (length t) (drop i s) = t"

definition js_indexOf :: "string \<Rightarrow> string \<Rightarrow> int \<Rightarrow> int" where
  "js_indexOf s t pos =
     (let start = nat (max 0 (min pos (int (length s)))) in
      case filter (occurs_at s t) [start ..< Suc (length s)] of
        [] \<Rightarrow> - 1
      | i # _ \<Rightarrow> int i)"

lemma js_indexOf_found:
  "js_indexOf s t pos \<noteq> - 1 \<longleftrightarrow>
     (\<exists>i. nat (max 0 (min pos (int (length s)))) \<le> i \<and> occurs_at s t i)"
proof -
  define start where "start = nat (max 0 (min pos (int (length s))))"
  have "js_indexOf s t pos =
      (case filter (occurs_at s t) [start ..< Suc (length s)] of [] \<Rightarrow> - 1 | i # _ \<Rightarrow> int i)"
    by (simp only: js_indexOf_def Let_def start_def)
  then have "js_indexOf s t pos \<noteq> - 1 \<longleftrightarrow> filter (occurs_at s t) [start ..< Suc (length s)] \<noteq> []"
    by (simp split: list.splits)
  also have "\<dots> \<longleftrightarrow> (\<exists>i. start \<le> i \<and> occurs_at s t i)"
    by (auto simp: filter_empty_conv less_Suc_eq_le occurs_at_def simp del: upt_Suc)
  finally show ?thesis by (simp only: start_def)
qed

text \<open>\<open>trim\<close> and the white space of the language, as far as it is 7-bit.\<close>

definition js_space :: "char \<Rightarrow> bool" where
  "js_space c \<longleftrightarrow> (of_char c :: nat) \<in> {9, 10, 11, 12, 13, 32}"

definition js_trim :: "string \<Rightarrow> string" where
  "js_trim s = rev (dropWhile js_space (rev (dropWhile js_space s)))"

text \<open>\<open>s.split(/\n+/)\<close>: a run of line feeds separates two fields.\<close>

abbreviation newline :: char where
  "newline \<equiv> CHR 0x0A"

function js_split_lines :: "string \<Rightarrow> string list" where
  "js_split_lines s =
     (case dropWhile (\<lambda>c. c \<noteq> newline) s of
        [] \<Rightarrow> [takeWhile (\<lambda>c. c \<noteq> newline) s]
      | _ # r \<Rightarrow> takeWhile (\<lambda>c. c \<noteq> newline) s # js_split_lines (dropWhile (\<lambda>c. c = newline) r))"
  by pat_completeness auto
termination
proof (relation "measure length")
  fix s :: string and c :: char and r :: string
  assume "dropWhile (\<lambda>c. c \<noteq> newline) s = c # r"
  then have "length r < length s" by (rule takeWhile_dropWhile_shorter)
  then show "(dropWhile (\<lambda>c. c = newline) r, s) \<in> measure length"
    by (simp add: le_less_trans [OF length_dropWhile_le])
qed simp

declare js_split_lines.simps [simp del]

text \<open>\<open>s.replace(/\//g, '\\')\<close>.\<close>

definition js_replace_char :: "char \<Rightarrow> char \<Rightarrow> string \<Rightarrow> string" where
  "js_replace_char a b s = map (\<lambda>c. if c = a then b else c) s"

lemma js_split_lines_nonempty: "js_split_lines s \<noteq> []"
  by (subst js_split_lines.simps) (simp split: list.splits)

section \<open>Numbers\<close>

text \<open>
  \<open>Fin m k\<close> is the decimal fraction \<open>m / 10^k\<close>. The rounding of a literal to the nearest
  double is left out; it is the identity on the process numbers and exit codes the scripts
  convert.
\<close>

datatype js_num = NaN | Infinity bool | Fin int nat

fun js_norm :: "int \<Rightarrow> nat \<Rightarrow> js_num" where
  "js_norm m 0 = Fin m 0"
| "js_norm m (Suc k) = (if m mod 10 = 0 then js_norm (m div 10) k else Fin m (Suc k))"

definition js_scale :: "int \<Rightarrow> nat \<Rightarrow> int \<Rightarrow> js_num" where
  "js_scale m k e =
     (if e \<le> int k then js_norm m (nat (int k - e)) else Fin (m * 10 ^ nat (e - int k)) 0)"

definition js_exponent :: "string \<Rightarrow> int option" where
  "js_exponent t =
     (let (neg, ds) = (case t of [] \<Rightarrow> (False, [])
                        | c # r \<Rightarrow> if c = CHR ''-'' then (True, r)
                                  else if c = CHR ''+'' then (False, r) else (False, t))
      in if ds \<noteq> [] \<and> list_all is_digit ds
         then Some (if neg then - int (dec_val ds) else int (dec_val ds)) else None)"

definition js_decimal :: "int \<Rightarrow> string \<Rightarrow> js_num" where
  "js_decimal sign s =
     (let ip = takeWhile is_digit s; r = dropWhile is_digit s;
          (fp, r2) = (case r of [] \<Rightarrow> ([], [])
                        | c # t \<Rightarrow> if c = CHR ''.'' then (takeWhile is_digit t, dropWhile is_digit t)
                                  else ([], r));
          m = sign * int (dec_val (ip @ fp)); k = length fp
      in if ip = [] \<and> fp = [] then NaN
         else case r2 of
             [] \<Rightarrow> js_norm m k
           | c # t \<Rightarrow> if c = CHR ''e'' \<or> c = CHR ''E''
                      then (case js_exponent t of None \<Rightarrow> NaN | Some e \<Rightarrow> js_scale m k e)
                      else NaN)"

definition radix_digit :: "char \<Rightarrow> nat option" where
  "radix_digit c =
     (let v = (of_char c :: nat) in
      if 48 \<le> v \<and> v \<le> 57 then Some (v - 48)
      else if 97 \<le> v \<and> v \<le> 102 then Some (v - 87)
      else if 65 \<le> v \<and> v \<le> 70 then Some (v - 55) else None)"

definition js_radix :: "nat \<Rightarrow> string \<Rightarrow> js_num" where
  "js_radix b s =
     (if s \<noteq> [] \<and> list_all (\<lambda>c. case radix_digit c of None \<Rightarrow> False | Some d \<Rightarrow> d < b) s
      then Fin (int (foldl (\<lambda>a c. b * a + the (radix_digit c)) 0 s)) 0 else NaN)"

definition js_signed :: "int \<Rightarrow> string \<Rightarrow> js_num" where
  "js_signed sign s = (if s = ''Infinity'' then Infinity (sign < 0) else js_decimal sign s)"

text \<open>\<open>Number(text)\<close>.\<close>

definition js_Number :: "string \<Rightarrow> js_num" where
  "js_Number text =
     (let s = js_trim text in
      if s = [] then Fin 0 0
      else if take 2 s = ''0x'' \<or> take 2 s = ''0X'' then js_radix 16 (drop 2 s)
      else if take 2 s = ''0o'' \<or> take 2 s = ''0O'' then js_radix 8 (drop 2 s)
      else if take 2 s = ''0b'' \<or> take 2 s = ''0B'' then js_radix 2 (drop 2 s)
      else if hd s = CHR ''-'' then js_signed (- 1) (tl s)
      else if hd s = CHR ''+'' then js_signed 1 (tl s)
      else js_signed 1 s)"

text \<open>\<open>n >= c\<close> and \<open>n > c\<close> for an integer \<open>c\<close>: false for NaN.\<close>

fun js_ge :: "js_num \<Rightarrow> int \<Rightarrow> bool" where
  "js_ge NaN c = False"
| "js_ge (Infinity neg) c = (\<not> neg)"
| "js_ge (Fin m k) c = (c * 10 ^ k \<le> m)"

fun js_gt :: "js_num \<Rightarrow> int \<Rightarrow> bool" where
  "js_gt NaN c = False"
| "js_gt (Infinity neg) c = (\<not> neg)"
| "js_gt (Fin m k) c = (c * 10 ^ k < m)"

text \<open>A number in a string concatenation, in the decimal notation the language uses for
  magnitudes from 1e-6 to below 1e21.\<close>

fun js_num_text :: "js_num \<Rightarrow> string" where
  "js_num_text NaN = ''NaN''"
| "js_num_text (Infinity neg) = (if neg then ''-Infinity'' else ''Infinity'')"
| "js_num_text (Fin m k) =
     (if k = 0 then show_int m
      else (if m < 0 then ''-'' else '''') @ show_nat (nat \<bar>m\<bar> div 10 ^ k) @ ''.'' @
           (let f = show_nat (nat \<bar>m\<bar> mod 10 ^ k) in replicate (k - length f) (CHR ''0'') @ f))"

section \<open>Results of programs\<close>

text \<open>
  A program that was run gives an array of its output and its exit code, one that could not be
  started an empty array (\<open>None\<close>). An element that is not there is undefined, here again \<open>None\<close>.
\<close>

type_synonym exec_result = "(string \<times> int) option"

definition result_output :: "exec_result \<Rightarrow> string option" where
  "result_output result = map_option fst result"

definition result_code :: "exec_result \<Rightarrow> int option" where
  "result_code result = map_option snd result"

text \<open>\<open>Number\<close> of a text or of an exit code that may be undefined, and \<open>n === c\<close>.\<close>

definition js_Number_text :: "string option \<Rightarrow> js_num" where
  "js_Number_text v = (case v of None \<Rightarrow> NaN | Some t \<Rightarrow> js_Number t)"

definition js_Number_code :: "int option \<Rightarrow> js_num" where
  "js_Number_code v = (case v of None \<Rightarrow> NaN | Some c \<Rightarrow> Fin c 0)"

fun js_equals :: "js_num \<Rightarrow> int \<Rightarrow> bool" where
  "js_equals (Fin m k) c = (m = c * 10 ^ k)"
| "js_equals _ c = False"

text \<open>The object of a method call: calling a method of undefined throws.\<close>

definition js_object :: "'a option \<Rightarrow> ('s, 'a) js" where
  "js_object v = (case v of None \<Rightarrow> js_throw TypeError | Some a \<Rightarrow> js_return a)"

lemma js_object_simps [script_simps]:
  "js_object None = js_throw TypeError" "js_object (Some a) = js_return a"
  by (simp_all add: js_object_def)

lemma total_object: "js_total (js_object v)"
  by (cases v) (simp_all add: js_object_def total_basic)

lemma js_equals_code [simp]: "js_equals (js_Number_code (result_code r)) c \<longleftrightarrow> (\<exists>out. r = Some (out, c))"
  by (cases r) (auto simp: js_Number_code_def result_code_def)

lemma js_wp_object [script_simps]: "js_wp (js_object v) Q s \<longleftrightarrow> (\<forall>a. v = Some a \<longrightarrow> Q a s)"
  by (cases v) (simp_all add: js_object_def js_wp_return js_wp_throw)

end
