(* ===== verification/ControlScript.thy ===== *)
theory ControlScript
  imports JS_Runtime
begin

text \<open>
  The installer's control script, \<open>src/deploy/installer/config/controlscript.js\<close>: its
  global variables, its helper functions, the page callbacks and the \<open>Controller\<close>
  constructor.

  The objects \<open>installer\<close>, \<open>gui\<close>, \<open>systemInfo\<close> and \<open>QMessageBox\<close> belong to the Qt
  Installer Framework. They are one parameter, an \<open>installer_api\<close> over an arbitrary type
  \<open>'w\<close> of environments: what a query returns in an environment, and the environment after
  a command. The script's own state is the record \<open>script\<close>; \<open>trace\<close> is its interaction with
  the framework, oldest first: the commands it has issued, the answers the user gave, and
  the results of the programs it ran.
\<close>

section \<open>The environment\<close>

datatype page = IntroductionPage | TargetDirectory | ComponentSelection | LicenseCheck
  | StartMenuSelection | StartMenuDirectoryPage | ReadyForInstallation
  | PerformInstallation | FinishedPage

datatype button = NextButton | FinishButton | CancelButton | CommitButton

datatype answer = Yes | No | Ok | Cancel | Retry | Abort

datatype command =
    SetValue string string
  | SetDefaultPageVisible page bool
  | ClickButton button
  | SetCancelled
  | AutoAcceptMessageBoxes
  | SetMessageBoxAutomaticAnswer string answer
  | MessageBox string string string "answer list"
  | Execute "string option" "string list"
  | DisconnectBrowseButton
  | ConnectBrowseButton
  | SetTargetDirectoryText string
  | HideChild string
  | ConnectInstallationFinishedToNext
  | ConsoleLog string

datatype event =
    Issued command
  | Answered answer
  | Exited "exec_result"

text \<open>
  The results of \<open>installer.execute\<close> are those of \<open>exec_result\<close>. An undefined path is \<open>None\<close>.
\<close>

record 'w installer_api =
  api_value :: "'w \<Rightarrow> string \<Rightarrow> string"
  api_isInstaller :: "'w \<Rightarrow> bool"
  api_isUninstaller :: "'w \<Rightarrow> bool"
  api_isUpdater :: "'w \<Rightarrow> bool"
  api_fileExists :: "'w \<Rightarrow> string option \<Rightarrow> bool"
  api_targetDirectoryPage :: "'w \<Rightarrow> string option"
  api_currentPageChildren :: "'w \<Rightarrow> string list option"
  api_result :: "'w \<Rightarrow> string option \<Rightarrow> string list \<Rightarrow> exec_result"
  api_answer :: "'w \<Rightarrow> command \<Rightarrow> answer"
  api_run :: "command \<Rightarrow> 'w \<Rightarrow> 'w"
  api_clock :: "'w \<Rightarrow> int"
  api_tick :: "'w \<Rightarrow> 'w"
  api_prettyProductName :: "string"
  api_currentCpuArchitecture :: "string"
  api_qsTr :: "string \<Rightarrow> string"

record 'w script =
  requestToQuitFromApp :: bool
  updaterCompleted :: int
  desktopAppProcessRunning :: bool
  appInstalledUninstallerPath :: "string option"
  appInstalledUninstallerPath_x86 :: "string option"
  env :: 'w
  trace :: "event list"

definition script_init :: "'w \<Rightarrow> 'w script" where
  "script_init w = \<lparr>requestToQuitFromApp = False, updaterCompleted = 0,
     desktopAppProcessRunning = False, appInstalledUninstallerPath = None,
     appInstalledUninstallerPath_x86 = None, env = w, trace = []\<rparr>"

definition command_step :: "'w installer_api \<Rightarrow> command \<Rightarrow> 'w script \<Rightarrow> 'w script" where
  "command_step api c s = s\<lparr>env := api_run api c (env s), trace := trace s @ [Issued c]\<rparr>"

definition note_event :: "event \<Rightarrow> 'w script \<Rightarrow> 'w script" where
  "note_event e s = s\<lparr>trace := trace s @ [e]\<rparr>"

definition issue :: "'w installer_api \<Rightarrow> command \<Rightarrow> ('w script, unit) js" where
  "issue api c = js_modify (command_step api c)"

definition execute :: "'w installer_api \<Rightarrow> string option \<Rightarrow> string list \<Rightarrow>
    ('w script, exec_result) js" where
  "execute api prog args =
     js_bind (js_get (\<lambda>s. api_result api (env s) prog args)) (\<lambda>r.
     js_seq (issue api (Execute prog args))
     (js_seq (js_modify (note_event (Exited r))) (js_return r)))"

definition ask_env :: "('w \<Rightarrow> 'a) \<Rightarrow> ('w script, 'a) js" where
  "ask_env f = js_get (\<lambda>s. f (env s))"

definition ask :: "'w installer_api \<Rightarrow> ('w \<Rightarrow> command) \<Rightarrow> ('w script, answer) js" where
  "ask api make_box =
     js_bind (ask_env make_box) (\<lambda>box.
     js_bind (ask_env (\<lambda>w. api_answer api w box)) (\<lambda>a.
     js_seq (issue api box)
     (js_seq (js_modify (note_event (Answered a))) (js_return a))))"

definition now :: "'w installer_api \<Rightarrow> ('w script, int) js" where
  "now api =
     js_bind (ask_env (api_clock api)) (\<lambda>t.
     js_seq (js_modify (\<lambda>s. s\<lparr>env := api_tick api (env s)\<rparr>)) (js_return t))"

section \<open>Helper functions\<close>

definition appName :: "'w installer_api \<Rightarrow> 'w \<Rightarrow> string" where
  "appName api w = api_value api w ''Name''"

definition runningOnWindows :: "'w installer_api \<Rightarrow> 'w \<Rightarrow> bool" where
  "runningOnWindows api w \<longleftrightarrow> api_value api w ''os'' = ''win''"

definition runningOnMacOS :: "'w installer_api \<Rightarrow> 'w \<Rightarrow> bool" where
  "runningOnMacOS api w \<longleftrightarrow> api_value api w ''os'' = ''mac''"

definition runningOnLinux :: "'w installer_api \<Rightarrow> 'w \<Rightarrow> bool" where
  "runningOnLinux api w \<longleftrightarrow> api_value api w ''os'' = ''linux'' \<or> api_value api w ''os'' = ''x11''"

definition appExecutableFileName :: "'w installer_api \<Rightarrow> 'w \<Rightarrow> string" where
  "appExecutableFileName api w =
     (if runningOnWindows api w then appName api w @ ''.exe'' else appName api w)"

definition appInstalled :: "'w installer_api \<Rightarrow> ('w script, bool) js" where
  "appInstalled api =
     js_seq (js_modify (\<lambda>s. let w = env s in
       if runningOnWindows api w then
         s\<lparr>appInstalledUninstallerPath :=
             Some (api_value api w ''RootDir'' @ ''Program Files/AmneziaVPN/maintenancetool.exe''),
           appInstalledUninstallerPath_x86 :=
             Some (api_value api w ''RootDir'' @ ''Program Files (x86)/AmneziaVPN/maintenancetool.exe'')\<rparr>
       else if runningOnMacOS api w then
         s\<lparr>appInstalledUninstallerPath :=
             Some (''/Applications/'' @ appName api w @ ''.app/maintenancetool.app/Contents/MacOS/maintenancetool'')\<rparr>
       else if runningOnLinux api w then
         s\<lparr>appInstalledUninstallerPath := Some (''/opt/'' @ appName api w @ ''/maintenancetool'')\<rparr>
       else s))
     (js_get (\<lambda>s. api_fileExists api (env s) (appInstalledUninstallerPath s)
                \<or> api_fileExists api (env s) (appInstalledUninstallerPath_x86 s)))"

definition endsWith :: "string \<Rightarrow> string \<Rightarrow> bool" where
  "endsWith str suff \<longleftrightarrow> js_indexOf str suff (int (length str) - int (length suff)) \<noteq> - 1"

partial_function (option) sleep_loop ::
  "'w installer_api \<Rightarrow> int \<Rightarrow> 'w script \<Rightarrow> ((js_error + unit) \<times> 'w script) option" where
  "sleep_loop api deadline s =
     js_bind (now api) (\<lambda>t.
       if deadline \<ge> t then sleep_loop api deadline else js_return ()) s"

definition sleep :: "'w installer_api \<Rightarrow> int \<Rightarrow> ('w script, unit) js" where
  "sleep api milliseconds =
     js_bind (now api) (\<lambda>currentTime. sleep_loop api (currentTime + milliseconds))"

definition raiseInstallerWindow :: "'w installer_api \<Rightarrow> ('w script, unit) js" where
  "raiseInstallerWindow api =
     js_bind (ask_env (runningOnMacOS api)) (\<lambda>mac.
     if \<not> mac then js_return ()
     else
       js_bind (ask_env (appName api)) (\<lambda>name.
       js_bind (execute api (Some ''/bin/bash'')
          [''-c'', ''ps -A | grep -m1 '' @ [CHR 0x27] @ name @ [CHR 0x27] @
             '' | awk '' @ [CHR 0x27] @ ''{print $1}'' @ [CHR 0x27]]) (\<lambda>result.
       let pid = js_Number_text (result_output result) in
       if js_gt pid 0 then
         js_bind (execute api (Some ''osascript'')
           [''-e'', ''tell application '' @ [CHR 0x22] @ ''System Events'' @ [CHR 0x22] @ '' '' @
              [newline] @ ''      set frontmost of the first process whose unix id is '' @
              js_num_text pid @ '' to true '' @
              [newline] @ ''      end tell'' @ [newline] @ ''       '']) (\<lambda>_. js_return ())
       else js_return ())))"

definition checkProcessIsRunning :: "'w installer_api \<Rightarrow> string \<Rightarrow> ('w script, bool) js" where
  "checkProcessIsRunning api arg =
     js_bind (execute api (Some ''/bin/bash'') [''-c'', arg]) (\<lambda>result.
     js_bind (js_object (result_output result)) (\<lambda>out.
     if js_ge (js_Number (hd (js_split_lines (js_trim out)))) 2 then js_return True else js_return False))"

definition appProcessIsRunning :: "'w installer_api \<Rightarrow> ('w script, bool) js" where
  "appProcessIsRunning api =
     js_bind (ask_env (runningOnWindows api)) (\<lambda>win.
     if win then
       js_bind (execute api (Some ''tasklist'') []) (\<lambda>result.
       if js_equals (js_Number_code (result_code result)) 0 then
         js_bind (js_object (result_output result)) (\<lambda>out.
         js_bind (ask_env (appExecutableFileName api)) (\<lambda>name.
         if js_indexOf out name 0 \<noteq> - 1 then js_return True else js_return False))
       else js_return False)
     else
       js_bind (ask_env (appName api)) (\<lambda>name.
       checkProcessIsRunning api (''pgrep -x '' @ [CHR 0x27] @ name @ [CHR 0x27])))"

text \<open>A list of commands issued one after the other.\<close>

fun issue_all :: "'w installer_api \<Rightarrow> command list \<Rightarrow> ('w script, unit) js" where
  "issue_all api [] = js_return ()"
| "issue_all api (c # cs) = js_seq (issue api c) (issue_all api cs)"

definition requestToQuit :: "'w installer_api \<Rightarrow> ('w script, unit) js" where
  "requestToQuit api =
     js_seq (js_modify (\<lambda>s. s\<lparr>requestToQuitFromApp := True\<rparr>))
     (js_seq (issue_all api
        [SetDefaultPageVisible IntroductionPage False,
         SetDefaultPageVisible TargetDirectory False,
         SetDefaultPageVisible ComponentSelection False,
         SetDefaultPageVisible LicenseCheck False,
         SetDefaultPageVisible StartMenuSelection False,
         SetDefaultPageVisible ReadyForInstallation False,
         SetDefaultPageVisible PerformInstallation False,
         SetDefaultPageVisible FinishedPage False,
         ClickButton NextButton, ClickButton FinishButton, ClickButton CancelButton])
     (js_bind (ask_env (runningOnWindows api)) (\<lambda>win.
      if win then issue api SetCancelled else js_return ())))"

section \<open>Page callbacks\<close>

definition PerformInstallationPageCallback :: "'w installer_api \<Rightarrow> ('w script, unit) js" where
  "PerformInstallationPageCallback api = issue api (ClickButton NextButton)"

definition LicenseAgreementPageCallback :: "'w installer_api \<Rightarrow> ('w script, unit) js" where
  "LicenseAgreementPageCallback api = issue api (ClickButton NextButton)"

definition FinishedPageCallback :: "'w installer_api \<Rightarrow> ('w script, unit) js" where
  "FinishedPageCallback api =
     js_bind (js_get desktopAppProcessRunning) (\<lambda>running.
     if running then issue api (ClickButton FinishButton)
     else
       js_bind (ask_env (api_isUpdater api)) (\<lambda>updater.
       if updater
       then js_seq (issue api AutoAcceptMessageBoxes) (issue api (ClickButton FinishButton))
       else js_return ()))"

definition RestartPageCallback :: "'w installer_api \<Rightarrow> ('w script, unit) js" where
  "RestartPageCallback api =
     js_seq (js_modify (\<lambda>s. s\<lparr>updaterCompleted := 1\<rparr>)) (issue api (ClickButton FinishButton))"

definition StartMenuDirectoryPageCallback :: "'w installer_api \<Rightarrow> ('w script, unit) js" where
  "StartMenuDirectoryPageCallback api = issue api (ClickButton NextButton)"

definition ComponentSelectionPageCallback :: "'w installer_api \<Rightarrow> ('w script, unit) js" where
  "ComponentSelectionPageCallback api = issue api (ClickButton NextButton)"

definition ReadyForInstallationPageCallback :: "'w installer_api \<Rightarrow> ('w script, unit) js" where
  "ReadyForInstallationPageCallback api =
     js_bind (ask_env (api_isUpdater api)) (\<lambda>updater.
     if updater then issue api (ClickButton CommitButton) else js_return ())"

definition TargetDirectoryPageCallback :: "'w installer_api \<Rightarrow> ('w script, unit) js" where
  "TargetDirectoryPageCallback api =
     js_bind (ask_env (api_targetDirectoryPage api)) (\<lambda>widget.
     case widget of
       None \<Rightarrow> js_return ()
     | Some _ \<Rightarrow>
         issue_all api [DisconnectBrowseButton, ConnectBrowseButton, ClickButton NextButton])"

text \<open>\<open>widget.findChild(name).visible = false\<close>: a missing child is null, and the assignment
  throws.\<close>

definition hide_child :: "'w installer_api \<Rightarrow> string list \<Rightarrow> string \<Rightarrow> ('w script, unit) js" where
  "hide_child api children name =
     (if name \<in> set children then issue api (HideChild name) else js_throw TypeError)"

definition IntroductionPageCallback :: "'w installer_api \<Rightarrow> ('w script, unit) js" where
  "IntroductionPageCallback api =
     js_bind (ask_env (api_currentPageChildren api)) (\<lambda>widget.
     js_bind (ask_env (api_isUpdater api)) (\<lambda>updater.
     js_bind (js_get updaterCompleted) (\<lambda>completed.
     if updater \<and> completed = 1
     then js_seq (issue api (ClickButton FinishButton)) (issue api (ClickButton CancelButton))
     else
       js_bind (ask_env (api_isUninstaller api)) (\<lambda>uninstaller.
       js_seq
         (if uninstaller then
            (case widget of
               None \<Rightarrow> js_return ()
             | Some children \<Rightarrow>
                 js_seq (hide_child api children ''PackageManagerRadioButton'')
                        (hide_child api children ''UpdaterRadioButton''))
          else js_return ())
         (js_bind (ask_env (api_isUpdater api)) (\<lambda>updater'.
          if updater' then issue api (ClickButton NextButton) else js_return ()))))))"

definition onBrowseButtonClicked :: "'w installer_api \<Rightarrow> ('w script, unit) js" where
  "onBrowseButtonClicked api =
     js_bind (ask_env (api_targetDirectoryPage api)) (\<lambda>widget.
     case widget of
       None \<Rightarrow> js_return ()
     | Some text \<Rightarrow>
         js_bind (ask_env (runningOnWindows api)) (\<lambda>win.
         if win then
           js_bind (ask_env (appName api)) (\<lambda>name.
           let targetDir = (if \<not> endsWith text name then text @ [CHR 0x5C] @ name else text) in
           js_seq (issue api (SetValue ''TargetDir'' targetDir))
             (js_bind (ask_env (\<lambda>w. api_value api w ''TargetDir'')) (\<lambda>dir.
              issue api (SetTargetDirectoryText dir))))
         else js_return ()))"

definition onNextButtonClicked :: "'w installer_api \<Rightarrow> ('w script, unit) js" where
  "onNextButtonClicked api =
     js_bind (ask_env (api_targetDirectoryPage api)) (\<lambda>widget.
     case widget of
       None \<Rightarrow> js_return ()
     | Some text \<Rightarrow> issue api (SetValue ''APP_BUNDLE_TARGET_DIR'' text))"

section \<open>Waiting for the application to quit\<close>

text \<open>The polling loop \<open>for (i = 0; i < 400; i++)\<close> of an updater.\<close>

fun poll_running :: "'w installer_api \<Rightarrow> nat \<Rightarrow> ('w script, unit) js" where
  "poll_running api 0 = js_return ()"
| "poll_running api (Suc n) =
     js_bind (appProcessIsRunning api) (\<lambda>r.
     js_seq (js_modify (\<lambda>s. s\<lparr>desktopAppProcessRunning := r\<rparr>))
     (if \<not> r then js_return () else poll_running api n))"

definition running_box :: "'w installer_api \<Rightarrow> 'w \<Rightarrow> command" where
  "running_box api w =
     MessageBox ''QMessageBox'' (appName api w @ '' installer'')
       (appName api w @ '' is active. Close the app and press '' @ [CHR 0x22] @ ''Retry'' @ [CHR 0x22] @
        '' button to continue installation. Press '' @ [CHR 0x22] @ ''Abort'' @ [CHR 0x22] @
        '' button to abort the installer and exit.'')
       [Retry, Abort]"

text \<open>One call of the function; \<open>again\<close> is the call it makes to itself.\<close>

definition message_round ::
  "'w installer_api \<Rightarrow> ('w script, unit) js \<Rightarrow> ('w script, unit) js" where
  "message_round api again =
     js_bind (js_get requestToQuitFromApp) (\<lambda>quit.
     if quit then js_return ()
     else
       js_bind (ask_env (api_isUpdater api)) (\<lambda>updater.
       js_seq (if updater then poll_running api 400 else js_return ())
       (js_bind (appProcessIsRunning api) (\<lambda>r.
        js_seq (js_modify (\<lambda>s. s\<lparr>desktopAppProcessRunning := r\<rparr>))
        (if r then
           js_bind (ask api (running_box api)) (\<lambda>result.
           if result = Retry then again
           else js_modify (\<lambda>s. s\<lparr>requestToQuitFromApp := True\<rparr>))
         else js_return ())))))"

lemma message_round_mono [partial_function_mono]:
  fixes again :: "('x \<Rightarrow> 'y option) \<Rightarrow> ('w script, unit) js"
  assumes "\<And>s. mono_option (\<lambda>f. again f s)"
  shows "mono_option (\<lambda>f. message_round api (again f) s)"
  unfolding message_round_def by (intro js_bind_mono js_if_mono option.const_mono assms)

partial_function (option) isDesktopAppProcessRunningMessageLoop ::
  "'w installer_api \<Rightarrow> 'w script \<Rightarrow> ((js_error + unit) \<times> 'w script) option" where
  "isDesktopAppProcessRunningMessageLoop api s =
     message_round api (isDesktopAppProcessRunningMessageLoop api) s"

section \<open>The constructor\<close>

text \<open>The loop that waits up to 300 times 100 ms for the old maintenance tool to disappear.\<close>

fun wait_removed :: "'w installer_api \<Rightarrow> nat \<Rightarrow> ('w script, unit) js" where
  "wait_removed api 0 = js_return ()"
| "wait_removed api (Suc n) =
     js_seq (sleep api 100)
     (js_bind (js_get (\<lambda>s. api_fileExists api (env s) (appInstalledUninstallerPath s))) (\<lambda>present.
      if \<not> present then js_return () else wait_removed api n))"

definition js_path_text :: "string option \<Rightarrow> string" where
  "js_path_text p = (case p of None \<Rightarrow> ''undefined'' | Some s \<Rightarrow> s)"

text \<open>One of the two uninstallers, if its file exists: the new \<open>resultArray\<close>, or the old one.\<close>

definition run_uninstaller :: "'w installer_api \<Rightarrow> ('w script \<Rightarrow> string option) \<Rightarrow>
    exec_result \<Rightarrow> ('w script, exec_result) js" where
  "run_uninstaller api path resultArray =
     js_bind (js_get path) (\<lambda>p.
     js_bind (ask_env (\<lambda>w. api_fileExists api w p)) (\<lambda>present.
     if present then
       js_seq (issue api (ConsoleLog (''Starting uninstallation '' @ js_path_text p)))
              (execute api p [])
     else js_return resultArray))"

text \<open>Lines 262 to 289: run the uninstallers. The value is \<open>False\<close> where the code returns from
  the constructor after \<open>setCancelled\<close>.\<close>

definition remove_old_installation :: "'w installer_api \<Rightarrow> ('w script, bool) js" where
  "remove_old_installation api =
     js_bind (run_uninstaller api appInstalledUninstallerPath_x86 None) (\<lambda>r1.
     js_bind (run_uninstaller api appInstalledUninstallerPath r1) (\<lambda>resultArray.
     js_seq (issue api (ConsoleLog (''Uninstaller finished with code: '' @
        (case result_code resultArray of None \<Rightarrow> ''undefined'' | Some code \<Rightarrow> show_int code))))
     (if \<not> js_equals (js_Number_code (result_code resultArray)) 0 then
        js_seq (issue api (ConsoleLog ''Uninstallation aborted by user''))
        (js_seq (issue api SetCancelled) (js_return False))
      else js_seq (wait_removed api 300) (js_return True))))"

definition installed_box :: "'w installer_api \<Rightarrow> 'w \<Rightarrow> command" where
  "installed_box api w =
     MessageBox ''os.information'' (appName api w)
       (api_qsTr api ''The application is already installed.'' @ '' '' @
        api_qsTr api ''We need to remove the old installation first. Do you wish to proceed?'')
       [Ok, Cancel]"

definition controller_installer :: "'w installer_api \<Rightarrow> ('w script, unit) js" where
  "controller_installer api =
     js_seq (issue_all api
       [SetDefaultPageVisible ComponentSelection False,
        SetDefaultPageVisible TargetDirectory False,
        SetDefaultPageVisible StartMenuDirectoryPage False,
        SetDefaultPageVisible LicenseCheck False])
     (js_seq (isDesktopAppProcessRunningMessageLoop api)
     (js_bind (js_get requestToQuitFromApp) (\<lambda>quit.
      if quit then requestToQuit api
      else
        js_bind (ask_env (runningOnMacOS api)) (\<lambda>mac.
        js_seq (if mac then issue api (SetMessageBoxAutomaticAnswer ''OverwriteTargetDirectory'' Yes)
                else js_return ())
        (js_bind (appInstalled api) (\<lambda>installed.
         if installed then
           js_bind (ask api (installed_box api)) (\<lambda>answer.
           if answer = Ok then
             js_bind (appInstalled api) (\<lambda>installed'.
             js_bind (if installed' then remove_old_installation api else js_return True) (\<lambda>go.
             if go then raiseInstallerWindow api else js_return ()))
           else
             js_seq (issue api (ConsoleLog ''Request to quit from user''))
                    (issue api SetCancelled))
         else js_return ()))))))"

definition Controller :: "'w installer_api \<Rightarrow> ('w script, unit) js" where
  "Controller api =
     js_seq (issue api (ConsoleLog (''OS: '' @ api_prettyProductName api @ '', architecture: '' @
        api_currentCpuArchitecture api)))
     (js_bind (ask_env (\<lambda>w. api_isInstaller api w \<or> api_isUpdater api w)) (\<lambda>check.
      js_seq (if check then
          js_bind (appInstalled api) (\<lambda>b.
            issue api (ConsoleLog (''Check if app already installed: '' @
              (if b then ''true'' else ''false''))))
        else js_return ())
     (js_bind (ask_env (runningOnWindows api)) (\<lambda>win.
      js_seq (if win then issue api (SetValue ''AllUsers'' ''true'') else js_return ())
     (js_bind (ask_env (api_isInstaller api)) (\<lambda>inst.
      if inst then controller_installer api
      else
        js_bind (ask_env (api_isUninstaller api)) (\<lambda>uninst.
        if uninst then
          js_seq (isDesktopAppProcessRunningMessageLoop api)
          (js_bind (js_get requestToQuitFromApp) (\<lambda>quit.
           if quit then requestToQuit api else js_return ()))
        else
          js_bind (ask_env (api_isUpdater api)) (\<lambda>upd.
          if upd then
            issue_all api [SetMessageBoxAutomaticAnswer ''cancelInstallation'' No,
                           ConnectInstallationFinishedToNext]
          else js_return ()))))))))"

declare sleep_loop.simps [code] isDesktopAppProcessRunningMessageLoop.simps [code]

section \<open>Lemmas\<close>

text \<open>\<open>emits P\<close>: a run only appends to the trace, and only events that satisfy \<open>P\<close>.\<close>

definition emits :: "(event \<Rightarrow> bool) \<Rightarrow> 'w script \<Rightarrow> 'w script \<Rightarrow> bool" where
  "emits P s t \<longleftrightarrow> (\<exists>es. trace t = trace s @ es \<and> list_all P es)"

interpretation em: script_relation "emits P" for P
  by unfold_locales (auto simp: emits_def)

lemma emits_quiet: "(\<And>s. trace (f s) = trace s) \<Longrightarrow> js_steps (emits P) (js_modify f)"
  by (rule em.steps_modify) (simp add: emits_def)

lemma emits_issue: "P (Issued c) \<Longrightarrow> js_steps (emits P) (issue api c)"
  unfolding issue_def by (rule em.steps_modify) (simp add: emits_def command_step_def)

lemma emits_note: "P e \<Longrightarrow> js_steps (emits P) (js_modify (note_event e))"
  by (rule em.steps_modify) (simp add: emits_def note_event_def)

lemma emits_issue_all:
  "list_all (\<lambda>c. P (Issued c)) cs \<Longrightarrow> js_steps (emits P) (issue_all api cs)"
  by (induction cs) (auto intro!: em.steps_intros emits_issue)

lemma emits_execute:
  "P (Issued (Execute p args)) \<Longrightarrow> (\<And>r. P (Exited r)) \<Longrightarrow> js_steps (emits P) (execute api p args)"
  unfolding execute_def by (auto intro!: em.steps_intros emits_issue emits_note)

lemma emits_ask_env: "js_steps (emits P) (ask_env f)"
  unfolding ask_env_def by (rule em.steps_get)

lemma emits_ask:
  assumes "\<And>w. P (Issued (mk w))" and "\<And>a. P (Answered a)"
  shows "js_steps (emits P) (ask api mk)"
proof (rule js_stepsI)
  fix s r t
  assume "ask api mk s = Some (r, t)"
  with assms show "emits P s t"
    by (auto simp: ask_def ask_env_def issue_def js_bind_def js_run emits_def command_step_def
        note_event_def)
qed

lemma emits_now: "js_steps (emits P) (now api)"
  unfolding now_def by (auto intro!: em.steps_intros emits_ask_env emits_quiet)

lemmas emits_intros = em.steps_intros emits_issue emits_issue_all emits_execute emits_ask
  emits_ask_env emits_now emits_quiet

lemma emits_appInstalled: "js_steps (emits P) (appInstalled api)"
  unfolding appInstalled_def by (auto intro!: emits_intros simp: Let_def)

lemma emits_sleep_loop: "js_steps (emits P) (sleep_loop api d)"
proof (rule js_stepsI)
  fix s r t
  assume "sleep_loop api d s = Some (r, t)"
  then have "(\<lambda>api d s rt. emits P s (snd rt)) api d s (r, t)"
  proof (rule sleep_loop.raw_induct [rotated])
    fix f :: "'a installer_api \<Rightarrow> int \<Rightarrow> 'a script \<Rightarrow> ((js_error + unit) \<times> 'a script) option"
      and api d s rt
    assume IH: "\<And>api d s rt. f api d s = Some rt \<Longrightarrow> emits P s (snd rt)"
      and eq: "js_bind (now api) (\<lambda>t. if t \<le> d then f api d else js_return ()) s = Some rt"
    have "js_steps (emits P) (f api d)"
      by (rule js_stepsI) (auto dest: IH)
    then have "js_steps (emits P) (js_bind (now api) (\<lambda>t. if t \<le> d then f api d else js_return ()))"
      by (auto intro!: emits_intros)
    from js_stepsD [OF this] eq show "emits P s (snd rt)" by (cases rt) auto
  qed
  then show "emits P s t" by simp
qed

lemma emits_sleep: "js_steps (emits P) (sleep api ms)"
  unfolding sleep_def by (auto intro!: emits_intros emits_sleep_loop)

lemma emits_wait_removed: "js_steps (emits P) (wait_removed api n)"
  by (induction n) (auto intro!: emits_intros emits_sleep)


lemma emits_object: "js_steps (emits P) (js_object v)"
  by (cases v) (simp_all add: js_object_def em.steps_intros)

lemma emits_checkProcessIsRunning:
  "P (Issued (Execute (Some ''/bin/bash'') [''-c'', arg])) \<Longrightarrow> (\<And>r. P (Exited r)) \<Longrightarrow>
   js_steps (emits P) (checkProcessIsRunning api arg)"
  unfolding checkProcessIsRunning_def by (intro emits_intros emits_object)

definition probe_event :: "event \<Rightarrow> bool" where
  "probe_event e \<longleftrightarrow>
     (case e of
        Issued (Execute p args) \<Rightarrow> p = Some ''tasklist'' \<or> args \<noteq> []
      | _ \<Rightarrow> True)"

lemma probe_event_simps [simp]:
  "probe_event (Exited r)" "probe_event (Answered a)"
  "probe_event (Issued (Execute p args)) \<longleftrightarrow> p = Some ''tasklist'' \<or> args \<noteq> []"
  "probe_event (Issued (MessageBox i t x bs))" "probe_event (Issued (ConsoleLog l))"
  "probe_event (Issued SetCancelled)" "probe_event (Issued (SetValue k v))"
  "probe_event (Issued (SetDefaultPageVisible pg b))" "probe_event (Issued (ClickButton bt))"
  "probe_event (Issued (SetMessageBoxAutomaticAnswer i a))"
  "probe_event (Issued ConnectInstallationFinishedToNext)"
  by (simp_all add: probe_event_def)

lemma probe_appProcessIsRunning: "js_steps (emits probe_event) (appProcessIsRunning api)"
  unfolding appProcessIsRunning_def
  by (intro emits_intros emits_object emits_checkProcessIsRunning) auto

lemma probe_poll_running: "js_steps (emits probe_event) (poll_running api n)"
  by (induction n) (auto intro!: emits_intros probe_appProcessIsRunning)

lemma probe_message_round:
  "js_steps (emits probe_event) again \<Longrightarrow> js_steps (emits probe_event) (message_round api again)"
  unfolding message_round_def
  by (intro emits_intros probe_poll_running probe_appProcessIsRunning)
    (auto simp: running_box_def)

text \<open>Induction over the runs of the message loop that come to an end.\<close>

lemma messageLoop_induct:
  assumes run: "isDesktopAppProcessRunningMessageLoop api s = Some (r, t)"
    and step: "\<And>again s r t. (\<And>s r t. again s = Some (r, t) \<Longrightarrow> Q s r t) \<Longrightarrow>
      message_round api again s = Some (r, t) \<Longrightarrow> Q s r t"
  shows "Q s r t"
proof -
  have "api = api \<longrightarrow> Q s (fst (r, t)) (snd (r, t))"
  proof (rule isDesktopAppProcessRunningMessageLoop.raw_induct
        [where P = "\<lambda>a s rt. a = api \<longrightarrow> Q s (fst rt) (snd rt)", OF _ run])
    fix f a s rt
    assume IH: "\<And>a s rt. f a s = Some rt \<Longrightarrow> a = api \<longrightarrow> Q s (fst rt) (snd rt)"
      and eq: "message_round a (f a) s = Some rt"
    have "Q s r t" if "f api s = Some (r, t)" for s r t
      using IH [OF that] by simp
    then show "a = api \<longrightarrow> Q s (fst rt) (snd rt)"
      using step [of "f api" s "fst rt" "snd rt"] eq by auto
  qed
  then show ?thesis by simp
qed

lemma probe_messageLoop:
  "js_steps (emits probe_event) (isDesktopAppProcessRunningMessageLoop api)"
proof (rule js_stepsI)
  fix s r t
  assume "isDesktopAppProcessRunningMessageLoop api s = Some (r, t)"
  then show "emits probe_event s t"
  proof (rule messageLoop_induct)
    fix again :: "('a script, unit) js" and s r t
    assume "\<And>s r t. again s = Some (r, t) \<Longrightarrow> emits probe_event s t"
    then have "js_steps (emits probe_event) (message_round api again)"
      by (intro probe_message_round js_stepsI)
    moreover assume "message_round api again s = Some (r, t)"
    ultimately show "emits probe_event s t" by (rule js_stepsD)
  qed
qed


text \<open>
  One probe of the process table, by the environment \<open>w\<close> it starts in: the command, its result,
  whether that result lists the application, and the whole run.
\<close>

definition probe_program :: "'w installer_api \<Rightarrow> 'w \<Rightarrow> string" where
  "probe_program api w = (if runningOnWindows api w then ''tasklist'' else ''/bin/bash'')"

definition probe_args :: "'w installer_api \<Rightarrow> 'w \<Rightarrow> string list" where
  "probe_args api w = (if runningOnWindows api w then []
     else [''-c'', ''pgrep -x '' @ [CHR 0x27] @ appName api w @ [CHR 0x27]])"

definition probe_command :: "'w installer_api \<Rightarrow> 'w \<Rightarrow> command" where
  "probe_command api w = Execute (Some (probe_program api w)) (probe_args api w)"

definition probe_result :: "'w installer_api \<Rightarrow> 'w \<Rightarrow> exec_result" where
  "probe_result api w = api_result api w (Some (probe_program api w)) (probe_args api w)"

definition app_listed :: "'w installer_api \<Rightarrow> 'w \<Rightarrow> bool" where
  "app_listed api w \<longleftrightarrow> (\<exists>out code. probe_result api w = Some (out, code) \<and>
     (if runningOnWindows api w
      then code = 0 \<and> sublist (appExecutableFileName api (api_run api (probe_command api w) w)) out
      else js_ge (js_Number (hd (js_split_lines (js_trim out)))) 2))"

lemma sublist_occurs: "sublist t s \<longleftrightarrow> (\<exists>i. occurs_at s t i)"
proof
  assume "sublist t s"
  then obtain xs ys where "s = xs @ t @ ys" by (auto simp: sublist_def)
  then have "occurs_at s t (length xs)" by (simp add: occurs_at_def)
  then show "\<exists>i. occurs_at s t i" ..
next
  assume "\<exists>i. occurs_at s t i"
  then obtain i where "take (length t) (drop i s) = t" by (auto simp: occurs_at_def)
  then have "s = take i s @ t @ drop (length t) (drop i s)"
    by (metis append_take_drop_id)
  then show "sublist t s" by (auto simp: sublist_def)
qed

lemma appProcessIsRunning_run:
  "appProcessIsRunning api s =
     Some (if \<not> runningOnWindows api (env s) \<and> probe_result api (env s) = None then Inl TypeError
           else Inr (app_listed api (env s)),
       s\<lparr>env := api_run api (probe_command api (env s)) (env s),
         trace := trace s @ [Issued (probe_command api (env s)), Exited (probe_result api (env s))]\<rparr>)"
proof -
  have indexOf: "js_indexOf out t 0 \<noteq> - 1 \<longleftrightarrow> sublist t out" for out t
    by (simp add: js_indexOf_found sublist_occurs)
  show ?thesis
    by (cases "probe_result api (env s)")
      (auto simp: appProcessIsRunning_def checkProcessIsRunning_def execute_def issue_def ask_env_def
        js_bind_run js_run command_step_def note_event_def probe_command_def probe_result_def
        probe_program_def probe_args_def app_listed_def indexOf js_object_def result_output_def
        js_Number_code_def result_code_def)
qed

text \<open>
  How the loop is left, by the probe it ends with: the application is not listed, or it is and
  the user answers something other than Retry.
\<close>

definition left_loop :: "'w installer_api \<Rightarrow> 'w script \<Rightarrow> 'w script \<Rightarrow> bool" where
  "left_loop api s t \<longleftrightarrow> (\<exists>xs w.
     if requestToQuitFromApp t
     then desktopAppProcessRunning t \<and> app_listed api w \<and>
       (\<exists>a. a \<noteq> Retry \<and> trace t = trace s @ xs @
          [Issued (probe_command api w), Exited (probe_result api w),
           Issued (running_box api (api_run api (probe_command api w) w)), Answered a])
     else \<not> desktopAppProcessRunning t \<and> \<not> app_listed api w \<and>
       trace t = trace s @ xs @ [Issued (probe_command api w), Exited (probe_result api w)])"

lemma left_loop_later:
  assumes "left_loop api u t" and "trace u = trace s @ xs"
  shows "left_loop api s t"
proof -
  from assms(1) obtain ys w where "if requestToQuitFromApp t
     then desktopAppProcessRunning t \<and> app_listed api w \<and>
       (\<exists>a. a \<noteq> Retry \<and> trace t = trace u @ ys @
          [Issued (probe_command api w), Exited (probe_result api w),
           Issued (running_box api (api_run api (probe_command api w) w)), Answered a])
     else \<not> desktopAppProcessRunning t \<and> \<not> app_listed api w \<and>
       trace t = trace u @ ys @ [Issued (probe_command api w), Exited (probe_result api w)]"
    unfolding left_loop_def by blast
  with assms(2) show ?thesis
    unfolding left_loop_def by (intro exI [of _ "xs @ ys"] exI [of _ w]) auto
qed

text \<open>The waiting of an updater only adds to the interaction, and asks for no quitting.\<close>

definition waits :: "'w script \<Rightarrow> 'w script \<Rightarrow> bool" where
  "waits s t \<longleftrightarrow> requestToQuitFromApp t = requestToQuitFromApp s \<and> (\<exists>es. trace t = trace s @ es)"

interpretation wa: script_relation waits
  by unfold_locales (auto simp: waits_def)

lemma waits_poll_running: "js_steps waits (poll_running api n)"
proof (induction n)
  case (Suc n)
  have "js_steps waits (appProcessIsRunning api)"
    by (rule js_stepsI) (auto simp: appProcessIsRunning_run waits_def)
  moreover have "js_steps waits (js_modify (\<lambda>s. s\<lparr>desktopAppProcessRunning := r\<rparr>))" for r
    by (rule wa.steps_modify) (simp add: waits_def)
  ultimately show ?case
    using Suc by (auto intro!: wa.steps_intros)
qed (simp add: wa.steps_intros)

lemma left_loop_message_round:
  assumes again: "\<And>u r t. again u = Some (r, t) \<Longrightarrow> \<not> requestToQuitFromApp u \<Longrightarrow> r = Inr () \<Longrightarrow> left_loop api u t"
    and run: "message_round api again s = Some (Inr (), t)" and "\<not> requestToQuitFromApp s"
  shows "left_loop api s t"
proof -
  define poll where
    "poll = (if api_isUpdater api (env s) then poll_running api 400 else js_return ())"
  define decide where "decide r = (if r then
      js_bind (ask api (running_box api)) (\<lambda>result.
      if result = Retry then again else js_modify (\<lambda>s. s\<lparr>requestToQuitFromApp := True\<rparr>))
    else js_return ())" for r
  from run assms(3) obtain u where u: "poll s = Some (Inr (), u)" and
    rest: "js_bind (appProcessIsRunning api) (\<lambda>r.
        js_seq (js_modify (\<lambda>s. s\<lparr>desktopAppProcessRunning := r\<rparr>)) (decide r)) u = Some (Inr (), t)"
    unfolding message_round_def poll_def decide_def ask_env_def
    by (auto simp: js_bind_eq_Some [of "js_get _"] js_bind_eq_Some [of "if _ then _ else _"] js_run)
  have "js_steps waits poll"
    by (auto simp: poll_def intro: waits_poll_running wa.steps_return)
  from js_stepsD [OF this u] assms(3) obtain es where
    es: "trace u = trace s @ es" "\<not> requestToQuitFromApp u"
    by (auto simp: waits_def)
  let ?w = "env u"
  let ?probed = "[Issued (probe_command api ?w), Exited (probe_result api ?w)]"
  let ?v = "u\<lparr>env := api_run api (probe_command api ?w) ?w, trace := trace u @ ?probed,
      desktopAppProcessRunning := app_listed api ?w\<rparr>"
  have ends: "decide (app_listed api ?w) ?v = Some (Inr (), t)"
    using rest by (auto simp: js_bind_eq_Some appProcessIsRunning_run js_run split: if_splits)
  have "left_loop api u t"
  proof (cases "app_listed api ?w")
    case False
    with ends es(2) show ?thesis
      unfolding left_loop_def by (intro exI [of _ "[]"] exI [of _ ?w]) (auto simp: decide_def js_run)
  next
    case True
    let ?box = "running_box api (env ?v)"
    define a where "a = api_answer api (env ?v) ?box"
    let ?x = "?v\<lparr>env := api_run api ?box (env ?v), trace := trace ?v @ [Issued ?box, Answered a]\<rparr>"
    have k: "(if a = Retry then again else js_modify (\<lambda>s. s\<lparr>requestToQuitFromApp := True\<rparr>)) ?x =
        Some (Inr (), t)"
      using ends True
      by (simp add: decide_def ask_def ask_env_def issue_def js_bind_run js_run command_step_def note_event_def a_def)
    show ?thesis
    proof (cases "a = Retry")
      case True
      with again [of ?x "Inr ()" t] k es(2) have "left_loop api ?x t" by simp
      then show ?thesis by (rule left_loop_later) simp
    next
      case False
      with k \<open>app_listed api ?w\<close> show ?thesis
        unfolding left_loop_def by (intro exI [of _ "[]"] exI [of _ ?w]) (auto simp: js_run)
    qed
  qed
  with es(1) show ?thesis by (rule left_loop_later [rotated])
qed

lemma messageLoop_left:
  assumes "isDesktopAppProcessRunningMessageLoop api s = Some (Inr (), t)"
    and "\<not> requestToQuitFromApp s"
  shows "left_loop api s t"
proof -
  have "\<not> requestToQuitFromApp s \<longrightarrow> r = Inr () \<longrightarrow> left_loop api s t"
    if "isDesktopAppProcessRunningMessageLoop api s = Some (r, t)" for r
    using that
  proof (rule messageLoop_induct)
    fix again :: "('a script, unit) js" and s r t
    assume "\<And>s r t. again s = Some (r, t) \<Longrightarrow> \<not> requestToQuitFromApp s \<longrightarrow> r = Inr () \<longrightarrow> left_loop api s t"
      and "message_round api again s = Some (r, t)"
    then show "\<not> requestToQuitFromApp s \<longrightarrow> r = Inr () \<longrightarrow> left_loop api s t"
      using left_loop_message_round [of again api s t] by blast
  qed
  with assms show ?thesis by blast
qed

text \<open>\<open>consented ok es\<close>: in \<open>es\<close>, every program that is no probe is run after an \<open>Ok\<close>.\<close>

fun consented :: "bool \<Rightarrow> event list \<Rightarrow> bool" where
  "consented ok [] = True"
| "consented ok (e # es) = ((ok \<or> probe_event e) \<and> consented (ok \<or> e = Answered Ok) es)"

lemma consented_mono: "consented ok es \<Longrightarrow> (ok \<Longrightarrow> ok') \<Longrightarrow> consented ok' es"
proof (induction es arbitrary: ok ok')
  case (Cons e es)
  then have "consented (ok' \<or> e = Answered Ok) es"
    by (auto intro: Cons.IH [of "ok \<or> e = Answered Ok"])
  with Cons.prems show ?case by auto
qed simp

lemma consented_append:
  "consented ok (xs @ ys) \<longleftrightarrow> consented ok xs \<and> consented (ok \<or> Answered Ok \<in> set xs) ys"
  by (induction xs arbitrary: ok) (simp_all add: disj_assoc eq_commute conj_assoc)

lemma consented_True: "consented True es"
  by (induction es) auto

lemma consented_probe: "list_all probe_event es \<Longrightarrow> consented ok es"
  by (induction es arbitrary: ok) auto

definition asks_first :: "bool \<Rightarrow> 'w script \<Rightarrow> 'w script \<Rightarrow> bool" where
  "asks_first ok s t \<longleftrightarrow> (\<exists>es. trace t = trace s @ es \<and> consented ok es)"

interpretation af: script_relation "asks_first ok" for ok
proof
  show "asks_first ok s s" for s :: "'a script"
    by (simp add: asks_first_def)
  show "asks_first ok s u" if "asks_first ok s t" "asks_first ok t u" for s t u :: "'a script"
    using that by (auto simp: asks_first_def consented_append intro: consented_mono)
qed

lemma asks_first_probe: "js_steps (emits probe_event) m \<Longrightarrow> js_steps (asks_first ok) m"
  by (erule js_steps_mono) (auto simp: emits_def asks_first_def intro: consented_probe)

lemma asks_first_any: "js_steps (emits (\<lambda>_. True)) m \<Longrightarrow> js_steps (asks_first True) m"
  by (erule js_steps_mono) (auto simp: emits_def asks_first_def consented_True)

lemma asks_first_bind_ask:
  assumes box: "\<And>w. probe_event (Issued (mk w))"
    and ok: "js_steps (asks_first True) (k Ok)"
    and no: "\<And>a. a \<noteq> Ok \<Longrightarrow> js_steps (asks_first False) (k a)"
  shows "js_steps (asks_first False) (js_bind (ask api mk) k)"
proof (rule js_stepsI)
  fix s r t
  assume "js_bind (ask api mk) k s = Some (r, t)"
  then obtain a u where ask: "ask api mk s = Some (Inr a, u)" and k: "k a u = Some (r, t)"
    by (auto simp: js_bind_eq_Some ask_def ask_env_def issue_def js_run)
  from ask have u: "trace u = trace s @ [Issued (mk (env s)), Answered a]"
    by (auto simp: js_bind_eq_Some ask_def ask_env_def issue_def js_run command_step_def
        note_event_def)
  have "asks_first (a = Ok) u t"
    using k ok no by (cases "a = Ok") (auto dest: js_stepsD)
  with u box show "asks_first False s t"
    by (auto simp: asks_first_def)
qed

lemma emits_any_run_uninstaller: "js_steps (emits (\<lambda>_. True)) (run_uninstaller api path r)"
  unfolding run_uninstaller_def by (intro emits_intros) auto

lemma emits_any_remove_old: "js_steps (emits (\<lambda>_. True)) (remove_old_installation api)"
  unfolding remove_old_installation_def
  by (intro emits_intros emits_any_run_uninstaller emits_wait_removed) auto

lemma probe_raiseInstallerWindow: "js_steps (emits probe_event) (raiseInstallerWindow api)"
  unfolding raiseInstallerWindow_def Let_def by (intro emits_intros) auto

lemma emits_weaken: "js_steps (emits P) m \<Longrightarrow> js_steps (emits (\<lambda>_. True)) m"
  by (erule js_steps_mono) (auto simp: emits_def list_all_iff)

lemma asks_first_controller_installer:
  "js_steps (asks_first False) (controller_installer api)"
proof -
  have after: "js_steps (asks_first True)
     (js_bind (appInstalled api) (\<lambda>installed'.
        js_bind (if installed' then remove_old_installation api else js_return True) (\<lambda>go.
        if go then raiseInstallerWindow api else js_return ())))"
    by (rule asks_first_any, intro emits_intros emits_appInstalled emits_any_remove_old
        emits_weaken [OF probe_raiseInstallerWindow])
  show ?thesis
    unfolding controller_installer_def
    apply (rule af.steps_bind, rule asks_first_probe, intro emits_intros, simp)
    apply (rule af.steps_bind, rule asks_first_probe, rule probe_messageLoop)
    apply (rule af.steps_bind, rule af.steps_get, rule af.steps_if)
     apply (rule asks_first_probe, simp add: requestToQuit_def, intro emits_intros, simp_all)
    apply (rule af.steps_bind, rule asks_first_probe, rule emits_ask_env)
    apply (rule af.steps_bind, rule asks_first_probe, intro emits_intros, simp)
    apply (rule af.steps_bind, rule asks_first_probe, rule emits_appInstalled)
    apply (rule af.steps_if)
     apply (rule asks_first_bind_ask, simp add: installed_box_def, simp add: after)
     apply (simp, rule asks_first_probe, intro emits_intros, simp_all)
    apply (rule af.steps_return)
    done
qed

lemma asks_first_Controller: "js_steps (asks_first False) (Controller api)"
proof -
  have loop: "js_steps (asks_first False) (isDesktopAppProcessRunningMessageLoop api)"
    by (rule asks_first_probe) (rule probe_messageLoop)
  have issue: "js_steps (asks_first False) (issue api c)" if "probe_event (Issued c)" for c
    using that by (intro asks_first_probe emits_intros)
  have env: "js_steps (asks_first False) (ask_env f)" for f :: "'a \<Rightarrow> bool"
    by (rule asks_first_probe) (rule emits_ask_env)
  have quit: "js_steps (asks_first False) (requestToQuit api)"
    unfolding requestToQuit_def by (intro asks_first_probe emits_intros) auto
  have upd: "js_steps (asks_first False) (issue_all api
       [SetMessageBoxAutomaticAnswer ''cancelInstallation'' No, ConnectInstallationFinishedToNext])"
    by (intro asks_first_probe emits_intros) auto
  show ?thesis
    unfolding Controller_def
    by (intro af.steps_intros env loop issue quit upd asks_first_controller_installer
        asks_first_probe [OF emits_appInstalled]) auto
qed

section \<open>endsWith\<close>

lemma endsWith_suffix: "endsWith str suff \<longleftrightarrow> suffix suff str"
proof (cases "length suff \<le> length str")
  case True
  have "endsWith str suff \<longleftrightarrow> (\<exists>i. length str - length suff \<le> i \<and> occurs_at str suff i)"
    using True by (simp add: endsWith_def js_indexOf_found nat_diff_distrib)
  also have "\<dots> \<longleftrightarrow> occurs_at str suff (length str - length suff)"
    by (auto simp: occurs_at_def)
  also have "\<dots> \<longleftrightarrow> suffix suff str"
    using True by (simp add: occurs_at_def suffix_iff_drop)
  finally show ?thesis .
next
  case False
  then have "\<not> endsWith str suff"
    by (auto simp: endsWith_def js_indexOf_found occurs_at_def)
  with False show ?thesis by (auto dest: suffix_length_le)
qed

lemma onBrowseButtonClicked_run:
  assumes "\<And>w. runningOnWindows api w"
    and "api_targetDirectoryPage api (env s) = Some text"
  shows "\<exists>dir t. onBrowseButtonClicked api s = Some (Inr (), t) \<and>
     suffix (appName api (env s)) dir \<and> prefix text dir \<and>
     (endsWith text (appName api (env s)) \<longrightarrow> dir = text) \<and>
     (\<exists>shown. trace t = trace s @ [Issued (SetValue ''TargetDir'' dir), Issued (SetTargetDirectoryText shown)])"
  using assms
  by (auto simp: onBrowseButtonClicked_def ask_env_def issue_def js_bind_def js_run Let_def
      command_step_def endsWith_suffix suffix_append_Cons)

section \<open>sleep\<close>

lemma sleep_loop_returns:
  assumes "d < api_clock api ((api_tick api ^^ n) (env s))"
    and "\<And>k. k < n \<Longrightarrow> api_clock api ((api_tick api ^^ k) (env s)) \<le> d"
  shows "sleep_loop api d s = Some (Inr (), s\<lparr>env := (api_tick api ^^ Suc n) (env s)\<rparr>)"
  using assms
proof (induction n arbitrary: s)
  case 0
  then show ?case
    by (subst sleep_loop.simps) (simp add: now_def ask_env_def js_bind_def js_run)
next
  case (Suc n)
  let ?s = "s\<lparr>env := api_tick api (env s)\<rparr>"
  have "sleep_loop api d s = sleep_loop api d ?s"
    using Suc.prems(2) [of 0]
    by (subst sleep_loop.simps) (simp add: now_def ask_env_def js_bind_def js_run)
  moreover have "sleep_loop api d ?s = Some (Inr (), ?s\<lparr>env := (api_tick api ^^ Suc n) (env ?s)\<rparr>)"
  proof (rule Suc.IH)
    show "d < api_clock api ((api_tick api ^^ n) (env ?s))"
      using Suc.prems(1) by (simp add: funpow_swap1)
    show "api_clock api ((api_tick api ^^ k) (env ?s)) \<le> d" if "k < n" for k
      using Suc.prems(2) [of "Suc k"] that by (simp add: funpow_swap1)
  qed
  ultimately show ?case by (simp add: funpow_swap1)
qed

text \<open>The busy wait returns after the first reading of the clock past the deadline.\<close>

lemma sleep_returns:
  assumes "\<And>T. \<exists>n. T < api_clock api ((api_tick api ^^ n) (api_tick api (env s)))"
  shows "\<exists>n > 0. sleep api ms s = Some (Inr (), s\<lparr>env := (api_tick api ^^ Suc n) (env s)\<rparr>) \<and>
    api_clock api (env s) + ms < api_clock api ((api_tick api ^^ n) (env s)) \<and>
    (\<forall>k. 0 < k \<longrightarrow> k < n \<longrightarrow>
       api_clock api ((api_tick api ^^ k) (env s)) \<le> api_clock api (env s) + ms)"
proof -
  let ?s = "s\<lparr>env := api_tick api (env s)\<rparr>" and ?d = "api_clock api (env s) + ms"
  let ?past = "\<lambda>n. ?d < api_clock api ((api_tick api ^^ n) (env ?s))"
  obtain n where "?past n" using assms [of ?d] by auto
  then have n: "?past (LEAST n. ?past n)" by (rule LeastI)
  have before: "api_clock api ((api_tick api ^^ k) (env ?s)) \<le> ?d" if "k < (LEAST n. ?past n)" for k
    using not_less_Least [OF that] by simp
  have "sleep api ms s = sleep_loop api ?d ?s"
    by (simp add: sleep_def now_def ask_env_def js_bind_def js_run)
  also have "\<dots> = Some (Inr (), ?s\<lparr>env := (api_tick api ^^ Suc (LEAST n. ?past n)) (env ?s)\<rparr>)"
    using n before by (rule sleep_loop_returns)
  finally have run: "sleep api ms s =
      Some (Inr (), s\<lparr>env := (api_tick api ^^ Suc (Suc (LEAST n. ?past n))) (env s)\<rparr>)"
    by (simp add: funpow_swap1)
  have "api_clock api ((api_tick api ^^ k) (env s)) \<le> ?d" if "0 < k" "k < Suc (LEAST n. ?past n)" for k
    using before [of "k - 1"] that by (cases k) (auto simp: funpow_swap1)
  with run n show ?thesis
    by (intro exI [of _ "Suc (LEAST n. ?past n)"]) (simp add: funpow_swap1)
qed

lemma wait_removed_returns:
  assumes unbounded: "\<And>w T. \<exists>n. T < api_clock api ((api_tick api ^^ n) w)"
    and mono: "\<And>w. api_clock api w \<le> api_clock api (api_tick api w)"
  shows "\<exists>w. wait_removed api n s = Some (Inr (), s\<lparr>env := w\<rparr>) \<and>
     (api_fileExists api w (appInstalledUninstallerPath s)
        \<longrightarrow> api_clock api (env s) + 100 * int n \<le> api_clock api w)"
proof (induction n arbitrary: s)
  case 0
  then show ?case by (intro exI [of _ "env s"]) (simp add: js_run)
next
  case (Suc n)
  obtain k where k: "sleep api 100 s = Some (Inr (), s\<lparr>env := (api_tick api ^^ Suc k) (env s)\<rparr>)"
      "api_clock api (env s) + 100 < api_clock api ((api_tick api ^^ k) (env s))"
    using sleep_returns [of api s 100, OF unbounded] by blast
  define w where "w = (api_tick api ^^ Suc k) (env s)"
  have w: "sleep api 100 s = Some (Inr (), s\<lparr>env := w\<rparr>)" "api_clock api (env s) + 100 \<le> api_clock api w"
    using k mono [of "(api_tick api ^^ k) (env s)"] by (simp_all add: w_def)
  show ?case
  proof (cases "api_fileExists api w (appInstalledUninstallerPath s)")
    case True
    from Suc.IH [of "s\<lparr>env := w\<rparr>"] obtain v where
      "wait_removed api n (s\<lparr>env := w\<rparr>) = Some (Inr (), s\<lparr>env := v\<rparr>)"
      "api_fileExists api v (appInstalledUninstallerPath s) \<longrightarrow>
         api_clock api w + 100 * int n \<le> api_clock api v"
      by auto
    with True w show ?thesis by (intro exI [of _ v]) (auto simp: js_bind_def js_run)
  next
    case False
    with w show ?thesis by (intro exI [of _ w]) (simp add: js_bind_def js_run)
  qed
qed

section \<open>The message loop ends when the retries do\<close>

lemma total_issue: "js_total (issue api c)"
  unfolding issue_def by (rule total_basic)

lemma total_execute: "js_total (execute api p args)"
  unfolding execute_def by (intro total_intros total_issue)

lemma total_ask: "js_total (ask api mk)"
  unfolding ask_def ask_env_def by (intro total_intros total_issue)

lemma total_appProcessIsRunning: "js_total (appProcessIsRunning api)"
proof -
  have "js_total (checkProcessIsRunning api arg)" for arg
    unfolding checkProcessIsRunning_def by (intro total_intros total_execute total_object)
  then show ?thesis
    unfolding appProcessIsRunning_def ask_env_def by (intro total_intros total_execute total_object)
qed

lemma total_poll_running: "js_total (poll_running api n)"
  by (induction n) (auto intro!: total_intros total_appProcessIsRunning)

text \<open>\<open>calmer f\<close>: a run does not raise the measure \<open>f\<close> of the environment.\<close>

definition calmer :: "('w \<Rightarrow> nat) \<Rightarrow> 'w script \<Rightarrow> 'w script \<Rightarrow> bool" where
  "calmer f s t \<longleftrightarrow> f (env t) \<le> f (env s)"

interpretation ca: script_relation "calmer f" for f
  by unfold_locales (auto simp: calmer_def)

lemma calmer_issue:
  "(\<And>c w. f (api_run api c w) \<le> f w) \<Longrightarrow> js_steps (calmer f) (issue api c)"
  unfolding issue_def by (rule ca.steps_modify) (simp add: calmer_def command_step_def)

lemma calmer_quiet: "(\<And>s. env (g s) = env s) \<Longrightarrow> js_steps (calmer f) (js_modify g)"
  by (rule ca.steps_modify) (simp add: calmer_def)

lemma calmer_execute:
  "(\<And>c w. f (api_run api c w) \<le> f w) \<Longrightarrow> js_steps (calmer f) (execute api p args)"
  unfolding execute_def by (intro ca.steps_intros calmer_issue calmer_quiet) (auto simp: note_event_def)

lemma calmer_object: "js_steps (calmer f) (js_object v)"
  by (cases v) (simp_all add: js_object_def ca.steps_intros)

lemma calmer_appProcessIsRunning:
  assumes "\<And>c w. f (api_run api c w) \<le> f w"
  shows "js_steps (calmer f) (appProcessIsRunning api)"
proof -
  have "js_steps (calmer f) (checkProcessIsRunning api arg)" for arg
    unfolding checkProcessIsRunning_def by (intro ca.steps_intros calmer_execute calmer_object assms)
  then show ?thesis
    unfolding appProcessIsRunning_def ask_env_def
    by (intro ca.steps_intros calmer_execute calmer_object assms)
qed

lemma calmer_poll_running:
  "(\<And>c w. f (api_run api c w) \<le> f w) \<Longrightarrow> js_steps (calmer f) (poll_running api n)"
  by (induction n) (auto intro!: ca.steps_intros calmer_appProcessIsRunning calmer_quiet)

text \<open>Up to the call it makes to itself, a round returns; and it makes that call only in an
  environment of a smaller measure.\<close>

lemma message_round_total:
  fixes f :: "'w \<Rightarrow> nat"
  assumes run: "\<And>c w. f (api_run api c w) \<le> f w"
    and retry: "\<And>w. api_answer api w (running_box api w) = Retry \<Longrightarrow>
       f (api_run api (running_box api w) w) < f w"
    and again: "\<And>t. f (env t) < f (env s) \<Longrightarrow> again t \<noteq> None"
  shows "message_round api again s \<noteq> None"
proof -
  define dialog where "dialog = js_bind (ask api (running_box api)) (\<lambda>result.
           if result = Retry then again
           else js_modify (\<lambda>s. s\<lparr>requestToQuitFromApp := True\<rparr>))"
  have dialog: "dialog u \<noteq> None" if "f (env u) \<le> f (env s)" for u
    using that again retry [of "env u"]
    by (auto simp: dialog_def ask_def ask_env_def issue_def js_bind_def js_run command_step_def
        note_event_def)
  define probe where "probe = js_bind (appProcessIsRunning api) (\<lambda>r.
        js_seq (js_modify (\<lambda>s. s\<lparr>desktopAppProcessRunning := r\<rparr>)) (if r then dialog else js_return ()))"
  have probe: "probe u \<noteq> None" if "f (env u) \<le> f (env s)" for u
  proof -
    obtain r v where v: "appProcessIsRunning api u = Some (r, v)"
      using total_appProcessIsRunning [of api] by (fastforce simp: js_total_def)
    then have "f (env v) \<le> f (env s)"
      using js_stepsD [OF calmer_appProcessIsRunning [of f api, OF run] v] that by (simp add: calmer_def)
    with v dialog show ?thesis by (cases r) (auto simp: probe_def js_bind_def js_run)
  qed
  define poll where
    "poll = (if api_isUpdater api (env s) then poll_running api 400 else js_return ())"
  obtain r v where v: "poll s = Some (r, v)"
    using total_poll_running [of api 400] by (fastforce simp: poll_def js_total_def js_run)
  have "f (env v) \<le> f (env s)"
    using v js_stepsD [OF calmer_poll_running [of f api, OF run]]
    by (auto simp: poll_def calmer_def js_run split: if_splits)
  moreover have "message_round api again s =
      (if requestToQuitFromApp s then Some (Inr (), s) else js_seq poll probe s)"
    unfolding message_round_def poll_def probe_def dialog_def ask_env_def
    by (simp add: js_bind_run js_run)
  ultimately show ?thesis
    using v probe by (cases r) (auto simp: js_bind_run)
qed

lemma messageLoop_returns:
  fixes f :: "'w \<Rightarrow> nat"
  assumes run: "\<And>c w. f (api_run api c w) \<le> f w"
    and retry: "\<And>w. api_answer api w (running_box api w) = Retry \<Longrightarrow>
       f (api_run api (running_box api w) w) < f w"
  shows "\<exists>r t. isDesktopAppProcessRunningMessageLoop api s = Some (r, t)"
proof (induction "f (env s)" arbitrary: s rule: less_induct)
  case less
  have "message_round api (isDesktopAppProcessRunningMessageLoop api) s \<noteq> None"
  proof (rule message_round_total [where f = f and api = api, OF run retry])
    fix t :: "'w script"
    assume "f (env t) < f (env s)"
    from less [OF this] show "isDesktopAppProcessRunningMessageLoop api t \<noteq> None" by auto
  qed
  then show ?case
    unfolding isDesktopAppProcessRunningMessageLoop.simps [of api s] by auto
qed

section \<open>Exceptions\<close>

lemma nothrow_issue: "js_nothrow (issue api c)"
  unfolding issue_def by (rule nothrow_intros)

lemma nothrow_issue_all: "js_nothrow (issue_all api cs)"
  by (induction cs) (auto intro: nothrow_intros nothrow_bind nothrow_issue)

lemma nothrow_ask_env: "js_nothrow (ask_env f)"
  unfolding ask_env_def by (rule nothrow_intros)

lemma nothrow_execute: "js_nothrow (execute api p args)"
  unfolding execute_def by (intro nothrow_bind nothrow_intros nothrow_issue)

lemma nothrow_ask: "js_nothrow (ask api mk)"
  unfolding ask_def by (intro nothrow_bind nothrow_intros nothrow_issue nothrow_ask_env)

lemmas nothrow_rules = nothrow_bind nothrow_intros nothrow_if nothrow_issue nothrow_issue_all
  nothrow_ask_env nothrow_execute nothrow_ask

lemma nothrow_appInstalled: "js_nothrow (appInstalled api)"
  unfolding appInstalled_def by (intro nothrow_rules)

lemma nothrow_sleep: "js_nothrow (sleep api ms)"
proof -
  have "fst rt = Inr ()" if "sleep_loop api d s = Some rt" for d s rt
  proof (rule sleep_loop.raw_induct [where P = "\<lambda>_ _ _ rt. fst rt = Inr ()", OF _ that])
    fix f :: "'b installer_api \<Rightarrow> int \<Rightarrow> 'b script \<Rightarrow> ((js_error + unit) \<times> 'b script) option"
      and api d s rt
    assume "\<And>api d s rt. f api d s = Some rt \<Longrightarrow> fst rt = Inr ()"
      and "js_bind (now api) (\<lambda>t. if t \<le> d then f api d else js_return ()) s = Some rt"
    then show "fst rt = Inr ()"
      by (cases rt) (auto simp: js_bind_eq_Some now_def ask_env_def js_run split: if_splits)
  qed
  then have "js_nothrow (sleep_loop api d)" for d
    by (force simp: js_nothrow_def)
  then show ?thesis
    unfolding sleep_def now_def by (intro nothrow_rules)
qed

lemma nothrow_wait_removed: "js_nothrow (wait_removed api n)"
  by (induction n) (auto intro!: nothrow_rules nothrow_sleep)

lemma nothrow_raiseInstallerWindow: "js_nothrow (raiseInstallerWindow api)"
  unfolding raiseInstallerWindow_def Let_def by (intro nothrow_rules)

lemma nothrow_remove_old_installation: "js_nothrow (remove_old_installation api)"
  unfolding remove_old_installation_def run_uninstaller_def
  by (intro nothrow_rules nothrow_wait_removed)

text \<open>All that throws is a probe of the process table whose shell could not be started.\<close>

definition no_shell :: "'w installer_api \<Rightarrow> js_error \<Rightarrow> 'w script \<Rightarrow> bool" where
  "no_shell api e t \<longleftrightarrow> e = TypeError \<and>
     (\<exists>xs w. \<not> runningOnWindows api w \<and> trace t = xs @ [Issued (probe_command api w), Exited None])"

lemma throws_probe: "js_throws (no_shell api) (appProcessIsRunning api)"
  by (auto simp: js_throws_def no_shell_def appProcessIsRunning_run split: if_splits)

lemmas throws_rules = throws_bind throws_if throws_probe
  nothrow_intros [THEN throws_nothrow] nothrow_issue [THEN throws_nothrow]
  nothrow_issue_all [THEN throws_nothrow] nothrow_ask_env [THEN throws_nothrow]
  nothrow_ask [THEN throws_nothrow] nothrow_appInstalled [THEN throws_nothrow]
  nothrow_remove_old_installation [THEN throws_nothrow]
  nothrow_raiseInstallerWindow [THEN throws_nothrow]

lemma throws_messageLoop: "js_throws (no_shell api) (isDesktopAppProcessRunningMessageLoop api)"
proof -
  have poll: "js_throws (no_shell api) (poll_running api n)" for n
    by (induction n) (auto intro!: throws_rules)
  have "\<forall>e. r = Inl e \<longrightarrow> no_shell api e t"
    if "isDesktopAppProcessRunningMessageLoop api s = Some (r, t)" for s r t
    using that
  proof (rule messageLoop_induct)
    fix again :: "('a script, unit) js" and s r t
    assume IH: "\<And>s r t. again s = Some (r, t) \<Longrightarrow> \<forall>e. r = Inl e \<longrightarrow> no_shell api e t"
      and run: "message_round api again s = Some (r, t)"
    from IH have "js_throws (no_shell api) again" by (auto simp: js_throws_def)
    then have "js_throws (no_shell api) (message_round api again)"
      unfolding message_round_def by (intro throws_rules poll)
    with run show "\<forall>e. r = Inl e \<longrightarrow> no_shell api e t" by (auto simp: js_throws_def)
  qed
  then show ?thesis by (force simp: js_throws_def)
qed

lemma throws_Controller: "js_throws (no_shell api) (Controller api)"
proof -
  have quit: "js_throws (no_shell api) (requestToQuit api)"
    unfolding requestToQuit_def by (intro throws_rules)
  have "js_throws (no_shell api) (controller_installer api)"
    unfolding controller_installer_def by (intro throws_rules throws_messageLoop quit)
  then show ?thesis
    unfolding Controller_def by (intro throws_rules throws_messageLoop quit)
qed

section \<open>Removing the old installation\<close>

fun exits :: "event list \<Rightarrow> exec_result list" where
  "exits [] = []"
| "exits (Exited r # es) = r # exits es"
| "exits (_ # es) = exits es"

definition succeeded :: "exec_result \<Rightarrow> bool" where
  "succeeded r \<longleftrightarrow> (\<exists>out. r = Some (out, 0))"

lemma run_uninstaller_cases:
  assumes "run_uninstaller api path r s = Some (q, t)"
  shows "(\<not> api_fileExists api (env s) (path s) \<and> q = Inr r \<and> t = s) \<or>
    (api_fileExists api (env s) (path s) \<and> (\<exists>r' w. q = Inr r' \<and>
       t = s\<lparr>env := w, trace := trace s @ [Issued (ConsoleLog (''Starting uninstallation '' @ js_path_text (path s))),
            Issued (Execute (path s) []), Exited r']\<rparr>))"
  using assms
  by (auto simp: run_uninstaller_def execute_def ask_env_def issue_def js_bind_def js_run
      command_step_def note_event_def split: if_splits)

lemma quiet_wait_removed: "wait_removed api n s = Some (r, t) \<Longrightarrow> trace t = trace s"
  using js_stepsD [OF emits_wait_removed [where P = "\<lambda>_. False"]]
  by (fastforce simp: emits_def list_all_iff)

lemma exits_issued: "exits (es @ map Issued cs) = exits es"
proof (induction es rule: exits.induct)
  case 1
  show ?case by (induction cs) auto
qed auto

text \<open>The steps after the uninstallers: what they add to the trace, and the value.\<close>

lemma remove_verdict:
  assumes "js_seq (issue api (ConsoleLog msg))
     (if \<not> js_equals (js_Number_code (result_code r)) 0 then
        js_seq (issue api (ConsoleLog ''Uninstallation aborted by user''))
        (js_seq (issue api SetCancelled) (js_return False))
      else js_seq (wait_removed api n) (js_return True)) s = Some (Inr go, t)"
  shows "\<exists>cs. trace t = trace s @ map Issued cs \<and> go = succeeded r \<and>
    (if go then SetCancelled \<notin> set cs else cs \<noteq> [] \<and> last cs = SetCancelled)"
proof (cases "succeeded r")
  case True
  with assms have "go" "trace t = trace s @ map Issued [ConsoleLog msg]"
    by (auto simp: succeeded_def js_bind_eq_Some issue_def js_run command_step_def
        dest!: quiet_wait_removed split: option.splits)
  with True show ?thesis by (intro exI [of _ "[ConsoleLog msg]"]) simp
next
  case False
  with assms have "\<not> go" "trace t = trace s @ map Issued
      [ConsoleLog msg, ConsoleLog ''Uninstallation aborted by user'', SetCancelled]"
    by (auto simp: succeeded_def js_bind_eq_Some issue_def js_run command_step_def
        split: option.splits)
  with False show ?thesis by (metis last_ConsL last_ConsR list.discI)
qed

lemma remove_old_installation_verdict:
  assumes "remove_old_installation api s = Some (Inr go, t)"
  shows "\<exists>es. trace t = trace s @ es \<and>
    go = (exits es \<noteq> [] \<and> succeeded (last (exits es))) \<and>
    (if go then Issued SetCancelled \<notin> set es else last es = Issued SetCancelled)"
proof -
  from assms obtain r1 s1 r2 s2 where
    1: "run_uninstaller api appInstalledUninstallerPath_x86 None s = Some (Inr r1, s1)" and
    2: "run_uninstaller api appInstalledUninstallerPath r1 s1 = Some (Inr r2, s2)" and
    3: "js_seq (issue api (ConsoleLog (''Uninstaller finished with code: '' @
        (case result_code r2 of None \<Rightarrow> ''undefined'' | Some code \<Rightarrow> show_int code))))
     (if \<not> js_equals (js_Number_code (result_code r2)) 0 then
        js_seq (issue api (ConsoleLog ''Uninstallation aborted by user''))
        (js_seq (issue api SetCancelled) (js_return False))
      else js_seq (wait_removed api 300) (js_return True)) s2 = Some (Inr go, t)"
    by (auto simp: remove_old_installation_def js_bind_eq_Some [of "run_uninstaller _ _ _"])
  have "\<exists>es. trace s2 = trace s @ es \<and> Issued SetCancelled \<notin> set es \<and>
      (if exits es = [] then r2 = None else r2 = last (exits es))"
    using run_uninstaller_cases [OF 1] run_uninstaller_cases [OF 2] by auto
  then obtain es where es: "trace s2 = trace s @ es" "Issued SetCancelled \<notin> set es"
      "if exits es = [] then r2 = None else r2 = last (exits es)"
    by blast
  from remove_verdict [OF 3] obtain cs where cs: "trace t = trace s2 @ map Issued cs"
      "go = succeeded r2" "if go then SetCancelled \<notin> set cs else cs \<noteq> [] \<and> last cs = SetCancelled"
    by blast
  have "go = (exits es \<noteq> [] \<and> succeeded (last (exits es)))"
    using es(3) cs(2) by (auto simp: succeeded_def split: if_splits)
  with es cs show ?thesis
    by (intro exI [of _ "es @ map Issued cs"]) (auto simp: exits_issued last_map split: if_splits)
qed

text \<open>With both uninstallers present, only the code of the second one counts.\<close>

theorem x86_failure_masked:
  assumes "api_fileExists api (env s) (appInstalledUninstallerPath_x86 s)"
    and "\<And>w. api_fileExists api w (appInstalledUninstallerPath s)"
    and "\<And>w. api_result api w (appInstalledUninstallerPath s) [] = Some (out, 0)"
    and "remove_old_installation api s = Some (Inr go, t)"
  shows "go"
  using assms
  by (auto simp: remove_old_installation_def run_uninstaller_def execute_def ask_env_def issue_def
     js_bind_eq_Some js_run command_step_def note_event_def)

section \<open>Examples\<close>

text \<open>A Windows machine with the application installed and a user who agrees; the environment
  is whether the maintenance tool is there, and the time, which the clock shows in steps.\<close>

definition demo_api :: "(bool \<times> int) installer_api" where
  "demo_api = \<lparr>
     api_value = (\<lambda>w k. if k = ''Name'' then ''AmneziaVPN'' else if k = ''os'' then ''win''
                       else if k = ''RootDir'' then ''C:/'' else ''''),
     api_isInstaller = (\<lambda>w. True), api_isUninstaller = (\<lambda>w. False), api_isUpdater = (\<lambda>w. False),
     api_fileExists = (\<lambda>w p. fst w \<and> p = Some ''C:/Program Files/AmneziaVPN/maintenancetool.exe''),
     api_targetDirectoryPage = (\<lambda>w. Some ''D:/VPN''), api_currentPageChildren = (\<lambda>w. None),
     api_result = (\<lambda>w p args. Some ('''', 0)), api_answer = (\<lambda>w c. Ok),
     api_run = (\<lambda>c w. case c of Execute p args \<Rightarrow> (fst w \<and> p = Some ''tasklist'', snd w) | _ \<Rightarrow> w),
     api_clock = (\<lambda>w. 20 * (snd w div 100)), api_tick = (\<lambda>w. (fst w, snd w + 60)),
     api_prettyProductName = ''Windows'', api_currentCpuArchitecture = ''x86_64'',
     api_qsTr = (\<lambda>s. s)\<rparr>"

text \<open>A running application and a user who presses Retry as often as the environment, a
  number, says, then Abort.\<close>

definition patient_api :: "nat installer_api" where
  "patient_api = \<lparr>
     api_value = (\<lambda>w k. if k = ''Name'' then ''AmneziaVPN'' else if k = ''os'' then ''win'' else ''''),
     api_isInstaller = (\<lambda>w. True), api_isUninstaller = (\<lambda>w. False), api_isUpdater = (\<lambda>w. False),
     api_fileExists = (\<lambda>w p. False),
     api_targetDirectoryPage = (\<lambda>w. None), api_currentPageChildren = (\<lambda>w. None),
     api_result = (\<lambda>w p args. Some (''AmneziaVPN.exe'', 0)),
     api_answer = (\<lambda>w c. if 0 < w then Retry else Abort),
     api_run = (\<lambda>c w. case c of MessageBox i t x bs \<Rightarrow> w - 1 | _ \<Rightarrow> w),
     api_clock = (\<lambda>w. 0), api_tick = (\<lambda>w. w),
     api_prettyProductName = ''Windows'', api_currentCpuArchitecture = ''x86_64'',
     api_qsTr = (\<lambda>s. s)\<rparr>"

definition demo_trace_before :: "event list" where
  "demo_trace_before =
     [Issued (ConsoleLog ''OS: Windows, architecture: x86_64''),
      Issued (ConsoleLog ''Check if app already installed: true''),
      Issued (SetValue ''AllUsers'' ''true''),
      Issued (SetDefaultPageVisible ComponentSelection False),
      Issued (SetDefaultPageVisible TargetDirectory False),
      Issued (SetDefaultPageVisible StartMenuDirectoryPage False),
      Issued (SetDefaultPageVisible LicenseCheck False),
      Issued (Execute (Some ''tasklist'') []), Exited (Some ('''', 0)),
      Issued (MessageBox ''os.information'' ''AmneziaVPN''
        ''The application is already installed. We need to remove the old installation first. Do you wish to proceed?''
        [Ok, Cancel]),
      Answered Ok,
      Issued (ConsoleLog ''Starting uninstallation C:/Program Files/AmneziaVPN/maintenancetool.exe'')]"

definition demo_trace_after :: "event list" where
  "demo_trace_after =
     [Exited (Some ('''', 0)), Issued (ConsoleLog ''Uninstaller finished with code: 0'')]"

definition demo_tool :: "string option" where
  "demo_tool = Some ''C:/Program Files/AmneziaVPN/maintenancetool.exe''"

definition demo_final :: "(bool \<times> int) script" where
  "demo_final = \<lparr>requestToQuitFromApp = False, updaterCompleted = 0,
     desktopAppProcessRunning = False, appInstalledUninstallerPath = demo_tool,
     appInstalledUninstallerPath_x86 =
       Some ''C:/Program Files (x86)/AmneziaVPN/maintenancetool.exe'',
     env = (False, 660),
     trace = demo_trace_before @ Issued (Execute demo_tool []) # demo_trace_after\<rparr>"

lemma demo_run: "Controller demo_api (script_init (True, 0)) = Some (Inr (), demo_final)"
  by code_simp

section \<open>Properties\<close>

text \<open>
  C30. An uninstaller is run by the control script only after the user has answered Ok: in the
  interaction of a run of the constructor, a program without arguments other than the process
  lister \<open>tasklist\<close> comes after an answer Ok.
\<close>

theorem uninstall_needs_consent:
  assumes "Controller api s = Some (r, t)"
    and "trace t = trace s @ xs @ Issued (Execute p []) # ys"
    and "p \<noteq> Some ''tasklist''"
  shows "Answered Ok \<in> set xs"
proof -
  from js_stepsD [OF asks_first_Controller assms(1)] obtain es
    where "trace t = trace s @ es" and "consented False es"
    by (auto simp: asks_first_def)
  with assms(2) have "consented False (xs @ Issued (Execute p []) # ys)" by simp
  with assms(3) show ?thesis by (simp add: consented_append)
qed

theorem uninstall_needs_consent_witness:
  "Controller demo_api (script_init (True, 0)) = Some (Inr (), demo_final) \<and>
   Answered Ok \<in> set demo_trace_before"
proof -
  have "Answered Ok \<in> set demo_trace_before"
    by (rule uninstall_needs_consent [OF demo_run, of _ demo_tool demo_trace_after])
      (simp_all add: demo_final_def script_init_def demo_tool_def)
  with demo_run show ?thesis by simp
qed

text \<open>
  C31. When the script removes an old installation it goes on exactly if an uninstaller was run
  and the last one it ran reported success; otherwise, and only then, it cancels the
  installation.
\<close>

theorem remove_old_installation_result:
  assumes "remove_old_installation api s = Some (Inr go, t)"
  shows "\<exists>es. trace t = trace s @ es \<and>
    go = (exits es \<noteq> [] \<and> succeeded (last (exits es))) \<and>
    (if go then Issued SetCancelled \<notin> set es else last es = Issued SetCancelled)"
  using assms by (rule remove_old_installation_verdict)

definition demo_installed :: "(bool \<times> int) script" where
  "demo_installed = (script_init (True, 0))\<lparr>appInstalledUninstallerPath := demo_tool\<rparr>"

theorem remove_old_installation_result_witness:
  "\<exists>t es. remove_old_installation demo_api demo_installed = Some (Inr True, t) \<and>
     trace t = trace demo_installed @ es \<and> exits es \<noteq> [] \<and> succeeded (last (exits es))"
proof -
  have "case remove_old_installation demo_api demo_installed of
      Some (Inr b, t) \<Rightarrow> b | _ \<Rightarrow> False" by code_simp
  then obtain t where run: "remove_old_installation demo_api demo_installed = Some (Inr True, t)"
    by (auto split: option.splits sum.splits)
  from remove_old_installation_result [OF run] run show ?thesis by auto
qed

text \<open>
  C32. The loop that asks the user to close the application, entered before a request to quit,
  returns only on the evidence of its last probe of the process table: either that probe does not
  list the application (the name of its executable in a successful \<open>tasklist\<close>, a first line of at
  least 2 from \<open>pgrep\<close>) and it is the last thing that happened, or it does, the user was asked right
  after it and answered something other than Retry, and the request to quit is recorded.
\<close>

theorem messageLoop_result:
  assumes "isDesktopAppProcessRunningMessageLoop api s = Some (Inr (), t)"
    and "\<not> requestToQuitFromApp s"
  shows "\<exists>xs w.
     if requestToQuitFromApp t
     then desktopAppProcessRunning t \<and> app_listed api w \<and>
       (\<exists>a. a \<noteq> Retry \<and> trace t = trace s @ xs @
          [Issued (probe_command api w), Exited (probe_result api w),
           Issued (running_box api (api_run api (probe_command api w) w)), Answered a])
     else \<not> desktopAppProcessRunning t \<and> \<not> app_listed api w \<and>
       trace t = trace s @ xs @ [Issued (probe_command api w), Exited (probe_result api w)]"
  using messageLoop_left [OF assms] by (simp only: left_loop_def)

theorem messageLoop_result_witness:
  "\<exists>t w. isDesktopAppProcessRunningMessageLoop patient_api (script_init 2) = Some (Inr (), t) \<and>
     requestToQuitFromApp t \<and> app_listed patient_api w"
proof -
  have "case isDesktopAppProcessRunningMessageLoop patient_api (script_init 2) of
      Some (Inr _, t) \<Rightarrow> requestToQuitFromApp t | _ \<Rightarrow> False" by code_simp
  then obtain t where run: "isDesktopAppProcessRunningMessageLoop patient_api (script_init 2) =
      Some (Inr (), t)" and "requestToQuitFromApp t"
    by (rule js_returned) auto
  with messageLoop_result [OF run] show ?thesis by (auto simp: script_init_def)
qed

text \<open>
  C33. That loop comes to an end for every user who presses Retry only finitely often: if some
  measure of the environment is raised by no command and lowered by every Retry, the function
  returns or throws.
\<close>

theorem messageLoop_terminates:
  fixes f :: "'w \<Rightarrow> nat"
  assumes "\<And>c w. f (api_run api c w) \<le> f w"
    and "\<And>w. api_answer api w (running_box api w) = Retry \<Longrightarrow>
       f (api_run api (running_box api w) w) < f w"
  shows "\<exists>r t. isDesktopAppProcessRunningMessageLoop api s = Some (r, t)"
  by (rule messageLoop_returns [where f = f and api = api, OF assms])

theorem messageLoop_terminates_witness:
  "\<exists>r t. isDesktopAppProcessRunningMessageLoop patient_api (script_init 7) = Some (r, t)"
proof -
  have 1: "api_run patient_api c w \<le> w" for c w
    by (simp add: patient_api_def split: command.splits)
  have 2: "api_answer patient_api w (running_box patient_api w) = Retry \<Longrightarrow>
      api_run patient_api (running_box patient_api w) w < w" for w
    by (simp add: patient_api_def running_box_def split: if_splits)
  show ?thesis
    by (rule messageLoop_terminates [where f = "\<lambda>w. w" and api = patient_api, OF 1 2])
qed

text \<open>
  C34. The busy wait \<open>sleep\<close> ends if the clock passes every time sooner or later; successive
  readings may be equal, or the clock set back. It ends right after its first reading that is more
  than the given number of milliseconds past the time it started at, and changes nothing of the
  script's state.
\<close>

theorem sleep_total:
  assumes "\<And>w T. \<exists>n. T < api_clock api ((api_tick api ^^ n) w)"
  shows "\<exists>n > 0. sleep api ms s = Some (Inr (), s\<lparr>env := (api_tick api ^^ Suc n) (env s)\<rparr>) \<and>
    api_clock api (env s) + ms < api_clock api ((api_tick api ^^ n) (env s)) \<and>
    (\<forall>k. 0 < k \<longrightarrow> k < n \<longrightarrow>
       api_clock api ((api_tick api ^^ k) (env s)) \<le> api_clock api (env s) + ms)"
  by (rule sleep_returns [of api, OF assms])

lemma demo_tick: "(api_tick demo_api ^^ n) w = (fst w, snd w + 60 * int n)"
  by (induction n) (auto simp: demo_api_def)

lemma demo_clock_unbounded: "\<exists>n. T < api_clock demo_api ((api_tick demo_api ^^ n) w)"
proof -
  define n where "n = nat (2 * \<bar>T\<bar> + \<bar>snd w\<bar> + 100)"
  have "T * 100 + 100 \<le> snd w + 60 * int n" by (simp add: n_def)
  then have "(T * 100 + 100) div 100 \<le> (snd w + 60 * int n) div 100" by (rule zdiv_mono1) simp
  then have "T < api_clock demo_api ((api_tick demo_api ^^ n) w)"
    using n_def by (simp add: demo_tick) (simp add: demo_api_def)
  then show ?thesis ..
qed

theorem sleep_total_witness:
  "\<exists>n. sleep demo_api 100 (script_init (True, 0)) =
       Some (Inr (), (script_init (True, 0))\<lparr>env := (True, 60 * int (Suc n))\<rparr>) \<and>
     100 < api_clock demo_api (True, 60 * int n)"
  using sleep_total [of demo_api 100 "script_init (True, 0)", OF demo_clock_unbounded]
  by (auto simp: script_init_def demo_tick simp del: funpow.simps)
    (auto simp: demo_api_def)

text \<open>
  C35. If moreover the clock is not set back, then the wait for the old maintenance tool to
  disappear ends, and if the file is still there at the end, then at least 100 milliseconds have
  passed for each of its rounds.
\<close>

theorem wait_removed_bound:
  assumes "\<And>w T. \<exists>n. T < api_clock api ((api_tick api ^^ n) w)"
    and "\<And>w. api_clock api w \<le> api_clock api (api_tick api w)"
  shows "\<exists>w. wait_removed api n s = Some (Inr (), s\<lparr>env := w\<rparr>) \<and>
     (api_fileExists api w (appInstalledUninstallerPath s)
        \<longrightarrow> api_clock api (env s) + 100 * int n \<le> api_clock api w)"
  by (rule wait_removed_returns [of api, OF assms])

theorem wait_removed_bound_witness:
  "\<exists>w. wait_removed demo_api 300 demo_installed = Some (Inr (), demo_installed\<lparr>env := w\<rparr>) \<and>
     (api_fileExists demo_api w (appInstalledUninstallerPath demo_installed)
        \<longrightarrow> 30000 \<le> api_clock demo_api w)"
proof -
  have "api_clock demo_api w \<le> api_clock demo_api (api_tick demo_api w)" for w
    by (simp add: demo_api_def zdiv_mono1)
  from wait_removed_bound [of demo_api 300 demo_installed, OF demo_clock_unbounded this]
  show ?thesis
    by (auto simp: demo_installed_def script_init_def demo_api_def)
qed

text \<open>
  C36. The constructor of the control script throws in one case only: off Windows, as the last
  thing that happens, the shell that should run \<open>pgrep\<close> could not be started. What it throws then is
  the type error of calling \<open>trim\<close> on the missing output. On Windows it never throws.
\<close>

theorem Controller_throws_only_without_shell:
  assumes "Controller api (script_init w0) = Some (Inl e, t)"
  shows "e = TypeError \<and> (\<exists>xs w. \<not> runningOnWindows api w \<and>
     trace t = xs @
       [Issued (Execute (Some ''/bin/bash'')
          [''-c'', ''pgrep -x '' @ [CHR 0x27] @ appName api w @ [CHR 0x27]]), Exited None])"
proof -
  have "no_shell api e t" using throws_Controller assms by (auto simp: js_throws_def)
  then show ?thesis
    by (auto simp: no_shell_def probe_command_def probe_program_def probe_args_def)
qed

text \<open>A Linux machine on which no program can be started.\<close>

definition shellless_api :: "unit installer_api" where
  "shellless_api = \<lparr>
     api_value = (\<lambda>w k. if k = ''Name'' then ''AmneziaVPN'' else if k = ''os'' then ''linux'' else ''''),
     api_isInstaller = (\<lambda>w. True), api_isUninstaller = (\<lambda>w. False), api_isUpdater = (\<lambda>w. False),
     api_fileExists = (\<lambda>w p. False),
     api_targetDirectoryPage = (\<lambda>w. None), api_currentPageChildren = (\<lambda>w. None),
     api_result = (\<lambda>w p args. None), api_answer = (\<lambda>w c. Ok), api_run = (\<lambda>c w. w),
     api_clock = (\<lambda>w. 0), api_tick = (\<lambda>w. w),
     api_prettyProductName = ''Linux'', api_currentCpuArchitecture = ''x86_64'',
     api_qsTr = (\<lambda>s. s)\<rparr>"

theorem Controller_throws_only_without_shell_witness:
  "\<exists>t xs. Controller shellless_api (script_init ()) = Some (Inl TypeError, t) \<and>
     trace t = xs @ [Issued (Execute (Some ''/bin/bash'')
          [''-c'', ''pgrep -x '' @ [CHR 0x27] @ ''AmneziaVPN'' @ [CHR 0x27]]), Exited None]"
proof -
  have "case Controller shellless_api (script_init ()) of
      Some (Inl e, t) \<Rightarrow> True | _ \<Rightarrow> False" by code_simp
  then obtain e t where run: "Controller shellless_api (script_init ()) = Some (Inl e, t)"
    by (auto split: option.splits sum.splits)
  have "appName shellless_api w = ''AmneziaVPN''" for w
    by (simp add: appName_def shellless_api_def)
  with Controller_throws_only_without_shell [OF run] run show ?thesis by auto
qed

text \<open>
  C37. On Windows, choosing a directory stores as target directory the chosen path, extended by
  the application's name where it does not end with it: the stored path always ends with the
  application's name, and a path that already does is stored unchanged.
\<close>

theorem onBrowseButtonClicked_target:
  assumes "\<And>w. runningOnWindows api w"
    and "api_targetDirectoryPage api (env s) = Some text"
  shows "\<exists>dir t. onBrowseButtonClicked api s = Some (Inr (), t) \<and>
     suffix (appName api (env s)) dir \<and> prefix text dir \<and>
     (endsWith text (appName api (env s)) \<longrightarrow> dir = text) \<and>
     (\<exists>shown. trace t = trace s @
        [Issued (SetValue ''TargetDir'' dir), Issued (SetTargetDirectoryText shown)])"
  by (rule onBrowseButtonClicked_run [of api, OF assms])

theorem onBrowseButtonClicked_target_witness:
  "\<exists>dir t. onBrowseButtonClicked demo_api (script_init (True, 0)) = Some (Inr (), t) \<and>
     suffix ''AmneziaVPN'' dir \<and> prefix ''D:/VPN'' dir"
proof -
  have win: "runningOnWindows demo_api w" for w
    by (simp add: runningOnWindows_def demo_api_def)
  have page: "api_targetDirectoryPage demo_api (env (script_init (True, 0))) = Some ''D:/VPN''"
    by (simp add: demo_api_def)
  from onBrowseButtonClicked_target [of demo_api, OF win page] show ?thesis
    by (auto simp: appName_def demo_api_def)
qed

text \<open>
  C38. The script's \<open>endsWith\<close>, an \<open>indexOf\<close> from the position where the suffix would start,
  decides whether a string ends with another, for all strings, also where the suffix is longer
  than the string and the position is negative.
\<close>

theorem endsWith_iff_suffix: "endsWith str suff \<longleftrightarrow> suffix suff str"
  by (rule endsWith_suffix)

end
