(* ===== verification/ComponentScript.thy ===== *)
theory ComponentScript
  imports JS_Runtime
begin

text \<open>
  The component script of the installer,
  \<open>src/deploy/installer/packages/org.amneziavpn.package/meta/componentscript.js\<close>: the
  operations an installation consists of, and what happens when the user leaves the last page.
  The objects of the installer framework are the parameter \<open>component_api\<close>, as in the theory
  of the control script; \<open>ctrace\<close> is the interaction with them, oldest first.
\<close>

section \<open>The environment\<close>

text \<open>An argument of \<open>addOperation\<close> is a string or an array of strings.\<close>

datatype op_arg = Str string | Arr "string list"

datatype component_event =
    DefaultOperations
  | AddOperation string "op_arg list"
  | AddElevatedOperation string "op_arg list"
  | ClickFinishButton
  | AdminRightsRequested bool
  | AdminRightsDropped
  | Executed string "string list"
  | ExecutedDetached string "string list" string
  | Connected string string
  | Logged string
  | LoggedStatus string "(string \<times> int) option"

record 'w component_api =
  ca_value :: "'w \<Rightarrow> string \<Rightarrow> string"
  ca_kernelType :: string
  ca_currentCpuArchitecture :: string
  ca_findPath :: "'w \<Rightarrow> string \<Rightarrow> string list \<Rightarrow> string"
  ca_desktopLocation :: "'w \<Rightarrow> string"
  ca_isInstaller :: "'w \<Rightarrow> bool"
  ca_isUpdater :: "'w \<Rightarrow> bool"
  ca_success :: "'w \<Rightarrow> bool"
  ca_gainAdminRights :: "'w \<Rightarrow> bool"
  ca_result :: "'w \<Rightarrow> string \<Rightarrow> string list \<Rightarrow> (string \<times> int) option"
  ca_detached :: "'w \<Rightarrow> string \<Rightarrow> string list \<Rightarrow> string \<Rightarrow> bool"
  ca_run :: "component_event \<Rightarrow> 'w \<Rightarrow> 'w"

record 'w component =
  cenv :: 'w
  processStatus :: "bool option"
  ctrace :: "component_event list"

definition component_init :: "'w \<Rightarrow> 'w component" where
  "component_init w = \<lparr>cenv = w, processStatus = None, ctrace = []\<rparr>"

definition emit :: "'w component_api \<Rightarrow> component_event \<Rightarrow> ('w component, unit) js" where
  "emit api e = js_modify (\<lambda>s. s\<lparr>cenv := ca_run api e (cenv s), ctrace := ctrace s @ [e]\<rparr>)"

definition from_env :: "('w \<Rightarrow> 'a) \<Rightarrow> ('w component, 'a) js" where
  "from_env f = js_get (\<lambda>s. f (cenv s))"

section \<open>Helper functions\<close>

definition component_appName :: "'w component_api \<Rightarrow> 'w \<Rightarrow> string" where
  "component_appName api w = ca_value api w ''Name''"

definition serviceName :: "'w component_api \<Rightarrow> 'w \<Rightarrow> string" where
  "serviceName api w = component_appName api w @ ''-service''"

definition component_runningOnWindows :: "'w component_api \<Rightarrow> bool" where
  "component_runningOnWindows api \<longleftrightarrow> ca_kernelType api = ''winnt''"

definition component_runningOnMacOS :: "'w component_api \<Rightarrow> bool" where
  "component_runningOnMacOS api \<longleftrightarrow> ca_kernelType api = ''darwin''"

definition component_runningOnLinux :: "'w component_api \<Rightarrow> bool" where
  "component_runningOnLinux api \<longleftrightarrow> ca_kernelType api = ''linux''"

definition component_appExecutableFileName :: "'w component_api \<Rightarrow> 'w \<Rightarrow> string" where
  "component_appExecutableFileName api w =
     (if component_runningOnWindows api then component_appName api w @ ''.exe''
      else component_appName api w)"

abbreviation backslash :: char where
  "backslash \<equiv> CHR 0x5C"

definition vcRuntimeIsInstalled :: "'w component_api \<Rightarrow> 'w \<Rightarrow> bool" where
  "vcRuntimeIsInstalled api w \<longleftrightarrow>
     length (ca_findPath api w ''msvcp140.dll''
       [ca_value api w ''RootDir'' @ [backslash] @ ''Windows'' @ [backslash] @ ''System32'' @ [backslash]]) \<noteq> 0"

section \<open>Callbacks\<close>

definition Component :: "'w component_api \<Rightarrow> ('w component, unit) js" where
  "Component api =
     js_seq (emit api (Connected ''loaded'' ''componentLoaded''))
     (js_seq (emit api (Connected ''installationFinished'' ''installationFinishedPageIsShown''))
             (emit api (Connected ''finishButtonClicked'' ''installationFinished'')))"

definition componentLoaded :: "'w component_api \<Rightarrow> ('w component, unit) js" where
  "componentLoaded api = js_return ()"

definition installationFinishedPageIsShown :: "'w component_api \<Rightarrow> ('w component, unit) js" where
  "installationFinishedPageIsShown api =
     js_bind (from_env (\<lambda>w. ca_isInstaller api w \<and> ca_success api w)) (\<lambda>b.
     if b then emit api ClickFinishButton else js_return ())"

definition shortcut_args :: "'w component_api \<Rightarrow> 'w \<Rightarrow> string \<Rightarrow> op_arg list" where
  "shortcut_args api w location =
     [Str (''@TargetDir@/'' @ component_appExecutableFileName api w),
      Str (location @ ''/'' @ component_appName api w @ ''.lnk''),
      Str ''workingDirectory=@TargetDir@'',
      Str (''iconPath=@TargetDir@'' @ [backslash] @ component_appExecutableFileName api w),
      Str ''iconId=0'']"

definition vc_redist_args :: "string \<Rightarrow> op_arg list" where
  "vc_redist_args exe =
     [Str (''@TargetDir@'' @ [backslash] @ exe), Str ''/install'', Str ''/quiet'', Str ''/norestart'',
      Str ''/log'', Str ''vc_redist.log'']"

definition service_args :: "string \<Rightarrow> string \<Rightarrow> op_arg list" where
  "service_args pu_path service =
     [Arr [''sc'', ''create'', service, ''binpath='', pu_path @ service @ ''.exe'',
           ''start='', ''auto'', ''depend='', ''BFE/nsi''],
      Str ''UNDOEXECUTE'', Str ''cmd'', Str ''/c'', Str (pu_path @ ''post_uninstall.cmd'')]"

definition createOperations :: "'w component_api \<Rightarrow> ('w component, unit) js" where
  "createOperations api =
     js_seq (emit api DefaultOperations)
     (if component_runningOnWindows api then
        js_bind (from_env (\<lambda>w. shortcut_args api w (ca_desktopLocation api w))) (\<lambda>args.
        js_seq (emit api (AddOperation ''CreateShortcut'' args))
        (js_bind (from_env (\<lambda>w. shortcut_args api w (ca_value api w ''AllUsersStartMenuProgramsPath''))) (\<lambda>args.
        js_seq (emit api (AddElevatedOperation ''CreateShortcut'' args))
        (js_bind (from_env (vcRuntimeIsInstalled api)) (\<lambda>vc.
        js_seq
          (if \<not> vc then
             (if js_indexOf (ca_currentCpuArchitecture api) ''64'' 0 < 0
              then emit api (AddElevatedOperation ''Execute'' (vc_redist_args ''vc_redist.x86.exe''))
              else emit api (AddElevatedOperation ''Execute'' (vc_redist_args ''vc_redist.x64.exe'')))
           else emit api (Logged ''Microsoft Visual C++ 2017 Redistributable already installed''))
        (js_bind (from_env (\<lambda>w. js_replace_char (CHR ''/'') backslash (ca_value api w ''TargetDir'') @ [backslash])) (\<lambda>pu_path.
        js_bind (from_env (serviceName api)) (\<lambda>service.
        js_seq (emit api (AddElevatedOperation ''Execute'' (service_args pu_path service)))
               (emit api (AddElevatedOperation ''Execute''
                  [Str ''cmd'', Str ''/c'', Str (pu_path @ ''post_install.cmd'')]))))))))))
      else if component_runningOnMacOS api then
        emit api (AddElevatedOperation ''Execute''
          [Str ''@TargetDir@/post_install.sh'', Str ''UNDOEXECUTE'', Str ''@TargetDir@/post_uninstall.sh''])
      else if component_runningOnLinux api then
        emit api (AddElevatedOperation ''Execute''
          [Str ''bash'', Str ''@TargetDir@/post_install.sh'', Str ''UNDOEXECUTE'',
           Str ''bash'', Str ''@TargetDir@/post_uninstall.sh''])
      else js_return ())"

definition execute_program :: "'w component_api \<Rightarrow> string \<Rightarrow> string list \<Rightarrow>
    ('w component, (string \<times> int) option) js" where
  "execute_program api prog args =
     js_bind (from_env (\<lambda>w. ca_result api w prog args)) (\<lambda>r.
     js_seq (emit api (Executed prog args)) (js_return r))"

definition start_service :: "'w component_api \<Rightarrow> ('w component, unit) js" where
  "start_service api =
     js_bind (from_env (serviceName api)) (\<lambda>service.
     js_bind (execute_program api ''net'' [''start'', service]) (\<lambda>status1.
     js_seq (emit api (LoggedStatus (service @ '' started with status: '') status1))
     (js_bind (execute_program api ''sc'' [''failure'', service, ''reset='', ''100'', ''actions='',
         ''restart/2000/restart/2000/restart/2000'']) (\<lambda>status2.
      emit api (LoggedStatus (''Changed settings for '' @ service @ '' with status: '') status2)))))"

definition installationFinished :: "'w component_api \<Rightarrow> ('w component, unit) js" where
  "installationFinished api =
     js_bind (from_env (\<lambda>w. ca_success api w \<and> (ca_isInstaller api w \<or> ca_isUpdater api w))) (\<lambda>finished.
     if \<not> finished then js_return ()
     else
       js_bind (from_env (ca_gainAdminRights api)) (\<lambda>gained.
       js_seq (emit api (AdminRightsRequested gained))
       (if \<not> gained then emit api (Logged ''Fatal error! Cannot get admin rights!'')
        else
          js_bind
            (if component_runningOnWindows api then
               js_bind (from_env (\<lambda>w. ''@TargetDir@/'' @ component_appExecutableFileName api w)) (\<lambda>command.
               js_seq (start_service api) (js_return command))
             else if component_runningOnMacOS api then
               from_env (\<lambda>w. ''/Applications/'' @ component_appName api w @ ''.app/Contents/MacOS/'' @
                  component_appName api w)
             else if component_runningOnLinux api then
               from_env (\<lambda>w. ''@TargetDir@/client/'' @ component_appName api w)
             else js_return '''') (\<lambda>command.
          js_seq (emit api AdminRightsDropped)
          (js_bind (from_env (\<lambda>w. ca_value api w ''TargetDir'')) (\<lambda>dir.
           js_bind (from_env (\<lambda>w. ca_detached api w command [] dir)) (\<lambda>status.
           js_seq (emit api (ExecutedDetached command [] dir))
                  (js_modify (\<lambda>s. s\<lparr>processStatus := Some status\<rparr>)))))))))"

section \<open>Lemmas\<close>

lemma emit_run [script_simps]:
  "emit api e s = Some (Inr (), s\<lparr>cenv := ca_run api e (cenv s), ctrace := ctrace s @ [e]\<rparr>)"
  by (simp add: emit_def js_run)

lemma emit_if: "(if b then emit api x else emit api y) = emit api (if b then x else y)"
  by simp

lemma from_env_run [script_simps]: "from_env f s = Some (Inr (f (cenv s)), s)"
  by (simp add: from_env_def js_run)

text \<open>
  The rights of the installer process along a trace: \<open>rights_ok b es\<close> says that with the
  elevated rights \<open>b\<close> at the start, services are configured only with elevated rights and no
  detached program is started with them; \<open>rights_after\<close> is whether they are held at the end.
\<close>

fun rights_after :: "bool \<Rightarrow> component_event list \<Rightarrow> bool" where
  "rights_after b [] = b"
| "rights_after b (AdminRightsRequested g # es) = rights_after (b \<or> g) es"
| "rights_after b (AdminRightsDropped # es) = rights_after False es"
| "rights_after b (_ # es) = rights_after b es"

fun rights_ok :: "bool \<Rightarrow> component_event list \<Rightarrow> bool" where
  "rights_ok b [] = True"
| "rights_ok b (AdminRightsRequested g # es) = rights_ok (b \<or> g) es"
| "rights_ok b (AdminRightsDropped # es) = rights_ok False es"
| "rights_ok b (Executed p args # es) = (b \<and> rights_ok b es)"
| "rights_ok b (ExecutedDetached p args d # es) = (\<not> b \<and> rights_ok b es)"
| "rights_ok b (_ # es) = rights_ok b es"

definition is_detached :: "component_event \<Rightarrow> bool" where
  "is_detached e \<longleftrightarrow> (case e of ExecutedDetached _ _ _ \<Rightarrow> True | _ \<Rightarrow> False)"

text \<open>An \<open>Execute\<close> operation is a command and, after \<open>UNDOEXECUTE\<close>, the command that undoes it.\<close>

definition forward :: "op_arg list \<Rightarrow> op_arg list" where
  "forward args = takeWhile (\<lambda>a. a \<noteq> Str ''UNDOEXECUTE'') args"

definition undo_of :: "op_arg list \<Rightarrow> op_arg list" where
  "undo_of args = drop 1 (dropWhile (\<lambda>a. a \<noteq> Str ''UNDOEXECUTE'') args)"

definition ends_in :: "op_arg list \<Rightarrow> string \<Rightarrow> bool" where
  "ends_in args x \<longleftrightarrow> args \<noteq> [] \<and> last args = Str x"

definition vc_redist_event :: "string \<Rightarrow> component_event" where
  "vc_redist_event exe = AddElevatedOperation ''Execute'' (vc_redist_args exe)"

section \<open>Properties\<close>

text \<open>
  C39. Leaving the last page respects the rights of the process: the service is started and
  configured only while administrator rights are held, they are given up before the client is
  started, and none are held at the end. The callback always returns, and it starts the client
  exactly if an installation or update succeeded and the rights were granted.
\<close>

theorem installationFinished_rights:
  "\<exists>t es. installationFinished api s = Some (Inr (), t) \<and> ctrace t = ctrace s @ es \<and>
     rights_ok False es \<and> \<not> rights_after False es \<and>
     length (filter is_detached es) =
       (if ca_success api (cenv s) \<and> (ca_isInstaller api (cenv s) \<or> ca_isUpdater api (cenv s)) \<and>
           ca_gainAdminRights api (cenv s) then 1 else 0)"
  by (simp add: installationFinished_def start_service_def execute_program_def script_simps
      is_detached_def)

text \<open>
  C40. On every supported platform the operations of an installation run \<open>post_install\<close> from some
  directory with administrator rights, and register \<open>post_uninstall\<close> from the same directory,
  also with administrator rights, as the command that undoes the installation.
\<close>

theorem createOperations_undo:
  assumes "component_runningOnWindows api \<or> component_runningOnMacOS api \<or> component_runningOnLinux api"
  shows "\<exists>t es dir ext. createOperations api s = Some (Inr (), t) \<and> ctrace t = ctrace s @ es \<and>
    (\<exists>args. AddElevatedOperation ''Execute'' args \<in> set es \<and>
       ends_in (forward args) (dir @ ''post_install'' @ ext)) \<and>
    (\<exists>args. AddElevatedOperation ''Execute'' args \<in> set es \<and>
       ends_in (undo_of args) (dir @ ''post_uninstall'' @ ext))"
proof -
  consider (win) "component_runningOnWindows api"
    | (mac) "\<not> component_runningOnWindows api" "component_runningOnMacOS api"
    | (lin) "\<not> component_runningOnWindows api" "\<not> component_runningOnMacOS api"
        "component_runningOnLinux api"
    using assms by blast
  then show ?thesis
  proof cases
    case win
    obtain t p service es where run: "createOperations api s = Some (Inr (), t)"
      "ctrace t = ctrace s @ es @ [AddElevatedOperation ''Execute'' (service_args p service),
         AddElevatedOperation ''Execute'' [Str ''cmd'', Str ''/c'', Str (p @ ''post_install.cmd'')]]"
      using win unfolding createOperations_def emit_if by (auto simp: script_simps)
    show ?thesis
      by (rule exI [of _ t], rule exI, rule exI [of _ p], rule exI [of _ "''.cmd''"])
        (use run in \<open>auto simp: forward_def undo_of_def ends_in_def service_args_def\<close>)
  next
    case mac
    then show ?thesis
      by (intro exI [of _ "''@TargetDir@/''"] exI [of _ "''.sh''"] exI)
        (auto simp: createOperations_def script_simps forward_def undo_of_def ends_in_def)
  next
    case lin
    then show ?thesis
      by (intro exI [of _ "''@TargetDir@/''"] exI [of _ "''.sh''"] exI)
        (auto simp: createOperations_def script_simps forward_def undo_of_def ends_in_def)
  qed
qed

definition demo_component_api :: "unit component_api" where
  "demo_component_api = \<lparr>
     ca_value = (\<lambda>w k. if k = ''Name'' then ''AmneziaVPN'' else ''C:/Program Files/AmneziaVPN''),
     ca_kernelType = ''winnt'', ca_currentCpuArchitecture = ''x86_64'',
     ca_findPath = (\<lambda>w f ds. ''''), ca_desktopLocation = (\<lambda>w. ''C:/Desktop''),
     ca_isInstaller = (\<lambda>w. True), ca_isUpdater = (\<lambda>w. False), ca_success = (\<lambda>w. True),
     ca_gainAdminRights = (\<lambda>w. True), ca_result = (\<lambda>w p args. Some ('''', 0)),
     ca_detached = (\<lambda>w p args d. True), ca_run = (\<lambda>e w. w)\<rparr>"

theorem createOperations_undo_witness:
  "component_runningOnWindows demo_component_api \<and>
   (\<exists>t es dir ext. createOperations demo_component_api (component_init ()) = Some (Inr (), t) \<and>
    ctrace t = es \<and>
    (\<exists>args. AddElevatedOperation ''Execute'' args \<in> set es \<and>
       ends_in (undo_of args) (dir @ ''post_uninstall'' @ ext)))"
proof -
  have win: "component_runningOnWindows demo_component_api"
    by (simp add: component_runningOnWindows_def demo_component_api_def)
  then show ?thesis
    using createOperations_undo [of demo_component_api "component_init ()"]
    by (fastforce simp: component_init_def)
qed

end
