(* ===== verification/Json.thy ===== *)
theory Json
  imports Prelude Complex_Main "HOL-Library.AList"
begin

text \<open>
  What the client uses of Qt's value types. A \<open>QString\<close> is a text or null: \<open>isNull\<close> tells null from
  the empty text, \<open>==\<close> does not. A \<open>QJsonValue\<close> is a tree; its numbers are doubles, which are
  rational. Looking up a missing key gives the undefined value, and converting a value of another
  type gives the default of the conversion.
\<close>

section \<open>Strings\<close>

type_synonym qstring = "string option"

definition qs_text :: "qstring \<Rightarrow> string" where
  "qs_text q = (case q of None \<Rightarrow> [] | Some s \<Rightarrow> s)"

definition qs_eq :: "qstring \<Rightarrow> qstring \<Rightarrow> bool" where
  "qs_eq a b \<longleftrightarrow> qs_text a = qs_text b"

lemma qs_text_simps [simp]: "qs_text None = []" "qs_text (Some s) = s"
  by (simp_all add: qs_text_def)

lemma qs_eq_refl [simp]: "qs_eq a a"
  by (simp add: qs_eq_def)

text \<open>\<open>QString::toInt\<close> in base ten: 0 unless the trimmed text is a number in the range of an \<open>int\<close>.\<close>

definition is_space :: "char \<Rightarrow> bool" where
  "is_space c \<longleftrightarrow> c \<in> set [CHR '' '', CHR 0x09, CHR 0x0A, CHR 0x0B, CHR 0x0C, CHR 0x0D]"

definition trimmed :: "string \<Rightarrow> string" where
  "trimmed s = rev (dropWhile is_space (rev (dropWhile is_space s)))"

definition int_range :: "int \<Rightarrow> bool" where
  "int_range i \<longleftrightarrow> - 2147483648 \<le> i \<and> i \<le> 2147483647"

definition parse_int :: "string \<Rightarrow> int option" where
  "parse_int s =
    (let t = trimmed s;
         (neg, ds) = (case t of [] \<Rightarrow> (False, [])
            | c # r \<Rightarrow> if c = CHR ''-'' then (True, r) else if c = CHR ''+'' then (False, r) else (False, t))
     in if ds \<noteq> [] \<and> list_all is_digit ds then
          (let i = (if neg then - int (dec_val ds) else int (dec_val ds))
           in if int_range i then Some i else None)
        else None)"

definition toInt :: "string \<Rightarrow> int" where
  "toInt s = (case parse_int s of None \<Rightarrow> 0 | Some i \<Rightarrow> i)"

text \<open>\<open>QString::split\<close> at a character.\<close>

fun qsplit :: "char \<Rightarrow> string \<Rightarrow> string list" where
  "qsplit c [] = [[]]"
| "qsplit c (x # xs) =
    (if x = c then [] # qsplit c xs
     else case qsplit c xs of [] \<Rightarrow> [[x]] | p # ps \<Rightarrow> (x # p) # ps)"

text \<open>\<open>QString::toLower\<close> on ASCII text.\<close>

definition lower_char :: "char \<Rightarrow> char" where
  "lower_char c = (if 65 \<le> (of_char c :: nat) \<and> (of_char c :: nat) \<le> 90
    then char_of ((of_char c :: nat) + 32) else c)"

definition toLower :: "string \<Rightarrow> string" where
  "toLower s = map lower_char s"

section \<open>JSON values\<close>

datatype json =
    JUndefined
  | JNull
  | JBool bool
  | JDouble rat
  | JString string
  | JArray "json list"
  | JObject "(string \<times> json) list"

type_synonym json_object = "(string \<times> json) list"

definition json_value :: "json_object \<Rightarrow> string \<Rightarrow> json" where
  "json_value obj key = (case map_of obj key of None \<Rightarrow> JUndefined | Some v \<Rightarrow> v)"

definition json_contains :: "json_object \<Rightarrow> string \<Rightarrow> bool" where
  "json_contains obj key \<longleftrightarrow> map_of obj key \<noteq> None"

definition json_insert :: "string \<Rightarrow> json \<Rightarrow> json_object \<Rightarrow> json_object" where
  "json_insert key v obj = AList.update key v obj"

definition json_remove :: "string \<Rightarrow> json_object \<Rightarrow> json_object" where
  "json_remove key obj = AList.delete key obj"

text \<open>Inserting the undefined value removes the key.\<close>

definition json_put :: "string \<Rightarrow> json \<Rightarrow> json_object \<Rightarrow> json_object" where
  "json_put key v obj = (if v = JUndefined then json_remove key obj else json_insert key v obj)"

definition json_toString :: "json \<Rightarrow> qstring" where
  "json_toString v = (case v of JString s \<Rightarrow> Some s | _ \<Rightarrow> None)"

definition json_toObject :: "json \<Rightarrow> json_object" where
  "json_toObject v = (case v of JObject obj \<Rightarrow> obj | _ \<Rightarrow> [])"

definition json_toArray :: "json \<Rightarrow> json list" where
  "json_toArray v = (case v of JArray a \<Rightarrow> a | _ \<Rightarrow> [])"

definition json_toBool :: "json \<Rightarrow> bool" where
  "json_toBool v = (case v of JBool b \<Rightarrow> b | _ \<Rightarrow> False)"

text \<open>\<open>QJsonValue::toInt\<close>: the default 0 unless the number is integral and fits.\<close>

definition json_toInt :: "json \<Rightarrow> int" where
  "json_toInt v = (case v of JDouble r \<Rightarrow>
     if of_int \<lfloor>r\<rfloor> = r \<and> int_range \<lfloor>r\<rfloor> then \<lfloor>r\<rfloor> else 0 | _ \<Rightarrow> 0)"

text \<open>Converting a \<open>double\<close> to an \<open>int\<close> drops the fraction.\<close>

definition truncate_rat :: "rat \<Rightarrow> int" where
  "truncate_rat r = (if 0 \<le> r then \<lfloor>r\<rfloor> else \<lceil>r\<rceil>)"

definition is_JString :: "json \<Rightarrow> bool" where
  "is_JString v = (case v of JString _ \<Rightarrow> True | _ \<Rightarrow> False)"

definition is_JDouble :: "json \<Rightarrow> bool" where
  "is_JDouble v = (case v of JDouble _ \<Rightarrow> True | _ \<Rightarrow> False)"

definition is_JBool :: "json \<Rightarrow> bool" where
  "is_JBool v = (case v of JBool _ \<Rightarrow> True | _ \<Rightarrow> False)"

lemmas json_type_defs = is_JString_def is_JDouble_def is_JBool_def

lemma json_value_insert [simp]:
  "json_value (json_insert key v obj) key' = (if key' = key then v else json_value obj key')"
  by (simp add: json_value_def json_insert_def update_conv')

lemma json_contains_insert [simp]:
  "json_contains (json_insert key v obj) key' \<longleftrightarrow> key' = key \<or> json_contains obj key'"
  by (simp add: json_contains_def json_insert_def update_conv')

lemma json_value_remove [simp]:
  "json_value (json_remove key obj) key' = (if key' = key then JUndefined else json_value obj key')"
  by (simp add: json_value_def json_remove_def delete_conv')

lemma json_contains_remove [simp]:
  "json_contains (json_remove key obj) key' \<longleftrightarrow> key' \<noteq> key \<and> json_contains obj key'"
  by (simp add: json_contains_def json_remove_def delete_conv')

lemma json_value_put [simp]:
  "json_value (json_put key v obj) key' = (if key' = key then v else json_value obj key')"
  by (simp add: json_put_def)

lemma json_contains_put [simp]:
  "json_contains (json_put key v obj) key' \<longleftrightarrow>
     (if key' = key then v \<noteq> JUndefined else json_contains obj key')"
  by (simp add: json_put_def)

lemma json_empty [simp]: "json_value [] key = JUndefined" "\<not> json_contains [] key"
  by (simp_all add: json_value_def json_contains_def)

lemma json_conversions [simp]:
  "json_toString (JString s) = Some s" "json_toString JUndefined = None" "json_toString JNull = None"
  "json_toString (JDouble r) = None" "json_toString (JBool b) = None"
  "json_toString (JArray a) = None" "json_toString (JObject obj) = None"
  "json_toObject (JObject obj) = obj" "json_toObject JUndefined = []"
  "json_toArray (JArray a) = a" "json_toArray JUndefined = []"
  "json_toBool (JBool b) = b" "json_toBool JUndefined = False"
  by (simp_all add: json_toString_def json_toObject_def json_toArray_def json_toBool_def)

lemma json_toInt_int [simp]: "int_range i \<Longrightarrow> json_toInt (JDouble (of_int i)) = i"
  by (simp add: json_toInt_def)

lemma truncate_rat_int [simp]: "truncate_rat (of_int i) = i"
  by (simp add: truncate_rat_def)

lemma json_toInt_range: "int_range (json_toInt v)"
  by (cases v) (simp_all add: json_toInt_def int_range_def)

lemma toInt_range: "int_range (toInt s)"
proof (cases "parse_int s")
  case (Some i)
  then have "int_range i"
    by (auto simp: parse_int_def Let_def split: prod.splits if_splits)
  with Some show ?thesis
    by (simp add: toInt_def)
qed (simp add: toInt_def int_range_def)

end
