(* ===== verification/AddressBits.thy ===== *)
theory AddressBits
  imports Prelude "HOL-Library.Word"
begin

unbundle bit_operations_syntax

text \<open>
  Addresses as bit strings. An address of a fixed width is read as the list of its bits, most
  significant first. A block, the addresses that share a prefix, is then a set of bit strings
  (\<open>cyl\<close>), and its algebra (halves, overlap, inclusion) is a matter of lists. The second half of
  the theory gives the bits of a machine word and of an array of bytes. The interface
  \<open>address_code\<close> is what an implementation of addresses promises of its operations in terms of
  bits; the theory \<open>IPAddress\<close> provides it twice, by the 32-bit code and by the code on 16 bytes.
\<close>

section \<open>Blocks of bit strings\<close>

definition cyl :: "nat \<Rightarrow> nat \<Rightarrow> bool list \<Rightarrow> bool list set" where
  "cyl w p xs = {ys. length ys = w \<and> take p ys = take p xs}"

lemma take_eq_mono:
  assumes "take q xs = take q ys" and "p \<le> q"
  shows "take p xs = take p ys"
  using assms by (metis min.absorb1 take_take)

lemma take_Suc_eq_iff:
  assumes "p < length xs" and "p < length ys"
  shows "take (Suc p) xs = take (Suc p) ys \<longleftrightarrow> take p xs = take p ys \<and> xs ! p = ys ! p"
  using assms by (auto simp: take_Suc_conv_app_nth)

lemma cyl_self: "length xs = w \<Longrightarrow> xs \<in> cyl w p xs"
  by (simp add: cyl_def)

lemma cyl_halves:
  assumes "length xs = w" and "p < w"
  shows "cyl w p xs = cyl w (Suc p) (xs[p := False]) \<union> cyl w (Suc p) (xs[p := True])"
  using assms by (auto simp: cyl_def take_Suc_eq_iff)

lemma cyl_halves_disjoint:
  assumes "length xs = w" and "p < w"
  shows "cyl w (Suc p) (xs[p := False]) \<inter> cyl w (Suc p) (xs[p := True]) = {}"
  using assms by (auto simp: cyl_def take_Suc_eq_iff)

lemma cyl_meet:
  assumes "length xs = w" and "length ys = w" and "p \<le> q"
  shows "cyl w p xs \<inter> cyl w q ys \<noteq> {} \<longleftrightarrow> take p xs = take p ys"
proof
  assume "cyl w p xs \<inter> cyl w q ys \<noteq> {}"
  then obtain zs where "take p zs = take p xs" "take q zs = take q ys"
    by (auto simp: cyl_def)
  with \<open>p \<le> q\<close> show "take p xs = take p ys"
    by (metis take_eq_mono)
next
  assume "take p xs = take p ys"
  with assms have "ys \<in> cyl w p xs \<inter> cyl w q ys"
    by (simp add: cyl_def)
  then show "cyl w p xs \<inter> cyl w q ys \<noteq> {}"
    by blast
qed

lemma cyl_subset:
  assumes "length xs = w" and "length ys = w" and "p \<le> w" and "q \<le> w"
  shows "cyl w q ys \<subseteq> cyl w p xs \<longleftrightarrow> p \<le> q \<and> take p xs = take p ys"
proof
  assume sub: "cyl w q ys \<subseteq> cyl w p xs"
  from sub cyl_self [OF assms(2)] have ys: "take p ys = take p xs"
    by (auto simp: cyl_def)
  have "p \<le> q"
  proof (rule ccontr)
    assume "\<not> p \<le> q"
    then have "q < p" and "q < w"
      using \<open>p \<le> w\<close> by auto
    let ?zs = "ys[q := \<not> ys ! q]"
    have "?zs \<in> cyl w q ys"
      using assms by (simp add: cyl_def)
    with sub have "?zs \<in> cyl w p xs"
      by blast
    then have "take p ?zs = take p xs"
      by (simp add: cyl_def)
    with ys have "take (Suc q) ?zs = take (Suc q) ys"
      using \<open>q < p\<close> by (metis Suc_leI take_eq_mono)
    then show False
      using \<open>q < w\<close> assms by (simp add: take_Suc_eq_iff)
  qed
  with ys show "p \<le> q \<and> take p xs = take p ys"
    by simp
next
  assume "p \<le> q \<and> take p xs = take p ys"
  then show "cyl w q ys \<subseteq> cyl w p xs"
    by (auto simp: cyl_def intro: take_eq_mono)
qed

lemma cyl_full: "length xs = w \<Longrightarrow> cyl w w xs = {xs}"
  by (auto simp: cyl_def)

text \<open>A bit string without bits beyond the prefix: the base address of a block.\<close>

definition base_bits :: "nat \<Rightarrow> bool list \<Rightarrow> bool" where
  "base_bits p xs \<longleftrightarrow> True \<notin> set (drop p xs)"

lemma base_bits_update_False:
  assumes "base_bits p xs" and "p < length xs"
  shows "xs[p := False] = xs" and "base_bits (Suc p) xs"
proof -
  have "drop p xs = xs ! p # drop (Suc p) xs"
    using assms(2) by (simp add: Cons_nth_drop_Suc)
  with assms(1) have "\<not> xs ! p" and "base_bits (Suc p) xs"
    by (auto simp: base_bits_def)
  then show "xs[p := False] = xs" and "base_bits (Suc p) xs"
    by (metis (full_types) list_update_id, simp)
qed

lemma base_bits_update_True:
  assumes "base_bits p xs" and "p < length xs"
  shows "base_bits (Suc p) (xs[p := True])"
  using base_bits_update_False(2) [OF assms] by (simp add: base_bits_def)

lemma base_bits_eq:
  assumes "length xs = length ys" and "take p xs = take p ys"
    and "base_bits p xs" and "base_bits p ys"
  shows "xs = ys"
proof -
  have zero: "drop p zs = replicate (length zs - p) False" if "base_bits p zs" for zs
  proof (rule replicate_eqI)
    fix b assume "b \<in> set (drop p zs)"
    with that show "b = False"
      by (cases b) (auto simp: base_bits_def)
  qed simp
  have "drop p xs = drop p ys"
    using zero [OF assms(3)] zero [OF assms(4)] assms(1) by simp
  with assms(2) show ?thesis
    by (metis append_take_drop_id)
qed

section \<open>Bits of words and of byte arrays\<close>

definition word_bits :: "'a::len word \<Rightarrow> bool list" where
  "word_bits a = map (\<lambda>i. bit a (LENGTH('a) - 1 - i)) [0..<LENGTH('a)]"

definition byte_bits :: "8 word list \<Rightarrow> bool list" where
  "byte_bits bs = concat (map word_bits bs)"

lemma length_word_bits [simp]: "length (word_bits (a :: 'a::len word)) = LENGTH('a)"
  by (simp add: word_bits_def)

lemma nth_word_bits [simp]:
  "i < LENGTH('a) \<Longrightarrow> word_bits (a :: 'a::len word) ! i = bit a (LENGTH('a) - 1 - i)"
  by (simp add: word_bits_def)

lemma bit_word_bits:
  "n < LENGTH('a) \<Longrightarrow> bit (a :: 'a::len word) n = word_bits a ! (LENGTH('a) - 1 - n)"
  by simp

lemma word_bits_inject [simp]: "word_bits a = word_bits b \<longleftrightarrow> a = (b :: 'a::len word)"
proof
  assume eq: "word_bits a = word_bits b"
  show "a = b"
  proof (rule bit_eqI)
    fix n assume "possible_bit TYPE('a word) n"
    then have "n < LENGTH('a)"
      by simp
    with eq show "bit a n = bit b n"
      by (simp only: bit_word_bits)
  qed
qed simp

lemma word_bits_surj:
  assumes "length xs = LENGTH('a)"
  shows "\<exists>a :: 'a::len word. word_bits a = xs"
proof (rule exI)
  let ?a = "horner_sum of_bool 2 (rev xs) :: 'a word"
  show "word_bits ?a = xs"
    by (rule nth_equalityI)
      (use assms in \<open>auto simp: bit_horner_sum_bit_iff rev_nth\<close>)
qed

lemma take_word_bits_eq:
  assumes "p \<le> LENGTH('a)"
  shows "take p (word_bits a) = take p (word_bits b) \<longleftrightarrow>
    drop_bit (LENGTH('a) - p) (a XOR b) = (0 :: 'a::len word)"
    (is "?l \<longleftrightarrow> ?r")
proof -
  have "?l \<longleftrightarrow> (\<forall>i<p. bit a (LENGTH('a) - 1 - i) = bit b (LENGTH('a) - 1 - i))"
    using assms by (auto simp: list_eq_iff_nth_eq)
  also have "\<dots> \<longleftrightarrow> (\<forall>n. LENGTH('a) - p \<le> n \<and> n < LENGTH('a) \<longrightarrow> bit a n = bit b n)"
  proof (rule iffI; intro allI impI)
    fix n assume all: "\<forall>i<p. bit a (LENGTH('a) - 1 - i) = bit b (LENGTH('a) - 1 - i)"
      and n: "LENGTH('a) - p \<le> n \<and> n < LENGTH('a)"
    from all [rule_format, of "LENGTH('a) - 1 - n"] n assms show "bit a n = bit b n"
      by (cases "p = 0") auto
  next
    fix i assume "\<forall>n. LENGTH('a) - p \<le> n \<and> n < LENGTH('a) \<longrightarrow> bit a n = bit b n" "i < p"
    with assms show "bit a (LENGTH('a) - 1 - i) = bit b (LENGTH('a) - 1 - i)"
      by auto
  qed
  also have "\<dots> \<longleftrightarrow> ?r"
  proof -
    have "x = 0 \<longleftrightarrow> (\<forall>n. \<not> bit x n)" for x :: "'a word"
      by (auto simp: bit_eq_iff dest: bit_imp_le_length)
    then have "?r \<longleftrightarrow> (\<forall>n. \<not> bit (a XOR b) (LENGTH('a) - p + n))"
      by (simp only: bit_drop_bit_eq o_apply)
    also have "\<dots> \<longleftrightarrow> (\<forall>n. LENGTH('a) - p \<le> n \<longrightarrow> \<not> bit (a XOR b) n)"
      by (metis le_add1 le_iff_add)
    finally show ?thesis
      by (auto simp: bit_xor_iff dest: bit_imp_le_length)
  qed
  finally show ?thesis .
qed

lemma byte_bits_simps [simp]:
  "byte_bits [] = []" "byte_bits (b # bs) = word_bits b @ byte_bits bs"
  by (simp_all add: byte_bits_def)

lemma length_byte_bits [simp]: "length (byte_bits bs) = 8 * length bs"
  by (induction bs) auto

lemma byte_index: "(j + 8) div 8 = Suc (j div 8)" "(j + 8) mod 8 = j mod (8 :: nat)"
  by simp_all

lemma nth_byte_bits [simp]:
  "i < 8 * length bs \<Longrightarrow> byte_bits bs ! i = bit (bs ! (i div 8)) (7 - i mod 8)"
proof (induction bs arbitrary: i)
  case (Cons b bs)
  show ?case
  proof (cases "i < 8")
    case True
    then show ?thesis
      by (simp add: nth_append)
  next
    case False
    then obtain j where i: "i = j + 8"
      by (metis le_add_diff_inverse2 not_less)
    with Cons.IH [of j] Cons.prems show ?thesis
      by (simp add: nth_append byte_index)
  qed
qed simp

lemma byte_bits_inject:
  "length as = length bs \<Longrightarrow> byte_bits as = byte_bits bs \<longleftrightarrow> as = bs"
  by (induction as bs rule: list_induct2) auto

lemma byte_bits_surj: "length xs = 8 * n \<Longrightarrow> \<exists>bs. length bs = n \<and> byte_bits bs = xs"
proof (induction n arbitrary: xs)
  case (Suc n)
  obtain b :: "8 word" where b: "word_bits b = take 8 xs"
    using word_bits_surj [where 'a = 8 and xs = "take 8 xs"] Suc.prems by auto
  obtain bs where "length bs = n" "byte_bits bs = drop 8 xs"
    using Suc.IH [of "drop 8 xs"] Suc.prems by auto
  with b have "length (b # bs) = Suc n \<and> byte_bits (b # bs) = xs"
    by simp
  then show ?case
    by blast
qed simp

lemma take_byte_bits_eq:
  assumes "length as = length bs" and "p \<le> 8 * length as"
  shows "take p (byte_bits as) = take p (byte_bits bs) \<longleftrightarrow>
    take (p div 8) as = take (p div 8) bs \<and>
    (p mod 8 \<noteq> 0 \<longrightarrow> drop_bit (8 - p mod 8) (as ! (p div 8) XOR bs ! (p div 8)) = 0)"
  using assms
proof (induction as bs arbitrary: p rule: list_induct2)
  case (Cons a as b bs)
  show ?case
  proof (cases "p < 8")
    case True
    then show ?thesis
      using take_word_bits_eq [of p a b] by (cases "p = 0") simp_all
  next
    case False
    then obtain q where p: "p = q + 8"
      by (metis le_add_diff_inverse2 not_less)
    with Cons.IH [of q] Cons.prems show ?thesis
      by (simp add: byte_index)
  qed
qed simp

section \<open>Shifted masks\<close>

lemma bit_drop_bit_ones:
  "k \<le> LENGTH('a) \<Longrightarrow> bit (drop_bit p (mask k :: 'a::len word)) n \<longleftrightarrow> p + n < k"
  by (auto simp: bit_drop_bit_eq bit_mask_iff)

lemma bit_drop_bit_top:
  "k < LENGTH('a) \<Longrightarrow> bit (drop_bit p (push_bit k 1 :: 'a::len word)) n \<longleftrightarrow> p + n = k"
  by (auto simp: bit_drop_bit_eq bit_exp_iff)

section \<open>What the code on addresses promises\<close>

text \<open>
  The operations of one kind of address: the comparison of prefixes (\<open>agree\<close>), setting the bit
  after a prefix (\<open>raise\<close>), setting all bits after a prefix (\<open>fill\<close>), the masks of a prefix.
\<close>

locale address_code =
  fixes width :: nat
    and valid :: "'a \<Rightarrow> bool"
    and bits :: "'a \<Rightarrow> bool list"
    and agree :: "nat \<Rightarrow> 'a \<Rightarrow> 'a \<Rightarrow> bool"
    and raise :: "nat \<Rightarrow> 'a \<Rightarrow> 'a"
    and fill :: "nat \<Rightarrow> 'a \<Rightarrow> 'a"
    and netm :: "nat \<Rightarrow> 'a"
    and hostm :: "nat \<Rightarrow> 'a"
  assumes bits_length: "valid a \<Longrightarrow> length (bits a) = width"
    and bits_inject: "valid a \<Longrightarrow> valid b \<Longrightarrow> bits a = bits b \<longleftrightarrow> a = b"
    and bits_surj: "length xs = width \<Longrightarrow> \<exists>a. valid a \<and> bits a = xs"
    and agree_bits: "valid a \<Longrightarrow> valid b \<Longrightarrow> p \<le> width \<Longrightarrow>
      agree p a b \<longleftrightarrow> take p (bits a) = take p (bits b)"
    and raise_valid: "valid a \<Longrightarrow> p < width \<Longrightarrow> valid (raise p a)"
    and raise_bits: "valid a \<Longrightarrow> p < width \<Longrightarrow> bits (raise p a) = (bits a)[p := True]"
    and fill_valid: "valid a \<Longrightarrow> p \<le> width \<Longrightarrow> valid (fill p a)"
    and fill_bits: "valid a \<Longrightarrow> p \<le> width \<Longrightarrow>
      bits (fill p a) = take p (bits a) @ replicate (width - p) True"
    and netm_valid: "p \<le> width \<Longrightarrow> valid (netm p)"
    and netm_bits: "p \<le> width \<Longrightarrow> bits (netm p) = replicate p True @ replicate (width - p) False"
    and hostm_valid: "p \<le> width \<Longrightarrow> valid (hostm p)"
    and hostm_bits: "p \<le> width \<Longrightarrow> bits (hostm p) = replicate p False @ replicate (width - p) True"
begin

lemma block_bits:
  "valid a \<Longrightarrow> p \<le> width \<Longrightarrow> bits ` {b. valid b \<and> agree p a b} = cyl width p (bits a)"
proof (intro equalityI subsetI)
  fix xs assume "valid a" "p \<le> width" and xs: "xs \<in> cyl width p (bits a)"
  then obtain b where "valid b" "bits b = xs"
    using bits_surj by (auto simp: cyl_def)
  moreover from this xs \<open>valid a\<close> \<open>p \<le> width\<close> have "agree p a b"
    by (simp add: cyl_def agree_bits)
  ultimately show "xs \<in> bits ` {b. valid b \<and> agree p a b}"
    by blast
qed (auto simp: cyl_def agree_bits bits_length)

text \<open>The two halves of a block are disjoint and cover it.\<close>

lemma block_halves:
  assumes "valid a" and "p < width" and "base_bits p (bits a)"
  shows "{b. valid b \<and> agree p a b} =
      {b. valid b \<and> agree (Suc p) a b} \<union> {b. valid b \<and> agree (Suc p) (raise p a) b}"
    and "{b. valid b \<and> agree (Suc p) a b} \<inter> {b. valid b \<and> agree (Suc p) (raise p a) b} = {}"
proof -
  have low: "(bits a)[p := False] = bits a"
    by (rule base_bits_update_False(1) [OF assms(3)]) (simp add: assms bits_length)
  have block: "{b. valid b \<and> agree q c b} = {b. valid b \<and> bits b \<in> cyl width q (bits c)}"
    if "valid c" "q \<le> width" for c q
  proof (rule Collect_cong)
    fix b
    show "valid b \<and> agree q c b \<longleftrightarrow> valid b \<and> bits b \<in> cyl width q (bits c)"
      using agree_bits [OF that(1) _ that(2), of b] bits_length [of b] unfolding cyl_def by fastforce
  qed
  have "p \<le> width" "Suc p \<le> width"
    using assms(2) by auto
  note blocks = block [OF assms(1) this(1)] block [OF assms(1) this(2)]
    block [OF raise_valid [OF assms(1,2)] this(2), unfolded raise_bits [OF assms(1,2)]]
  note halves = cyl_halves [OF bits_length [OF assms(1)] assms(2), unfolded low]
    cyl_halves_disjoint [OF bits_length [OF assms(1)] assms(2), unfolded low]
  show "{b. valid b \<and> agree p a b} =
      {b. valid b \<and> agree (Suc p) a b} \<union> {b. valid b \<and> agree (Suc p) (raise p a) b}"
    unfolding blocks halves(1) by (simp add: Un_def Collect_disj_eq [symmetric] conj_disj_distribL)
  show "{b. valid b \<and> agree (Suc p) a b} \<inter> {b. valid b \<and> agree (Suc p) (raise p a) b} = {}"
    unfolding blocks using halves(2) by (simp add: disjoint_iff)
qed

text \<open>Blocks overlap exactly if one is in the other: prefixes form a forest.\<close>

lemma agree_mono:
  "valid a \<Longrightarrow> valid b \<Longrightarrow> q \<le> width \<Longrightarrow> p \<le> q \<Longrightarrow> agree q a b \<Longrightarrow> agree p a b"
  by (auto simp: agree_bits intro: take_eq_mono)

lemma fill_agree: "valid a \<Longrightarrow> p \<le> width \<Longrightarrow> agree p a (fill p a)"
  by (simp add: agree_bits fill_valid fill_bits bits_length)

end

end
