(* ===== verification/IPAddress.thy ===== *)
theory IPAddress
  imports AddressBits
begin

unbundle bit_operations_syntax

text \<open>
  Address blocks: \<open>client/mozilla/shared/ipaddress.cpp\<close>. A block is a host address with a prefix
  length. IPv4 addresses are 32-bit words and IPv6 addresses arrays of 16 bytes, as in the code,
  which treats the two kinds by separate branches; each branch is a definition of its own
  (\<open>contains_v4\<close>, \<open>contains_v6\<close>, \<dots>), and the two groups are the two interpretations of
  \<open>address_code\<close>. The lemmas give each operation its meaning on sets of addresses (\<open>block\<close>), up to
  the set difference that \<open>excludeAddresses\<close> computes as a list of disjoint blocks.

  A failing \<open>Q_ASSERT\<close> and an index beyond a list are errors of the model. A release build has no
  assertions: there the loop of \<open>excludeAddresses\<close> would not end where the model says
  \<open>AssertFailed\<close>. Reading addresses from text and printing them is the work of \<open>QHostAddress\<close>, a
  parameter here. The scope identifier of an IPv6 address plays no role in this code.
\<close>

section \<open>Definitions\<close>

datatype host_address = NullAddress | IPv4 "32 word" | IPv6 "8 word list"

datatype protocol_kind = UnknownNetworkLayerProtocol | IPv4Protocol | IPv6Protocol

fun protocol :: "host_address \<Rightarrow> protocol_kind" where
  "protocol NullAddress = UnknownNetworkLayerProtocol"
| "protocol (IPv4 _) = IPv4Protocol"
| "protocol (IPv6 _) = IPv6Protocol"

record IPAddress =
  m_address :: host_address
  m_prefixLength :: int

datatype ip_error = AssertFailed | IndexOutOfRange

text \<open>What the class uses of \<open>QHostAddress\<close> on text.\<close>

record host_address_text =
  parseSubnet :: "string \<Rightarrow> host_address \<times> int"
  parseAddress :: "string \<Rightarrow> host_address"
  printAddress :: "host_address \<Rightarrow> string"

text \<open>The default constructor leaves the prefix length indeterminate: any \<open>garbage\<close>.\<close>

definition IPAddress_default :: "int \<Rightarrow> IPAddress" where
  "IPAddress_default garbage = \<lparr>m_address = NullAddress, m_prefixLength = garbage\<rparr>"

definition IPAddress_string :: "host_address_text \<Rightarrow> string \<Rightarrow> IPAddress" where
  "IPAddress_string qt ip =
    (let (address, prefix) =
       (if CHR ''/'' \<in> set ip then parseSubnet qt ip else (parseAddress qt ip, 999999));
       prefix' =
         (if protocol address = IPv4Protocol then (if prefix \<ge> 32 then 32 else prefix)
          else if protocol address = IPv6Protocol then (if prefix \<ge> 128 then 128 else prefix)
          else prefix)
     in \<lparr>m_address = address, m_prefixLength = prefix'\<rparr>)"

definition IPAddress_host :: "host_address \<Rightarrow> ip_error + IPAddress" where
  "IPAddress_host address =
    (if protocol address = IPv4Protocol then Inr \<lparr>m_address = address, m_prefixLength = 32\<rparr>
     else if protocol address = IPv6Protocol then Inr \<lparr>m_address = address, m_prefixLength = 128\<rparr>
     else Inl AssertFailed)"

definition IPAddress_prefix :: "host_address \<Rightarrow> int \<Rightarrow> ip_error + IPAddress" where
  "IPAddress_prefix address prefixLength =
    (if protocol address = IPv4Protocol then
       (if prefixLength \<ge> 0 \<and> prefixLength \<le> 32
        then Inr \<lparr>m_address = address, m_prefixLength = prefixLength\<rparr> else Inl AssertFailed)
     else if protocol address = IPv6Protocol then
       (if prefixLength \<ge> 0 \<and> prefixLength \<le> 128
        then Inr \<lparr>m_address = address, m_prefixLength = prefixLength\<rparr> else Inl AssertFailed)
     else Inl AssertFailed)"

definition ip_toString :: "host_address_text \<Rightarrow> IPAddress \<Rightarrow> string" where
  "ip_toString qt ip = printAddress qt (m_address ip) @ ''/'' @ show_int (m_prefixLength ip)"

definition ip_type :: "IPAddress \<Rightarrow> protocol_kind" where
  "ip_type ip = protocol (m_address ip)"

text \<open>\<open>memset(&a[offset], value, count)\<close> on an array that is long enough.\<close>

definition memset :: "'a list \<Rightarrow> nat \<Rightarrow> 'a \<Rightarrow> nat \<Rightarrow> 'a list" where
  "memset a offset value count = take offset a @ replicate count value @ drop (offset + count) a"

definition netmask_v6 :: "nat \<Rightarrow> 8 word list" where
  "netmask_v6 p =
    (let rawNetmask = memset (replicate 16 0) 0 0xFF (p div 8)
     in if p mod 8 \<noteq> 0 then rawNetmask[p div 8 := 0xFF XOR drop_bit (p mod 8) 0xFF]
        else rawNetmask)"

definition netmask_v4 :: "nat \<Rightarrow> 32 word" where
  "netmask_v4 p = (if p < 32 then 0xFFFFFFFF XOR drop_bit p 0xFFFFFFFF else 0xFFFFFFFF)"

definition netmask :: "IPAddress \<Rightarrow> ip_error + host_address" where
  "netmask ip =
    (case m_address ip of
       IPv6 _ \<Rightarrow> if m_prefixLength ip \<le> 128 then Inr (IPv6 (netmask_v6 (nat (m_prefixLength ip))))
                 else Inl AssertFailed
     | IPv4 _ \<Rightarrow> if m_prefixLength ip \<le> 32 then Inr (IPv4 (netmask_v4 (nat (m_prefixLength ip))))
                 else Inl AssertFailed
     | NullAddress \<Rightarrow> Inr NullAddress)"

definition hostmask_v6 :: "nat \<Rightarrow> 8 word list" where
  "hostmask_v6 p =
    (let offset = (p + 7) div 8;
         rawHostmask = memset (replicate 16 0) offset 0xFF (16 - offset)
     in if p mod 8 \<noteq> 0 then rawHostmask[p div 8 := drop_bit (p mod 8) 0xFF] else rawHostmask)"

definition hostmask_v4 :: "nat \<Rightarrow> 32 word" where
  "hostmask_v4 p = (if p < 32 then drop_bit p 0xFFFFFFFF else 0)"

definition hostmask :: "IPAddress \<Rightarrow> ip_error + host_address" where
  "hostmask ip =
    (case m_address ip of
       IPv6 _ \<Rightarrow> if m_prefixLength ip \<le> 128 then Inr (IPv6 (hostmask_v6 (nat (m_prefixLength ip))))
                 else Inl AssertFailed
     | IPv4 _ \<Rightarrow> Inr (IPv4 (hostmask_v4 (nat (m_prefixLength ip))))
     | NullAddress \<Rightarrow> Inr NullAddress)"

definition broadcast_v6 :: "nat \<Rightarrow> 8 word list \<Rightarrow> 8 word list" where
  "broadcast_v6 p a =
    (let offset = (p + 7) div 8;
         rawAddress = memset a offset 0xFF (16 - offset)
     in if p mod 8 \<noteq> 0
        then rawAddress[p div 8 := rawAddress ! (p div 8) OR drop_bit (p mod 8) 0xFF]
        else rawAddress)"

definition broadcast_v4 :: "nat \<Rightarrow> 32 word \<Rightarrow> 32 word" where
  "broadcast_v4 p a = (if p < 32 then a OR drop_bit p 0xFFFFFFFF else a)"

definition broadcastAddress :: "IPAddress \<Rightarrow> host_address" where
  "broadcastAddress ip =
    (case m_address ip of
       IPv6 a \<Rightarrow> IPv6 (broadcast_v6 (nat (m_prefixLength ip)) a)
     | IPv4 a \<Rightarrow> IPv4 (broadcast_v4 (nat (m_prefixLength ip)) a)
     | NullAddress \<Rightarrow> NullAddress)"

definition contains_v6 :: "nat \<Rightarrow> 8 word list \<Rightarrow> 8 word list \<Rightarrow> bool" where
  "contains_v6 p a b =
    (let bytes = p div 8
     in if bytes > 0 \<and> take bytes a \<noteq> take bytes b then False
        else if p mod 8 \<noteq> 0 then drop_bit (8 - p mod 8) (a ! bytes XOR b ! bytes) = 0
        else True)"

definition contains_v4 :: "nat \<Rightarrow> 32 word \<Rightarrow> 32 word \<Rightarrow> bool" where
  "contains_v4 p a b =
    (let diff = a XOR b;
         diff' = (if p < 32 then drop_bit (32 - p) diff else diff)
     in diff' = 0)"

definition contains :: "IPAddress \<Rightarrow> host_address \<Rightarrow> bool" where
  "contains ip address =
    (if protocol address \<noteq> protocol (m_address ip) then False
     else if m_prefixLength ip = 0 then True
     else case (m_address ip, address) of
       (IPv6 a, IPv6 b) \<Rightarrow> contains_v6 (nat (m_prefixLength ip)) a b
     | (IPv4 a, IPv4 b) \<Rightarrow> contains_v4 (nat (m_prefixLength ip)) a b
     | _ \<Rightarrow> False)"

definition overlaps :: "IPAddress \<Rightarrow> IPAddress \<Rightarrow> bool" where
  "overlaps ip other =
    (if m_prefixLength ip < m_prefixLength other then contains ip (m_address other)
     else contains other (m_address ip))"

definition subnetOf :: "IPAddress \<Rightarrow> IPAddress \<Rightarrow> bool" where
  "subnetOf ip other =
    (if protocol (m_address other) \<noteq> protocol (m_address ip) then False
     else if m_prefixLength ip < m_prefixLength other then False
     else contains other (m_address ip))"

text \<open>The address with the bit after the prefix set.\<close>

definition upper_v4 :: "nat \<Rightarrow> 32 word \<Rightarrow> 32 word" where
  "upper_v4 p a = a OR drop_bit p 0x80000000"

definition upper_v6 :: "nat \<Rightarrow> 8 word list \<Rightarrow> 8 word list" where
  "upper_v6 p a = a[p div 8 := a ! (p div 8) OR drop_bit (p mod 8) 0x80]"

definition subnets :: "IPAddress \<Rightarrow> ip_error + IPAddress list" where
  "subnets ip =
    (let p = m_prefixLength ip in
     case m_address ip of
       IPv4 a \<Rightarrow>
         if p \<ge> 32 then Inr [ip]
         else result_bind (IPAddress_prefix (IPv4 a) (p + 1)) (\<lambda>lower.
              result_bind (IPAddress_prefix (IPv4 (upper_v4 (nat p) a)) (p + 1)) (\<lambda>upper.
              Inr [lower, upper]))
     | IPv6 a \<Rightarrow>
         if p \<ge> 128 then Inr [ip]
         else result_bind (IPAddress_prefix (IPv6 a) (p + 1)) (\<lambda>lower.
              result_bind (IPAddress_prefix (IPv6 (upper_v6 (nat p) a)) (p + 1)) (\<lambda>upper.
              Inr [lower, upper]))
     | NullAddress \<Rightarrow> Inl AssertFailed)"

text \<open>How often a block can still be split: the measure of the loop of \<open>excludeAddresses\<close>.\<close>

definition room :: "IPAddress \<Rightarrow> nat" where
  "room ip = (case m_address ip of IPv4 _ \<Rightarrow> nat (32 - m_prefixLength ip)
    | IPv6 _ \<Rightarrow> nat (128 - m_prefixLength ip) | NullAddress \<Rightarrow> 0)"

definition loop_room :: "IPAddress list \<Rightarrow> nat" where
  "loop_room sn = (case sn of s0 # s1 # _ \<Rightarrow> Suc (max (room s0) (room s1)) | _ \<Rightarrow> 0)"

lemma subnets_room: "subnets ip = Inr sn \<Longrightarrow> loop_room sn \<le> room ip"
  by (auto simp: subnets_def IPAddress_prefix_def loop_room_def room_def Let_def
      split: host_address.splits if_splits)

lemma subnets_loop_room:
  "subnets s0 = Inr sn \<Longrightarrow> loop_room sn < loop_room (s0 # s1 # rest)"
  "subnets s1 = Inr sn \<Longrightarrow> loop_room sn < loop_room (s0 # s1 # rest)"
  by (auto simp: loop_room_def [of "_ # _"] dest!: subnets_room)

text \<open>
  The loop of \<open>excludeAddresses\<close>, with the code after it. With a single subnet left both the test
  of the loop and the code after it read \<open>sn[1]\<close>.
\<close>

function exclude_loop :: "IPAddress list \<Rightarrow> IPAddress \<Rightarrow> IPAddress list \<Rightarrow>
    ip_error + IPAddress list" where
  "exclude_loop sn ip result =
    (case sn of
       s0 # s1 # _ \<Rightarrow>
         if s0 \<noteq> ip \<and> s1 \<noteq> ip then
           if subnetOf ip s0 then
             result_bind (subnets s0) (\<lambda>sn'. exclude_loop sn' ip (result @ [s1]))
           else if subnetOf ip s1 then
             result_bind (subnets s1) (\<lambda>sn'. exclude_loop sn' ip (result @ [s0]))
           else Inl AssertFailed
         else if s0 = ip then Inr (result @ [s1])
         else Inr (result @ [s0])
     | _ \<Rightarrow> Inl IndexOutOfRange)"
  by pat_completeness auto
termination
  by (relation "measure (\<lambda>(sn, _, _). loop_room sn)") (auto simp: subnets_loop_room)

declare exclude_loop.simps [simp del]

definition excludeAddresses :: "IPAddress \<Rightarrow> IPAddress \<Rightarrow> ip_error + IPAddress list" where
  "excludeAddresses self ip =
    result_bind (subnets self) (\<lambda>sn.
      if length sn \<ge> 2 then exclude_loop sn ip [] else Inl AssertFailed)"

text \<open>The static function: the inner loop over the blocks so far, and the outer one.\<close>

fun exclude_each :: "IPAddress \<Rightarrow> IPAddress list \<Rightarrow> IPAddress list \<Rightarrow> ip_error + IPAddress list" where
  "exclude_each exclude newResults [] = Inr newResults"
| "exclude_each exclude newResults (ip # results) =
    (if \<not> overlaps ip exclude then exclude_each exclude (newResults @ [ip]) results
     else if subnetOf exclude ip \<and> exclude \<noteq> ip then
       result_bind (excludeAddresses ip exclude) (\<lambda>range.
         exclude_each exclude (newResults @ range) results)
     else exclude_each exclude newResults results)"

fun excludeAddresses_list :: "IPAddress list \<Rightarrow> IPAddress list \<Rightarrow> ip_error + IPAddress list" where
  "excludeAddresses_list results [] = Inr results"
| "excludeAddresses_list results (exclude # excludeList) =
    result_bind (exclude_each exclude [] results) (\<lambda>newResults.
      excludeAddresses_list newResults excludeList)"


section \<open>The two kinds of address as bit strings\<close>

lemma masks:
  "(0xFFFFFFFF :: 32 word) = mask 32" "(0xFF :: 8 word) = mask 8"
  "(0x80000000 :: 32 word) = push_bit 31 1" "(0x80 :: 8 word) = push_bit 7 1"
  by (simp_all add: mask_eq_exp_minus_1)

lemma bit_shifted:
  "bit (drop_bit p (0xFFFFFFFF :: 32 word)) n \<longleftrightarrow> p + n < 32"
  "bit (drop_bit p (0xFF :: 8 word)) n \<longleftrightarrow> p + n < 8"
  "bit (drop_bit p (0x80000000 :: 32 word)) n \<longleftrightarrow> p + n = 31"
  "bit (drop_bit p (0x80 :: 8 word)) n \<longleftrightarrow> p + n = 7"
  by (simp_all only: masks, rule bit_drop_bit_ones, simp, rule bit_drop_bit_ones, simp,
      rule bit_drop_bit_top, simp, rule bit_drop_bit_top, simp)

text \<open>The simplifier reads the bits of a word numeral as those of an integer.\<close>

lemma bit_ones: "bit (0xFFFFFFFF :: int) n \<longleftrightarrow> n < 32" "bit (0xFF :: int) n \<longleftrightarrow> n < 8"
proof -
  have "(0xFFFFFFFF :: int) = mask 32" "(0xFF :: int) = mask 8"
    by (simp_all add: mask_eq_exp_minus_1)
  then show "bit (0xFFFFFFFF :: int) n \<longleftrightarrow> n < 32" "bit (0xFF :: int) n \<longleftrightarrow> n < 8"
    by (simp_all only: bit_mask_iff possible_bit_int simp_thms)
qed

lemma nth_memset:
  "offset + count \<le> length a \<Longrightarrow> i < length a \<Longrightarrow>
   memset a offset value count ! i = (if offset \<le> i \<and> i < offset + count then value else a ! i)"
  by (auto simp: memset_def nth_append)

lemma length_memset [simp]: "offset + count \<le> length a \<Longrightarrow> length (memset a offset value count) = length a"
  by (simp add: memset_def)

lemma contains_v4_bits: "p \<le> 32 \<Longrightarrow> contains_v4 p a b \<longleftrightarrow> take p (word_bits a) = take p (word_bits b)"
  using take_word_bits_eq [of p a b] by (auto simp: contains_v4_def)

lemma contains_v6_bits:
  "length a = 16 \<Longrightarrow> length b = 16 \<Longrightarrow> p \<le> 128 \<Longrightarrow>
   contains_v6 p a b \<longleftrightarrow> take p (byte_bits a) = take p (byte_bits b)"
  using take_byte_bits_eq [of a b p] by (auto simp: contains_v6_def Let_def)

lemma upper_v4_bits: "p < 32 \<Longrightarrow> word_bits (upper_v4 p a) = (word_bits a)[p := True]"
  by (rule nth_equalityI) (auto simp: upper_v4_def bit_or_iff bit_shifted nth_list_update)

lemma same_index: "i div 8 = p div 8 \<Longrightarrow> i mod 8 = p mod 8 \<longleftrightarrow> i = (p :: nat)"
  by (metis div_mult_mod_eq)

lemma upper_v6_bits:
  assumes "length a = 16" and "p < 128"
  shows "byte_bits (upper_v6 p a) = (byte_bits a)[p := True]"
proof (rule nth_equalityI)
  fix i assume "i < length (byte_bits (upper_v6 p a))"
  then have i: "i < 128"
    using assms by (simp add: upper_v6_def)
  have "p mod 8 + (7 - i mod 8) = 7 \<longleftrightarrow> i mod 8 = p mod 8"
    by (auto simp: less_Suc_eq_le [symmetric])
  with i assms show "byte_bits (upper_v6 p a) ! i = (byte_bits a)[p := True] ! i"
    using same_index [of i p]
    by (auto simp: upper_v6_def nth_list_update bit_or_iff bit_shifted)
qed (simp add: upper_v6_def)

text \<open>Where a bit of a byte array lies relative to a prefix.\<close>

lemma byte_prefix:
  assumes "i < 128" and "p \<le> (128 :: nat)"
  shows "i div 8 < p div 8 \<Longrightarrow> i < p"
    and "i div 8 > p div 8 \<Longrightarrow> \<not> i < p"
    and "i div 8 = p div 8 \<Longrightarrow> i < p \<longleftrightarrow> i mod 8 < p mod 8"
  by (linarith, linarith, metis div_mult_mod_eq nat_add_left_cancel_less)

lemma prefix_byte_count: "(p + 7) div 8 = (if p mod 8 = 0 then p div 8 else Suc (p div 8 :: nat))"
proof (cases "p mod 8 = 0")
  case False
  then have "(p + 7) div 8 = Suc (p div 8)"
    using div_mult_mod_eq [of p 8] by linarith
  with False show ?thesis
    by simp
qed auto

lemma prefix_byte_bound: "p \<le> 128 \<Longrightarrow> p mod 8 \<noteq> 0 \<Longrightarrow> p div 8 < (16 :: nat)"
  using div_mult_mod_eq [of p 8] by linarith

lemma byte_position: "8 * (i div 8) + 7 - (7 - i mod 8) = (i :: nat)"
  using div_mult_mod_eq [of i 8] mod_less_divisor [of 8 i] by linarith

lemma position_byte:
  assumes "n < 8"
  shows "(8 * j + 7 - n) div 8 = j" and "7 - (8 * j + 7 - n) mod 8 = (n :: nat)"
proof -
  show "(8 * j + 7 - n) div 8 = j"
    using assms by linarith
  with div_mult_mod_eq [of "8 * j + 7 - n" 8] assms show "7 - (8 * j + 7 - n) mod 8 = n"
    by simp
qed

lemma broadcast_v4_bits:
  "p \<le> 32 \<Longrightarrow> word_bits (broadcast_v4 p a) = take p (word_bits a) @ replicate (32 - p) True"
  by (rule nth_equalityI) (auto simp: broadcast_v4_def bit_or_iff bit_shifted nth_append)

lemma netmask_v4_bits:
  "p \<le> 32 \<Longrightarrow> word_bits (netmask_v4 p) = replicate p True @ replicate (32 - p) False"
  by (rule nth_equalityI) (auto simp: netmask_v4_def bit_xor_iff bit_shifted bit_ones nth_append)

lemma hostmask_v4_bits:
  "p \<le> 32 \<Longrightarrow> word_bits (hostmask_v4 p) = replicate p False @ replicate (32 - p) True"
  by (rule nth_equalityI) (auto simp: hostmask_v4_def bit_shifted nth_append)

lemma offset_bound: "p \<le> 128 \<Longrightarrow> (p + 7) div 8 \<le> (16 :: nat)"
  by linarith

lemma masks_v6_length [simp]:
  "p \<le> 128 \<Longrightarrow> length a = 16 \<Longrightarrow> length (broadcast_v6 p a) = 16"
  "p \<le> 128 \<Longrightarrow> length (netmask_v6 p) = 16"
  "p \<le> 128 \<Longrightarrow> length (hostmask_v6 p) = 16"
  "length (upper_v6 p a) = length a"
  by (simp_all add: broadcast_v6_def netmask_v6_def hostmask_v6_def upper_v6_def Let_def offset_bound)

text \<open>The bytes of the masks: before the byte in which the prefix ends, there, and after it.\<close>

lemma broadcast_v6_byte:
  assumes "length a = 16" and "p \<le> 128" and "j < 16"
  shows "broadcast_v6 p a ! j =
    (if j < p div 8 then a ! j
     else if j = p div 8 \<and> p mod 8 \<noteq> 0 then a ! j OR drop_bit (p mod 8) 0xFF else 0xFF)"
proof -
  note bound = offset_bound [OF assms(2)]
  show ?thesis
    using assms(1,3) bound unfolding broadcast_v6_def Let_def
    by (cases "p mod 8 = 0") (simp_all add: nth_list_update nth_memset prefix_byte_count)
qed

lemma netmask_v6_byte:
  assumes "p \<le> 128" and "j < 16"
  shows "netmask_v6 p ! j =
    (if j < p div 8 then 0xFF
     else if j = p div 8 \<and> p mod 8 \<noteq> 0 then 0xFF XOR drop_bit (p mod 8) 0xFF else 0)"
  using assms unfolding netmask_v6_def Let_def
  by (simp add: nth_list_update nth_memset)

lemma hostmask_v6_byte:
  assumes "p \<le> 128" and "j < 16"
  shows "hostmask_v6 p ! j =
    (if j < p div 8 then 0
     else if j = p div 8 \<and> p mod 8 \<noteq> 0 then drop_bit (p mod 8) 0xFF else 0xFF)"
proof -
  note bound = offset_bound [OF assms(1)]
  show ?thesis
    using assms(2) bound unfolding hostmask_v6_def Let_def
    by (cases "p mod 8 = 0") (simp_all add: nth_list_update nth_memset prefix_byte_count)
qed

text \<open>A byte array whose bytes are given that way has bits given by the prefix.\<close>

lemma byte_bits_prefix:
  assumes len: "length m = 16" and p: "p \<le> 128"
    and before: "\<And>j n. j < p div 8 \<Longrightarrow> j < 16 \<Longrightarrow> n < 8 \<Longrightarrow> bit (m ! j) n = P (8 * j + 7 - n)"
    and at: "\<And>n. p mod 8 \<noteq> 0 \<Longrightarrow> n < 8 \<Longrightarrow> bit (m ! (p div 8)) n =
      (if p mod 8 + n < 8 then Q else P (8 * (p div 8) + 7 - n))"
    and after: "\<And>j n. p div 8 < j \<or> p div 8 = j \<and> p mod 8 = 0 \<Longrightarrow> j < 16 \<Longrightarrow> n < 8 \<Longrightarrow>
      bit (m ! j) n = Q"
  shows "byte_bits m = map P [0..<p] @ replicate (128 - p) Q"
proof (rule nth_equalityI)
  fix i assume "i < length (byte_bits m)"
  then have i: "i < 128"
    using len by simp
  have "bit (m ! (i div 8)) (7 - i mod 8) = (if i < p then P i else Q)"
  proof (cases "i div 8 < p div 8")
    case True
    moreover from this have "i < p"
      by (rule byte_prefix(1) [OF i p])
    moreover note byte_position [of i]
    ultimately show ?thesis
      using before [of "i div 8" "7 - i mod 8"] i by simp
  next
    case False
    show ?thesis
    proof (cases "i div 8 = p div 8 \<and> p mod 8 \<noteq> 0")
      case True
      moreover have "p mod 8 + (7 - i mod 8) < 8 \<longleftrightarrow> \<not> i < p"
        using byte_prefix(3) [OF i p] True by (auto simp: less_Suc_eq_le [symmetric])
      moreover note byte_position [of i]
      ultimately show ?thesis
        using at [of "7 - i mod 8"] by simp
    next
      case no: False
      then have "p div 8 < i div 8 \<or> p div 8 = i div 8 \<and> p mod 8 = 0"
        using False by auto
      moreover from this have "\<not> i < p"
        using div_mult_mod_eq [of p 8] div_mult_mod_eq [of i 8] by linarith
      ultimately show ?thesis
        using after [of "i div 8" "7 - i mod 8"] i by simp
    qed
  qed
  then show "byte_bits m ! i = (map P [0..<p] @ replicate (128 - p) Q) ! i"
    using i len p by (simp add: nth_append)
qed (use len p in simp)

lemma take_eq_map: "p \<le> length xs \<Longrightarrow> take p xs = map ((!) xs) [0..<p]"
  by (rule nth_equalityI) auto

lemma replicate_eq_map: "replicate p x = map (\<lambda>_. x) [0..<p]"
  by (rule nth_equalityI) auto

lemma broadcast_v6_bits:
  assumes "length a = 16" and "p \<le> 128"
  shows "byte_bits (broadcast_v6 p a) = take p (byte_bits a) @ replicate (128 - p) True"
proof -
  have "byte_bits (broadcast_v6 p a) = map ((!) (byte_bits a)) [0..<p] @ replicate (128 - p) True"
    using assms prefix_byte_bound [OF assms(2)]
    by (intro byte_bits_prefix)
      (auto simp: broadcast_v6_byte position_byte bit_or_iff bit_shifted bit_ones)
  then show ?thesis
    using assms by (simp add: take_eq_map)
qed

lemma netmask_v6_bits:
  assumes "p \<le> 128"
  shows "byte_bits (netmask_v6 p) = replicate p True @ replicate (128 - p) False"
proof -
  show ?thesis
    using assms prefix_byte_bound [OF assms] unfolding replicate_eq_map [of p]
    by (intro byte_bits_prefix) (auto simp: netmask_v6_byte bit_xor_iff bit_shifted bit_ones)
qed

lemma hostmask_v6_bits:
  assumes "p \<le> 128"
  shows "byte_bits (hostmask_v6 p) = replicate p False @ replicate (128 - p) True"
proof -
  show ?thesis
    using assms prefix_byte_bound [OF assms] unfolding replicate_eq_map [of p]
    by (intro byte_bits_prefix) (auto simp: hostmask_v6_byte bit_shifted bit_ones)
qed

interpretation v4: address_code 32 "\<lambda>_. True" word_bits contains_v4 upper_v4 broadcast_v4
    netmask_v4 hostmask_v4
  by unfold_locales
    (simp_all add: contains_v4_bits upper_v4_bits broadcast_v4_bits netmask_v4_bits hostmask_v4_bits
      word_bits_surj)

interpretation v6: address_code 128 "\<lambda>a. length a = 16" byte_bits contains_v6 upper_v6 broadcast_v6
    netmask_v6 hostmask_v6
  by unfold_locales
    (simp_all add: contains_v6_bits upper_v6_bits broadcast_v6_bits netmask_v6_bits hostmask_v6_bits
      byte_bits_inject byte_bits_surj)


section \<open>Blocks as sets of addresses\<close>

fun addr_bits :: "host_address \<Rightarrow> bool list" where
  "addr_bits NullAddress = []"
| "addr_bits (IPv4 a) = word_bits a"
| "addr_bits (IPv6 a) = byte_bits a"

fun protocol_width :: "protocol_kind \<Rightarrow> nat" where
  "protocol_width UnknownNetworkLayerProtocol = 0"
| "protocol_width IPv4Protocol = 32"
| "protocol_width IPv6Protocol = 128"

fun valid_address :: "host_address \<Rightarrow> bool" where
  "valid_address NullAddress = False"
| "valid_address (IPv4 a) = True"
| "valid_address (IPv6 a) = (length a = 16)"

abbreviation ip_width :: "IPAddress \<Rightarrow> nat" where
  "ip_width ip \<equiv> protocol_width (protocol (m_address ip))"

abbreviation ip_bits :: "IPAddress \<Rightarrow> bool list" where
  "ip_bits ip \<equiv> addr_bits (m_address ip)"

abbreviation ip_prefix :: "IPAddress \<Rightarrow> nat" where
  "ip_prefix ip \<equiv> nat (m_prefixLength ip)"

definition wf_ip :: "IPAddress \<Rightarrow> bool" where
  "wf_ip ip \<longleftrightarrow> valid_address (m_address ip) \<and> 0 \<le> m_prefixLength ip \<and> m_prefixLength ip \<le> int (ip_width ip)"

text \<open>No bit is set after the prefix.\<close>

definition canonical :: "IPAddress \<Rightarrow> bool" where
  "canonical ip \<longleftrightarrow> wf_ip ip \<and> base_bits (ip_prefix ip) (ip_bits ip)"

definition block :: "IPAddress \<Rightarrow> host_address set" where
  "block ip = {a. valid_address a \<and> protocol a = protocol (m_address ip) \<and>
     take (ip_prefix ip) (addr_bits a) = take (ip_prefix ip) (ip_bits ip)}"

definition blocks :: "IPAddress list \<Rightarrow> host_address set" where
  "blocks ips = (\<Union>ip\<in>set ips. block ip)"

definition disjoint_blocks :: "IPAddress list \<Rightarrow> bool" where
  "disjoint_blocks ips \<longleftrightarrow> sorted_wrt (\<lambda>i j. block i \<inter> block j = {}) ips"

lemma blocks_simps [block_simps]:
  "blocks [] = {}" "blocks (ip # ips) = block ip \<union> blocks ips"
  "blocks (is @ js) = blocks is \<union> blocks js"
  by (auto simp: blocks_def)

lemma disjoint_blocks_simps [block_simps]:
  "disjoint_blocks []" "disjoint_blocks (ip # ips) \<longleftrightarrow> block ip \<inter> blocks ips = {} \<and> disjoint_blocks ips"
  "disjoint_blocks (is @ js) \<longleftrightarrow> disjoint_blocks is \<and> disjoint_blocks js \<and> blocks is \<inter> blocks js = {}"
  by (auto simp: disjoint_blocks_def blocks_def sorted_wrt_append disjoint_iff)

lemma protocol_cases:
  "protocol a = IPv4Protocol \<longleftrightarrow> (\<exists>x. a = IPv4 x)" "protocol a = IPv6Protocol \<longleftrightarrow> (\<exists>x. a = IPv6 x)"
  by (cases a; simp)+

lemma addr_bits_length: "valid_address a \<Longrightarrow> length (addr_bits a) = protocol_width (protocol a)"
  by (cases a) simp_all

lemma addr_bits_inject:
  "valid_address a \<Longrightarrow> valid_address b \<Longrightarrow> protocol a = protocol b \<Longrightarrow>
   addr_bits a = addr_bits b \<longleftrightarrow> a = b"
  by (cases a; cases b) (simp_all add: v6.bits_inject)

lemma addr_bits_surj:
  assumes "valid_address c" and "length xs = protocol_width (protocol c)"
  obtains a where "valid_address a" "protocol a = protocol c" "addr_bits a = xs"
proof (cases c)
  case (IPv4 x)
  with assms obtain a :: "32 word" where "word_bits a = xs"
    using v4.bits_surj by auto
  with that [of "IPv4 a"] IPv4 show ?thesis
    by simp
next
  case (IPv6 x)
  with assms obtain a where "length a = 16" "byte_bits a = xs"
    using v6.bits_surj by auto
  with that [of "IPv6 a"] IPv6 show ?thesis
    by simp
qed (use assms in simp)

lemma wf_ipD:
  assumes "wf_ip ip"
  shows "valid_address (m_address ip)" and "length (ip_bits ip) = ip_width ip"
    and "ip_prefix ip \<le> ip_width ip" and "int (ip_prefix ip) = m_prefixLength ip"
  using assms by (auto simp: wf_ip_def addr_bits_length)

text \<open>A block, through the bits of its addresses.\<close>

lemma block_cyl:
  "wf_ip ip \<Longrightarrow> a \<in> block ip \<longleftrightarrow> valid_address a \<and> protocol a = protocol (m_address ip) \<and>
     addr_bits a \<in> cyl (ip_width ip) (ip_prefix ip) (ip_bits ip)"
  by (auto simp: block_def cyl_def addr_bits_length)

lemma block_self: "wf_ip ip \<Longrightarrow> m_address ip \<in> block ip"
  by (simp add: block_def wf_ip_def)

lemma block_Int_iff:
  assumes "wf_ip i" and "wf_ip j" and "protocol (m_address i) = protocol (m_address j)"
  shows "block i \<inter> block j = {} \<longleftrightarrow>
    cyl (ip_width i) (ip_prefix i) (ip_bits i) \<inter> cyl (ip_width i) (ip_prefix j) (ip_bits j) = {}"
proof -
  have "\<exists>a. a \<in> block i \<inter> block j"
    if "xs \<in> cyl (ip_width i) (ip_prefix i) (ip_bits i) \<inter> cyl (ip_width i) (ip_prefix j) (ip_bits j)" for xs
  proof -
    have "length xs = ip_width i"
      using that by (simp add: cyl_def)
    then obtain a where "valid_address a" "protocol a = protocol (m_address i)" "addr_bits a = xs"
      using addr_bits_surj wf_ipD(1) [OF assms(1)] by metis
    with that assms show ?thesis
      by (intro exI [of _ a]) (simp add: block_cyl)
  qed
  moreover have "\<exists>xs. xs \<in> cyl (ip_width i) (ip_prefix i) (ip_bits i) \<inter>
      cyl (ip_width i) (ip_prefix j) (ip_bits j)" if "a \<in> block i \<inter> block j" for a
    using that assms by (intro exI [of _ "addr_bits a"]) (simp add: block_cyl)
  ultimately show ?thesis
    by blast
qed

lemma block_subset_iff:
  assumes "wf_ip i" and "wf_ip j" and "protocol (m_address i) = protocol (m_address j)"
  shows "block i \<subseteq> block j \<longleftrightarrow>
    cyl (ip_width i) (ip_prefix i) (ip_bits i) \<subseteq> cyl (ip_width i) (ip_prefix j) (ip_bits j)"
proof
  assume sub: "block i \<subseteq> block j"
  show "cyl (ip_width i) (ip_prefix i) (ip_bits i) \<subseteq> cyl (ip_width i) (ip_prefix j) (ip_bits j)"
  proof
    fix xs assume xs: "xs \<in> cyl (ip_width i) (ip_prefix i) (ip_bits i)"
    then have "length xs = ip_width i"
      by (simp add: cyl_def)
    then obtain a where "valid_address a" "protocol a = protocol (m_address i)" "addr_bits a = xs"
      using addr_bits_surj wf_ipD(1) [OF assms(1)] by metis
    with xs assms have "a \<in> block i"
      by (simp add: block_cyl)
    with sub have "a \<in> block j"
      by blast
    with \<open>addr_bits a = xs\<close> assms show "xs \<in> cyl (ip_width i) (ip_prefix j) (ip_bits j)"
      by (simp add: block_cyl)
  qed
next
  assume "cyl (ip_width i) (ip_prefix i) (ip_bits i) \<subseteq> cyl (ip_width i) (ip_prefix j) (ip_bits j)"
  with assms show "block i \<subseteq> block j"
    by (auto simp: block_cyl)
qed

lemma block_protocol:
  "a \<in> block i \<Longrightarrow> protocol a = protocol (m_address i)"
  by (simp add: block_def)


section \<open>The operations on blocks\<close>

lemma contains_iff:
  assumes "wf_ip ip" and "valid_address a"
  shows "contains ip a \<longleftrightarrow> a \<in> block ip"
  using assms
  by (cases "m_address ip"; cases a)
    (auto simp: contains_def block_def wf_ip_def contains_v4_bits contains_v6_bits nat_le_iff)

lemma block_mem:
  "a \<in> block ip \<longleftrightarrow> valid_address a \<and> protocol a = protocol (m_address ip) \<and>
     take (ip_prefix ip) (ip_bits ip) = take (ip_prefix ip) (addr_bits a)"
  unfolding block_def mem_Collect_eq by (simp only: eq_commute [of "take (ip_prefix ip) (ip_bits ip)"])

lemma overlaps_iff:
  assumes i: "wf_ip i" and j: "wf_ip j"
  shows "overlaps i j \<longleftrightarrow> block i \<inter> block j \<noteq> {}"
proof (cases "protocol (m_address i) = protocol (m_address j)")
  case True
  note w = wf_ipD [OF i] wf_ipD [OF j]
  show ?thesis
  proof (cases "ip_prefix i < ip_prefix j")
    case less: True
    then have "m_prefixLength i < m_prefixLength j"
      using w by linarith
    then have "overlaps i j \<longleftrightarrow> m_address j \<in> block i"
      using w(5) by (simp add: overlaps_def contains_iff [OF i])
    also have "\<dots> \<longleftrightarrow> take (ip_prefix i) (ip_bits i) = take (ip_prefix i) (ip_bits j)"
      using w True by (simp add: block_mem)
    also have "\<dots> \<longleftrightarrow> block i \<inter> block j \<noteq> {}"
      using cyl_meet [of "ip_bits i" "ip_width i" "ip_bits j" "ip_prefix i" "ip_prefix j"] w less True
      by (simp add: block_Int_iff [OF i j True])
    finally show ?thesis .
  next
    case False
    then have "\<not> m_prefixLength i < m_prefixLength j"
      using w by linarith
    then have "overlaps i j \<longleftrightarrow> m_address i \<in> block j"
      using w(1) by (simp add: overlaps_def contains_iff [OF j])
    also have "\<dots> \<longleftrightarrow> take (ip_prefix j) (ip_bits j) = take (ip_prefix j) (ip_bits i)"
      using w True by (simp add: block_mem)
    also have "\<dots> \<longleftrightarrow> block j \<inter> block i \<noteq> {}"
      using cyl_meet [of "ip_bits j" "ip_width i" "ip_bits i" "ip_prefix j" "ip_prefix i"] w False True
      by (simp add: block_Int_iff [OF j i True [symmetric]])
    finally show ?thesis
      by (simp add: Int_commute)
  qed
next
  case False
  then have "\<not> overlaps i j"
    by (auto simp: overlaps_def contains_def)
  moreover have "block i \<inter> block j = {}"
    using False by (auto simp: block_def)
  ultimately show ?thesis
    by simp
qed

lemma subnetOf_iff:
  assumes i: "wf_ip i" and j: "wf_ip j"
  shows "subnetOf i j \<longleftrightarrow> block i \<subseteq> block j"
proof (cases "protocol (m_address i) = protocol (m_address j)")
  case True
  note w = wf_ipD [OF i] wf_ipD [OF j]
  have "m_prefixLength i < m_prefixLength j \<longleftrightarrow> \<not> ip_prefix j \<le> ip_prefix i"
    using w by linarith
  then have "subnetOf i j \<longleftrightarrow> ip_prefix j \<le> ip_prefix i \<and> m_address i \<in> block j"
    using w(1) True by (auto simp: subnetOf_def contains_iff [OF j])
  also have "\<dots> \<longleftrightarrow> ip_prefix j \<le> ip_prefix i \<and> take (ip_prefix j) (ip_bits j) = take (ip_prefix j) (ip_bits i)"
    using w True by (simp add: block_mem)
  also have "\<dots> \<longleftrightarrow> block i \<subseteq> block j"
    using cyl_subset [of "ip_bits j" "ip_width i" "ip_bits i" "ip_prefix j" "ip_prefix i"] w True
    by (simp add: block_subset_iff [OF i j True])
  finally show ?thesis .
next
  case False
  then have "\<not> subnetOf i j"
    by (simp add: subnetOf_def)
  moreover have "\<not> block i \<subseteq> block j"
    using False block_self [OF i] by (auto simp: block_def)
  ultimately show ?thesis
    by simp
qed

lemma contains_protocol: "contains ip a \<Longrightarrow> protocol a = protocol (m_address ip)"
  by (simp add: contains_def split: if_splits)

text \<open>Two blocks are disjoint, or one is in the other.\<close>

lemma block_nested:
  assumes i: "wf_ip i" and j: "wf_ip j" and "block i \<inter> block j \<noteq> {}"
  shows "block i \<subseteq> block j \<or> block j \<subseteq> block i"
proof -
  have "overlaps i j"
    using assms overlaps_iff by blast
  then have "subnetOf i j \<or> subnetOf j i"
    by (auto simp: overlaps_def subnetOf_def dest: contains_protocol split: if_splits)
  with i j subnetOf_iff show ?thesis
    by blast
qed

text \<open>The base address and the prefix are determined by the set of addresses.\<close>

lemma block_inject:
  assumes "canonical i" and "canonical j" and "block i = block j"
  shows "i = j"
proof -
  have i: "wf_ip i" and j: "wf_ip j"
    using assms(1,2) by (auto simp: canonical_def)
  have prot: "protocol (m_address i) = protocol (m_address j)"
    using block_self [OF i] unfolding assms(3) by (simp add: block_mem)
  note w = wf_ipD [OF i] wf_ipD [OF j]
  have "ip_prefix j \<le> ip_prefix i \<and> take (ip_prefix j) (ip_bits j) = take (ip_prefix j) (ip_bits i)"
    using cyl_subset [of "ip_bits j" "ip_width i" "ip_bits i" "ip_prefix j" "ip_prefix i"] w prot
      block_subset_iff [OF i j prot] unfolding assms(3) by simp
  moreover have "ip_prefix i \<le> ip_prefix j"
    using cyl_subset [of "ip_bits i" "ip_width i" "ip_bits j" "ip_prefix i" "ip_prefix j"] w prot
      block_subset_iff [OF j i prot [symmetric]] unfolding assms(3) by simp
  ultimately have p: "ip_prefix i = ip_prefix j"
    and t: "take (ip_prefix j) (ip_bits j) = take (ip_prefix j) (ip_bits i)"
    by auto
  have "ip_bits j = ip_bits i"
  proof (rule base_bits_eq [OF _ t])
    show "base_bits (ip_prefix j) (ip_bits j)"
      using assms(2) by (simp add: canonical_def)
    show "base_bits (ip_prefix j) (ip_bits i)"
      using assms(1) unfolding p [symmetric] by (simp add: canonical_def)
  qed (simp add: w(2,6) prot)
  then have "m_address i = m_address j"
    using addr_bits_inject [OF w(1,5) prot] by simp
  moreover have "m_prefixLength i = m_prefixLength j"
    using p w(4,8) by linarith
  ultimately show ?thesis
    by (cases i; cases j) simp
qed


section \<open>Splitting and subtracting blocks\<close>

fun upper :: "nat \<Rightarrow> host_address \<Rightarrow> host_address" where
  "upper p NullAddress = NullAddress"
| "upper p (IPv4 a) = IPv4 (upper_v4 p a)"
| "upper p (IPv6 a) = IPv6 (upper_v6 p a)"

lemma upper_valid:
  "valid_address a \<Longrightarrow> valid_address (upper p a)" "protocol (upper p a) = protocol a"
  by (cases a; simp)+

lemma upper_bits:
  "valid_address a \<Longrightarrow> p < protocol_width (protocol a) \<Longrightarrow>
   addr_bits (upper p a) = (addr_bits a)[p := True]"
  by (cases a) (simp_all add: upper_v4_bits upper_v6_bits)

definition lower_half :: "IPAddress \<Rightarrow> IPAddress" where
  "lower_half ip = ip\<lparr>m_prefixLength := m_prefixLength ip + 1\<rparr>"

definition upper_half :: "IPAddress \<Rightarrow> IPAddress" where
  "upper_half ip = \<lparr>m_address = upper (ip_prefix ip) (m_address ip), m_prefixLength = m_prefixLength ip + 1\<rparr>"

lemma subnets_halves:
  assumes "wf_ip ip" and "ip_prefix ip < ip_width ip"
  shows "subnets ip = Inr [lower_half ip, upper_half ip]"
  using assms
  by (cases "m_address ip"; cases ip)
    (auto simp: subnets_def Let_def wf_ip_def IPAddress_prefix_def lower_half_def upper_half_def)

lemma halves_simps:
  assumes "wf_ip ip" and "ip_prefix ip < ip_width ip"
  shows "ip_prefix (lower_half ip) = Suc (ip_prefix ip)" "ip_prefix (upper_half ip) = Suc (ip_prefix ip)"
    and "ip_bits (lower_half ip) = ip_bits ip"
    and "ip_bits (upper_half ip) = (ip_bits ip)[ip_prefix ip := True]"
    and "protocol (m_address (lower_half ip)) = protocol (m_address ip)"
    and "protocol (m_address (upper_half ip)) = protocol (m_address ip)"
    and "wf_ip (lower_half ip)" "wf_ip (upper_half ip)"
  using assms
  by (auto simp: lower_half_def upper_half_def wf_ip_def upper_valid upper_bits nat_add_distrib
      zless_nat_eq_int_zless)

lemma halves_canonical:
  assumes "canonical ip" and "ip_prefix ip < ip_width ip"
  shows "canonical (lower_half ip)" and "canonical (upper_half ip)"
proof -
  have wf: "wf_ip ip" and base: "base_bits (ip_prefix ip) (ip_bits ip)"
    using assms(1) by (auto simp: canonical_def)
  have len: "ip_prefix ip < length (ip_bits ip)"
    using assms(2) wf_ipD(2) [OF wf] by simp
  note h = halves_simps [OF wf assms(2)]
  show "canonical (lower_half ip)"
    unfolding canonical_def h using h(7) base_bits_update_False(2) [OF base len] by simp
  show "canonical (upper_half ip)"
    unfolding canonical_def h using h(8) base_bits_update_True [OF base len] by simp
qed

lemma halves_block:
  assumes "canonical ip" and "ip_prefix ip < ip_width ip"
  shows "block ip = block (lower_half ip) \<union> block (upper_half ip)"
    and "block (lower_half ip) \<inter> block (upper_half ip) = {}"
proof -
  have wf: "wf_ip ip" and base: "base_bits (ip_prefix ip) (ip_bits ip)"
    using assms(1) by (auto simp: canonical_def)
  note h = halves_simps [OF wf assms(2)] and len = wf_ipD(2) [OF wf]
  have low: "(ip_bits ip)[ip_prefix ip := False] = ip_bits ip"
    using base_bits_update_False(1) [OF base] assms(2) len by simp
  note c = cyl_halves [OF len assms(2), unfolded low] cyl_halves_disjoint [OF len assms(2), unfolded low]
  have "a \<in> block ip \<longleftrightarrow> a \<in> block (lower_half ip) \<union> block (upper_half ip)" for a
    unfolding Un_iff block_cyl [OF wf] block_cyl [OF h(7)] block_cyl [OF h(8)] h c(1) by blast
  then show "block ip = block (lower_half ip) \<union> block (upper_half ip)"
    by blast
  have "\<not> (a \<in> block (lower_half ip) \<and> a \<in> block (upper_half ip))" for a
    unfolding block_cyl [OF h(7)] block_cyl [OF h(8)] h using c(2) by blast
  then show "block (lower_half ip) \<inter> block (upper_half ip) = {}"
    by blast
qed

text \<open>A block strictly inside another is inside one of its halves.\<close>

lemma strict_subset_room:
  assumes i: "canonical i" and j: "canonical j" and sub: "block i \<subseteq> block j" and "i \<noteq> j"
  shows "ip_prefix j < ip_width j"
    and "block i \<subseteq> block (lower_half j) \<or> block i \<subseteq> block (upper_half j)"
proof -
  have wi: "wf_ip i" and wj: "wf_ip j"
    using i j by (auto simp: canonical_def)
  have prot: "protocol (m_address i) = protocol (m_address j)"
    using block_self [OF wi] sub by (auto dest: block_protocol)
  have neq: "block i \<noteq> block j"
    using block_inject [OF i j] \<open>i \<noteq> j\<close> by blast
  note w = wf_ipD [OF wi] wf_ipD [OF wj]
  note sub_iff = cyl_subset [of "ip_bits j" "ip_width j" "ip_bits i" "ip_prefix j" "ip_prefix i"]
    cyl_subset [of "ip_bits i" "ip_width j" "ip_bits j" "ip_prefix i" "ip_prefix j"]
  have le: "ip_prefix j \<le> ip_prefix i" and t: "take (ip_prefix j) (ip_bits j) = take (ip_prefix j) (ip_bits i)"
    using sub sub_iff(1) w prot block_subset_iff [OF wi wj prot] by simp_all
  have "ip_prefix i \<noteq> ip_prefix j"
  proof
    assume eq: "ip_prefix i = ip_prefix j"
    have "block j \<subseteq> block i"
      unfolding block_subset_iff [OF wj wi prot [symmetric]]
      using sub_iff(2) w t prot unfolding eq by simp
    with sub neq show False
      by blast
  qed
  with le w(3) prot show room: "ip_prefix j < ip_width j"
    by simp
  note h = halves_simps [OF wj room] and u = halves_block [OF j room]
  have pi: "ip_prefix i \<ge> Suc (ip_prefix j)"
    using le \<open>ip_prefix i \<noteq> ip_prefix j\<close> by simp
  have "m_address i \<in> block (lower_half j) \<or> m_address i \<in> block (upper_half j)"
    using block_self [OF wi] sub u(1) by blast
  then have "subnetOf i (lower_half j) \<or> subnetOf i (upper_half j)"
  proof
    assume "m_address i \<in> block (lower_half j)"
    then have "subnetOf i (lower_half j)"
      using pi h(1) prot w(1) wf_ipD(4) [OF h(7)] w(4)
      by (auto simp: subnetOf_def contains_iff [OF h(7)] h(5))
    then show ?thesis ..
  next
    assume "m_address i \<in> block (upper_half j)"
    then have "subnetOf i (upper_half j)"
      using pi h(2) prot w(1) wf_ipD(4) [OF h(8)] w(4)
      by (auto simp: subnetOf_def contains_iff [OF h(8)] h(6))
    then show ?thesis ..
  qed
  then show "block i \<subseteq> block (lower_half j) \<or> block i \<subseteq> block (upper_half j)"
    using subnetOf_iff [OF wi h(7)] subnetOf_iff [OF wi h(8)] by blast
qed


text \<open>
  The loop, run on the two halves of a block: it collects disjoint blocks that make up what is
  left of the halves without \<open>ip\<close>.
\<close>

definition adds_blocks :: "ip_error + IPAddress list \<Rightarrow> IPAddress list \<Rightarrow> host_address set \<Rightarrow> bool" where
  "adds_blocks r acc S \<longleftrightarrow>
    (\<exists>rs. r = Inr (acc @ rs) \<and> list_all canonical rs \<and> disjoint_blocks rs \<and> blocks rs = S)"

lemma adds_blocks_last: "canonical t \<Longrightarrow> adds_blocks (Inr (acc @ [t])) acc (block t)"
  unfolding adds_blocks_def by (intro exI [of _ "[t]"]) (simp add: block_simps)

lemma adds_blocks_extend:
  assumes "adds_blocks r (acc @ [t]) S" and "canonical t" and "block t \<inter> S = {}"
  shows "adds_blocks r acc (block t \<union> S)"
proof -
  obtain rs where "r = Inr ((acc @ [t]) @ rs)" "list_all canonical rs" "disjoint_blocks rs" "blocks rs = S"
    using assms(1) by (auto simp: adds_blocks_def)
  with assms(2,3) show ?thesis
    unfolding adds_blocks_def by (intro exI [of _ "t # rs"]) (simp add: block_simps)
qed

lemma exclude_loop_unfold:
  "l = ip \<Longrightarrow> exclude_loop [l, u] ip acc = Inr (acc @ [u])"
  "l \<noteq> ip \<Longrightarrow> u = ip \<Longrightarrow> exclude_loop [l, u] ip acc = Inr (acc @ [l])"
  "l \<noteq> ip \<Longrightarrow> u \<noteq> ip \<Longrightarrow> subnetOf ip l \<Longrightarrow> subnets l = Inr sn \<Longrightarrow>
   exclude_loop [l, u] ip acc = exclude_loop sn ip (acc @ [u])"
  "l \<noteq> ip \<Longrightarrow> u \<noteq> ip \<Longrightarrow> \<not> subnetOf ip l \<Longrightarrow> subnetOf ip u \<Longrightarrow> subnets u = Inr sn \<Longrightarrow>
   exclude_loop [l, u] ip acc = exclude_loop sn ip (acc @ [l])"
  by (subst exclude_loop.simps, simp)+

lemma exclude_loop_spec:
  assumes "canonical l" and "canonical u" and ip: "canonical ip" and "block l \<inter> block u = {}"
    and "block ip \<subseteq> block l \<or> block ip \<subseteq> block u"
  shows "adds_blocks (exclude_loop [l, u] ip acc) acc ((block l \<union> block u) - block ip)"
  using assms(1,2,4,5)
proof (induction "loop_room [l, u]" arbitrary: l u acc rule: less_induct)
  case less
  have wf: "wf_ip l" "wf_ip u" "wf_ip ip"
    using less.prems ip by (auto simp: canonical_def)
  have inner: "adds_blocks (exclude_loop [lower_half s, upper_half s] ip (acc @ [t])) (acc @ [t])
      (block s - block ip)" "subnets s = Inr [lower_half s, upper_half s]"
    if s: "canonical s" "s \<in> {l, u}" "block ip \<subseteq> block s" "ip \<noteq> s" for s t
  proof -
    note half = strict_subset_room [OF ip s(1,3,4)]
    show sn: "subnets s = Inr [lower_half s, upper_half s]"
      using s(2) wf(1,2) by (intro subnets_halves half(1)) auto
    have "loop_room [lower_half s, upper_half s] < loop_room [l, u]"
      using s(2) sn subnets_loop_room by blast
    from less.hyps [OF this halves_canonical [OF s(1) half(1)] halves_block(2) [OF s(1) half(1)] half(2)]
    show "adds_blocks (exclude_loop [lower_half s, upper_half s] ip (acc @ [t])) (acc @ [t])
        (block s - block ip)"
      by (simp add: halves_block(1) [OF s(1) half(1), symmetric])
  qed
  have rest: "l = ip \<Longrightarrow> (block l \<union> block u) - block ip = block u"
      "u = ip \<Longrightarrow> (block l \<union> block u) - block ip = block l"
      "block ip \<subseteq> block l \<Longrightarrow> (block l \<union> block u) - block ip = block u \<union> (block l - block ip)"
      "block ip \<subseteq> block u \<Longrightarrow> (block l \<union> block u) - block ip = block l \<union> (block u - block ip)"
    using less.prems(3) by blast+
  consider "l = ip" | "l \<noteq> ip" "u = ip" | "l \<noteq> ip" "u \<noteq> ip" "block ip \<subseteq> block l"
    | "l \<noteq> ip" "u \<noteq> ip" "\<not> block ip \<subseteq> block l" "block ip \<subseteq> block u"
    using less.prems(4) by blast
  then show ?case
  proof cases
    case 3
    then show ?thesis
      using less.prems(3) subnetOf_iff [OF wf(3,1)] inner(1) [OF less.prems(1), of u] inner(2) [OF less.prems(1)]
      by (auto simp: rest(3) exclude_loop_unfold(3) intro!: adds_blocks_extend less.prems(2))
  next
    case 4
    then show ?thesis
      using less.prems(3) subnetOf_iff [OF wf(3,1)] subnetOf_iff [OF wf(3,2)]
        inner(1) [OF less.prems(2), of l] inner(2) [OF less.prems(2)]
      by (auto simp: rest(4) exclude_loop_unfold(4) intro!: adds_blocks_extend less.prems(1))
  qed (use less.prems(1,2) rest(1,2) in \<open>simp_all add: exclude_loop_unfold adds_blocks_last\<close>)
qed

lemma excludeAddresses_spec:
  assumes "canonical self" and "canonical ip" and "block ip \<subseteq> block self" and "ip \<noteq> self"
  shows "\<exists>rs. excludeAddresses self ip = Inr rs \<and> list_all canonical rs \<and> disjoint_blocks rs \<and>
    blocks rs = block self - block ip"
proof -
  have wf: "wf_ip self"
    using assms(1) by (simp add: canonical_def)
  note half = strict_subset_room [OF assms(2,1,3,4)]
  note blk = halves_block [OF assms(1) half(1)]
  show ?thesis
    using exclude_loop_spec [OF halves_canonical [OF assms(1) half(1)] assms(2) blk(2) half(2), of "[]"]
      subnets_halves [OF wf half(1)] blk(1)
    by (simp add: excludeAddresses_def adds_blocks_def)
qed

lemma exclude_each_spec:
  assumes "canonical ex" and "list_all canonical ips"
  shows "\<exists>rs. exclude_each ex acc ips = Inr (acc @ rs) \<and> list_all canonical rs \<and>
    blocks rs = blocks ips - block ex \<and> (disjoint_blocks ips \<longrightarrow> disjoint_blocks rs)"
  using assms(2)
proof (induction ips arbitrary: acc)
  case Nil
  then show ?case
    by (simp add: block_simps)
next
  case (Cons ip ips)
  have can: "canonical ip" and wf: "wf_ip ip" "wf_ip ex"
    using Cons.prems assms(1) by (auto simp: canonical_def)
  have "\<exists>range. (\<forall>acc. exclude_each ex acc (ip # ips) = exclude_each ex (acc @ range) ips) \<and>
      list_all canonical range \<and> disjoint_blocks range \<and> blocks range = block ip - block ex"
  proof (cases "overlaps ip ex")
    case False
    with overlaps_iff [OF wf] can show ?thesis
      by (intro exI [of _ "[ip]"]) (auto simp: block_simps)
  next
    case over: True
    show ?thesis
    proof (cases "subnetOf ex ip \<and> ex \<noteq> ip")
      case True
      with subnetOf_iff [OF wf(2,1)] excludeAddresses_spec [OF can assms(1)]
      obtain range where "excludeAddresses ip ex = Inr range" "list_all canonical range"
        "disjoint_blocks range" "blocks range = block ip - block ex"
        by blast
      with over True show ?thesis
        by (intro exI [of _ range]) simp
    next
      case False
      have "block ip \<subseteq> block ex"
        using over False overlaps_iff [OF wf] subnetOf_iff [OF wf(2,1)] block_nested [OF wf] by blast
      with over False show ?thesis
        by (intro exI [of _ "[]"]) (auto simp: block_simps)
    qed
  qed
  then obtain range where range: "\<And>acc. exclude_each ex acc (ip # ips) = exclude_each ex (acc @ range) ips"
    "list_all canonical range" "disjoint_blocks range" "blocks range = block ip - block ex"
    by blast
  obtain rs where rs: "exclude_each ex (acc @ range) ips = Inr ((acc @ range) @ rs)"
    "list_all canonical rs" "blocks rs = blocks ips - block ex"
    "disjoint_blocks ips \<longrightarrow> disjoint_blocks rs"
    using Cons.IH [of "acc @ range"] Cons.prems by auto
  have "disjoint_blocks (ip # ips) \<longrightarrow> disjoint_blocks (range @ rs)"
    using range rs by (auto simp: block_simps)
  with range rs show ?case
    by (intro exI [of _ "range @ rs"]) (auto simp: block_simps simp del: exclude_each.simps)
qed

lemma excludeAddresses_list_spec:
  assumes "list_all canonical ips" and "list_all canonical exs"
  shows "\<exists>rs. excludeAddresses_list ips exs = Inr rs \<and> list_all canonical rs \<and>
    blocks rs = blocks ips - blocks exs \<and> (disjoint_blocks ips \<longrightarrow> disjoint_blocks rs)"
  using assms
proof (induction exs arbitrary: ips)
  case Nil
  then show ?case
    by (simp add: block_simps)
next
  case (Cons ex exs)
  obtain rs where rs: "exclude_each ex [] ips = Inr rs" "list_all canonical rs"
    "blocks rs = blocks ips - block ex" "disjoint_blocks ips \<longrightarrow> disjoint_blocks rs"
    using exclude_each_spec [of ex ips "[]"] Cons.prems by auto
  with Cons.IH [OF rs(2)] Cons.prems show ?case
    by (auto simp: block_simps)
qed


lemma masks_bits:
  assumes "wf_ip ip"
  shows "\<exists>nm hm. netmask ip = Inr nm \<and> hostmask ip = Inr hm \<and>
      valid_address nm \<and> valid_address hm \<and> valid_address (broadcastAddress ip) \<and>
      protocol nm = ip_type ip \<and> protocol hm = ip_type ip \<and> protocol (broadcastAddress ip) = ip_type ip \<and>
      addr_bits nm = replicate (ip_prefix ip) True @ replicate (ip_width ip - ip_prefix ip) False \<and>
      addr_bits hm = replicate (ip_prefix ip) False @ replicate (ip_width ip - ip_prefix ip) True \<and>
      addr_bits (broadcastAddress ip) =
        take (ip_prefix ip) (ip_bits ip) @ replicate (ip_width ip - ip_prefix ip) True"
  using assms
  by (cases "m_address ip")
    (simp_all add: wf_ip_def netmask_def hostmask_def broadcastAddress_def ip_type_def nat_le_iff
      netmask_v4_bits hostmask_v4_bits broadcast_v4_bits netmask_v6_bits hostmask_v6_bits broadcast_v6_bits)

lemma map2_or_replicate:
  "p \<le> length xs \<Longrightarrow> map2 (\<or>) xs (replicate p False @ replicate (length xs - p) True) =
     take p xs @ replicate (length xs - p) True"
  by (rule nth_equalityI) (auto simp: nth_append)

section \<open>Properties\<close>

text \<open>
  C1. \<open>excludeAddresses\<close> subtracts blocks: from lists of base addresses with prefixes it ends without an
  error, and the blocks it returns, again given by base addresses, together have exactly the
  addresses of the first list that are in no block of the second. If the blocks of the first list
  are disjoint, so are those of the result.
\<close>

theorem excludeAddresses_list_correct:
  assumes "list_all canonical sourceList" and "list_all canonical excludeList"
  shows "\<exists>rs. excludeAddresses_list sourceList excludeList = Inr rs \<and> list_all canonical rs \<and>
    blocks rs = blocks sourceList - blocks excludeList \<and>
    (disjoint_blocks sourceList \<longrightarrow> disjoint_blocks rs)"
  by (rule excludeAddresses_list_spec [OF assms])

definition demo_block4 :: "32 word \<Rightarrow> int \<Rightarrow> IPAddress" where
  "demo_block4 a p = \<lparr>m_address = IPv4 a, m_prefixLength = p\<rparr>"

definition demo_block6 :: "8 word list \<Rightarrow> int \<Rightarrow> IPAddress" where
  "demo_block6 a p = \<lparr>m_address = IPv6 (a @ replicate (16 - length a) 0), m_prefixLength = p\<rparr>"

lemmas canonical_eval = canonical_def wf_ip_def demo_block4_def demo_block6_def base_bits_def
  byte_bits_def word_bits_def upt_rec_numeral upt_rec

lemmas test_eval = demo_block4_def demo_block6_def contains_def contains_v4_def contains_v6_def
  overlaps_def subnetOf_def Let_def

theorem excludeAddresses_list_correct_witness:
  "\<exists>rs. excludeAddresses_list [demo_block4 0 0] [demo_block4 0x0A000000 8, demo_block4 0xC0A80100 24] = Inr rs \<and>
    disjoint_blocks rs \<and>
    blocks rs = blocks [demo_block4 0 0] - blocks [demo_block4 0x0A000000 8, demo_block4 0xC0A80100 24]"
proof -
  have "list_all canonical [demo_block4 0 0]"
    "list_all canonical [demo_block4 0x0A000000 8, demo_block4 0xC0A80100 24]"
    by (simp_all add: canonical_eval bit_numeral_rec drop_Cons')
  moreover have "disjoint_blocks [demo_block4 0 0]"
    by (simp add: block_simps blocks_def)
  ultimately show ?thesis
    using excludeAddresses_list_correct by blast
qed

text \<open>
  C12. Taking a block out of a block that strictly contains it, the loop of the member function ends
  without running into its assertions or beyond its list, with disjoint blocks for the rest.
\<close>

theorem excludeAddresses_correct:
  assumes "canonical self" and "canonical ip" and "subnetOf ip self" and "ip \<noteq> self"
  shows "\<exists>rs. excludeAddresses self ip = Inr rs \<and> list_all canonical rs \<and> disjoint_blocks rs \<and>
    blocks rs = block self - block ip"
  using excludeAddresses_spec assms subnetOf_iff by (simp add: canonical_def)

theorem excludeAddresses_correct_witness:
  "\<exists>rs. excludeAddresses (demo_block6 [] 0) (demo_block6 [0xFE, 0x80] 10) = Inr rs \<and>
    blocks rs = block (demo_block6 [] 0) - block (demo_block6 [0xFE, 0x80] 10)"
proof -
  have "canonical (demo_block6 [] 0)" "canonical (demo_block6 [0xFE, 0x80] 10)"
    by (simp_all add: canonical_eval numeral_eq_Suc)
  moreover have "subnetOf (demo_block6 [0xFE, 0x80] 10) (demo_block6 [] 0)"
    "demo_block6 [0xFE, 0x80] 10 \<noteq> demo_block6 [] 0"
    by (simp_all add: test_eval)
  ultimately have "\<exists>rs. excludeAddresses (demo_block6 [] 0) (demo_block6 [0xFE, 0x80] 10) = Inr rs \<and>
      list_all canonical rs \<and> disjoint_blocks rs \<and>
      blocks rs = block (demo_block6 [] 0) - block (demo_block6 [0xFE, 0x80] 10)"
    by (rule excludeAddresses_correct)
  then show ?thesis
    by blast
qed

text \<open>
  C16. The three tests mean what they say on the sets of addresses: \<open>contains\<close> is membership,
  \<open>overlaps\<close> that the sets meet and \<open>subnetOf\<close> inclusion, for both kinds of address.
\<close>

theorem block_tests_correct:
  assumes "wf_ip ip" and "wf_ip other" and "valid_address a"
  shows "(contains ip a \<longleftrightarrow> a \<in> block ip) \<and>
    (overlaps ip other \<longleftrightarrow> block ip \<inter> block other \<noteq> {}) \<and>
    (subnetOf ip other \<longleftrightarrow> block ip \<subseteq> block other)"
  using assms by (simp add: contains_iff overlaps_iff subnetOf_iff)

theorem block_tests_correct_witness:
  "IPv4 0x0A010203 \<in> block (demo_block4 0x0A000000 8) \<and>
   block (demo_block4 0x0A000000 8) \<inter> block (demo_block4 0x0B000000 8) = {} \<and>
   \<not> block (demo_block4 0x0A000000 8) \<subseteq> block (demo_block4 0x0B000000 8)"
proof -
  have "wf_ip (demo_block4 0x0A000000 8)" "wf_ip (demo_block4 0x0B000000 8)" "valid_address (IPv4 0x0A010203)"
    by (simp_all add: wf_ip_def demo_block4_def)
  note tests = block_tests_correct [OF this]
  have "contains (demo_block4 0x0A000000 8) (IPv4 0x0A010203)"
    "\<not> overlaps (demo_block4 0x0A000000 8) (demo_block4 0x0B000000 8)"
    "\<not> subnetOf (demo_block4 0x0A000000 8) (demo_block4 0x0B000000 8)"
    by (simp_all add: test_eval)
  with tests show ?thesis
    by simp
qed

text \<open>
  C17. The mask of a block marks the bits of its prefix, the host mask the others, and the broadcast
  address is the address with the host mask or-ed in, which lies in the block. None of these
  functions fails on a well-formed block.
\<close>

theorem masks_correct:
  assumes "wf_ip ip"
  shows "\<exists>nm hm. netmask ip = Inr nm \<and> hostmask ip = Inr hm \<and>
    addr_bits nm = replicate (ip_prefix ip) True @ replicate (ip_width ip - ip_prefix ip) False \<and>
    addr_bits hm = map Not (addr_bits nm) \<and>
    addr_bits (broadcastAddress ip) = map2 (\<or>) (ip_bits ip) (addr_bits hm) \<and>
    contains ip (broadcastAddress ip)"
proof -
  note w = wf_ipD [OF assms]
  obtain nm hm where m: "netmask ip = Inr nm" "hostmask ip = Inr hm"
    "addr_bits nm = replicate (ip_prefix ip) True @ replicate (ip_width ip - ip_prefix ip) False"
    "addr_bits hm = replicate (ip_prefix ip) False @ replicate (ip_width ip - ip_prefix ip) True"
    "valid_address (broadcastAddress ip)" "protocol (broadcastAddress ip) = ip_type ip"
    "addr_bits (broadcastAddress ip) =
        take (ip_prefix ip) (ip_bits ip) @ replicate (ip_width ip - ip_prefix ip) True"
    using masks_bits [OF assms] by blast
  have "addr_bits (broadcastAddress ip) = map2 (\<or>) (ip_bits ip) (addr_bits hm)"
    using map2_or_replicate [of "ip_prefix ip" "ip_bits ip"] w m(4,7) by simp
  moreover have "contains ip (broadcastAddress ip)"
    using m(5-7) w by (simp add: contains_iff [OF assms] block_mem ip_type_def)
  ultimately show ?thesis
    using m(1-4) by (intro exI [of _ nm] exI [of _ hm]) simp
qed

theorem masks_correct_witness:
  "\<exists>nm. netmask (demo_block6 [0x20, 0x01] 19) = Inr nm \<and>
     addr_bits nm = replicate 19 True @ replicate 109 False \<and>
     contains (demo_block6 [0x20, 0x01] 19) (broadcastAddress (demo_block6 [0x20, 0x01] 19))"
proof -
  have wf: "wf_ip (demo_block6 [0x20, 0x01] 19)"
    by (simp add: wf_ip_def demo_block6_def)
  have "ip_prefix (demo_block6 a 19) = 19" "ip_width (demo_block6 a 19) - 19 = 109" for a
    by (simp_all add: demo_block6_def)
  with masks_correct [OF wf] show ?thesis
    by metis
qed

text \<open>
  An address with bits set after its prefix is outside the contract of \<open>excludeAddresses\<close>. Its two
  subnets coincide, so a block that it contains may be in neither, and the loop reaches
  \<open>Q_ASSERT(false)\<close>, without which it never ends.
\<close>

theorem excludeAddresses_host_bits:
  "subnetOf (demo_block4 0x0A000000 32) (demo_block4 0x0A000001 31) \<and>
   excludeAddresses (demo_block4 0x0A000001 31) (demo_block4 0x0A000000 32) = Inl AssertFailed"
  by (subst excludeAddresses_def, subst exclude_loop.simps)
    (simp add: test_eval subnets_def IPAddress_prefix_def upper_v4_def)


end
