(* ===== verification/InterfaceConfig.thy ===== *)
theory InterfaceConfig
  imports Json IPAddress "HOL-Library.Multiset"
begin

text \<open>
  The configuration of a tunnel: \<open>client/daemon/interfaceconfig.h\<close> and \<open>.cpp\<close>, and its reading from a
  JSON message, \<open>Daemon::parseConfig\<close> of \<open>client/daemon/daemon.cpp\<close>. The lemmas relate the two
  directions and say what the reader guarantees of a configuration it accepts.
\<close>

section \<open>Definitions\<close>

datatype HopType = SingleHop | MultiHopEntry | MultiHopExit

text \<open>The order of the enumeration, in which \<open>QMap\<close> keeps its keys.\<close>

fun hop_value :: "HopType \<Rightarrow> nat" where
  "hop_value SingleHop = 0"
| "hop_value MultiHopEntry = 1"
| "hop_value MultiHopExit = 2"

instantiation HopType :: linorder
begin

definition less_eq_HopType :: "HopType \<Rightarrow> HopType \<Rightarrow> bool" where
  "a \<le> b \<longleftrightarrow> hop_value a \<le> hop_value b"

definition less_HopType :: "HopType \<Rightarrow> HopType \<Rightarrow> bool" where
  "a < b \<longleftrightarrow> hop_value a < hop_value b"

instance
proof
  fix a b :: HopType
  assume "a \<le> b" "b \<le> a"
  then show "a = b"
    by (cases a; cases b) (simp_all add: less_eq_HopType_def)
qed (auto simp: less_eq_HopType_def less_HopType_def)

end

definition all_hops :: "HopType list" where
  "all_hops = [SingleHop, MultiHopEntry, MultiHopExit]"

text \<open>\<open>QMetaEnum::valueToKey\<close> and \<open>keyToValue\<close> on this enumeration.\<close>

fun hop_key :: "HopType \<Rightarrow> string" where
  "hop_key SingleHop = ''SingleHop''"
| "hop_key MultiHopEntry = ''MultiHopEntry''"
| "hop_key MultiHopExit = ''MultiHopExit''"

definition hop_of_key :: "string \<Rightarrow> HopType option" where
  "hop_of_key s = find (\<lambda>h. hop_key h = s) all_hops"

record InterfaceConfig =
  m_hopType :: HopType
  m_privateKey :: qstring
  m_deviceIpv4Address :: qstring
  m_deviceIpv6Address :: qstring
  m_serverIpv4Gateway :: qstring
  m_serverIpv6Gateway :: qstring
  m_serverPublicKey :: qstring
  m_serverIpv4AddrIn :: qstring
  m_serverPskKey :: qstring
  m_serverIpv6AddrIn :: qstring
  m_dnsServer :: qstring
  m_serverPort :: int
  m_deviceMTU :: int
  m_allowedIPAddressRanges :: "IPAddress list"
  m_excludedAddresses :: "string list"
  m_vpnDisabledApps :: "string list"
  m_killSwitchEnabled :: bool
  m_junkPacketCount :: qstring
  m_junkPacketMinSize :: qstring
  m_junkPacketMaxSize :: qstring
  m_initPacketJunkSize :: qstring
  m_responsePacketJunkSize :: qstring
  m_initPacketMagicHeader :: qstring
  m_responsePacketMagicHeader :: qstring
  m_underloadPacketMagicHeader :: qstring
  m_transportPacketMagicHeader :: qstring

text \<open>A \<open>QJsonValue\<close> made from a \<open>QString\<close> is a string, also for the null string.\<close>

definition range_json :: "host_address_text \<Rightarrow> IPAddress \<Rightarrow> json" where
  "range_json qt i = JObject
    (json_insert ''isIpv6'' (JBool (ip_type i = IPv6Protocol))
    (json_insert ''range'' (JDouble (of_int (m_prefixLength i)))
    (json_insert ''address'' (JString (printAddress qt (m_address i))) [])))"

definition toJson :: "host_address_text \<Rightarrow> InterfaceConfig \<Rightarrow> json_object" where
  "toJson qt c =
    (let str = (\<lambda>q. JString (qs_text q));
         j1 = json_insert ''deviceMTU'' (JDouble (of_int (m_deviceMTU c)))
             (json_insert ''serverPort'' (JDouble (of_int (m_serverPort c)))
             (json_insert ''serverIpv6AddrIn'' (str (m_serverIpv6AddrIn c))
             (json_insert ''serverIpv4AddrIn'' (str (m_serverIpv4AddrIn c))
             (json_insert ''serverPskKey'' (str (m_serverPskKey c))
             (json_insert ''serverPublicKey'' (str (m_serverPublicKey c))
             (json_insert ''deviceIpv6Address'' (str (m_deviceIpv6Address c))
             (json_insert ''deviceIpv4Address'' (str (m_deviceIpv4Address c))
             (json_insert ''privateKey'' (str (m_privateKey c))
             (json_insert ''hopType'' (JString (hop_key (m_hopType c))) [])))))))));
         j2 = (if m_hopType c = MultiHopExit \<or> m_hopType c = SingleHop then
                 json_insert ''dnsServer'' (str (m_dnsServer c))
                (json_insert ''serverIpv6Gateway'' (str (m_serverIpv6Gateway c))
                (json_insert ''serverIpv4Gateway'' (str (m_serverIpv4Gateway c)) j1))
               else j1)
     in json_insert ''vpnDisabledApps'' (JArray (map JString (m_vpnDisabledApps c)))
       (json_insert ''excludedAddresses'' (JArray (map JString (m_excludedAddresses c)))
       (json_insert ''allowedIPAddressRanges'' (JArray (map (range_json qt) (m_allowedIPAddressRanges c))) j2)))"

definition join :: "string \<Rightarrow> string list \<Rightarrow> string" where
  "join sep ss = (case ss of [] \<Rightarrow> [] | s # r \<Rightarrow> s @ concat (map (\<lambda>t. sep @ t) r))"

abbreviation nl :: string where
  "nl \<equiv> [CHR 0x0A]"

definition conf_line :: "string \<Rightarrow> string \<Rightarrow> string" where
  "conf_line key v = key @ '' = '' @ v @ nl"

definition opt_line :: "string \<Rightarrow> qstring \<Rightarrow> string" where
  "opt_line key v = (case v of None \<Rightarrow> [] | Some s \<Rightarrow> conf_line key s)"

definition wg_addresses :: "InterfaceConfig \<Rightarrow> string list" where
  "wg_addresses c = List.map_filter id [m_deviceIpv4Address c, m_deviceIpv6Address c]"

definition wg_resolvers :: "InterfaceConfig \<Rightarrow> string list" where
  "wg_resolvers c = qs_text (m_dnsServer c) #
     (if qs_eq (m_dnsServer c) (m_serverIpv4Gateway c) then [qs_text (m_serverIpv6Gateway c)] else [])"

definition junk_entries :: "InterfaceConfig \<Rightarrow> (string \<times> qstring) list" where
  "junk_entries c =
     [(''Jc'', m_junkPacketCount c), (''JMin'', m_junkPacketMinSize c), (''JMax'', m_junkPacketMaxSize c),
      (''S1'', m_initPacketJunkSize c), (''S2'', m_responsePacketJunkSize c),
      (''H1'', m_initPacketMagicHeader c), (''H2'', m_responsePacketMagicHeader c),
      (''H3'', m_underloadPacketMagicHeader c), (''H4'', m_transportPacketMagicHeader c)]"

definition wg_content :: "host_address_text \<Rightarrow> (string \<times> string) list \<Rightarrow> InterfaceConfig \<Rightarrow> string" where
  "wg_content qt extra c =
     ''[Interface]'' @ nl @
     conf_line ''PrivateKey'' (qs_text (m_privateKey c)) @
     conf_line ''Address'' (join '', '' (wg_addresses c)) @
     (if m_deviceMTU c \<noteq> 0 then conf_line ''MTU'' (show_int (m_deviceMTU c)) else []) @
     (if m_dnsServer c \<noteq> None then conf_line ''DNS'' (join '', '' (wg_resolvers c)) else []) @
     concat (map (\<lambda>(key, v). opt_line key v) (junk_entries c)) @
     concat (map (\<lambda>(key, v). conf_line key v) extra) @
     nl @ ''[Peer]'' @ nl @
     conf_line ''PublicKey'' (qs_text (m_serverPublicKey c)) @
     conf_line ''Endpoint'' (qs_text (m_serverIpv4AddrIn c) @ '':'' @ show_int (m_serverPort c)) @
     conf_line ''AllowedIPs'' (join '', '' (map (ip_toString qt) (m_allowedIPAddressRanges c)))"

definition validated_fields :: "InterfaceConfig \<Rightarrow> qstring list" where
  "validated_fields c =
     [m_privateKey c, m_deviceIpv4Address c, m_deviceIpv6Address c, m_serverIpv4Gateway c,
      m_serverIpv6Gateway c, m_serverPublicKey c, m_serverIpv4AddrIn c, m_serverIpv6AddrIn c]"

definition toWgConf :: "host_address_text \<Rightarrow> (string \<times> string) list \<Rightarrow> InterfaceConfig \<Rightarrow> string" where
  "toWgConf qt extra c =
    (if list_ex (\<lambda>q. CHR 0x0A \<in> set (qs_text q)) (validated_fields c) then []
     else if wg_addresses c = [] then []
     else wg_content qt extra c)"

section \<open>Reading a configuration\<close>

text \<open>\<open>Daemon::parseStringList\<close>: the strings appended to the list, \<open>None\<close> where the code returns false.\<close>

fun json_strings :: "json list \<Rightarrow> string list option" where
  "json_strings [] = Some []"
| "json_strings (v # vs) = (case v of JString s \<Rightarrow> map_option (Cons s) (json_strings vs) | _ \<Rightarrow> None)"

definition parseStringList :: "json_object \<Rightarrow> string \<Rightarrow> string list \<Rightarrow> string list option" where
  "parseStringList obj name list =
    (if json_contains obj name then
       (case json_value obj name of
          JArray vs \<Rightarrow> map_option (\<lambda>ss. list @ ss) (json_strings vs)
        | _ \<Rightarrow> None)
     else Some list)"

text \<open>One element of the list of allowed ranges; the assertions of the constructor of \<open>IPAddress\<close> are
  not part of a release build.\<close>

definition parse_range :: "host_address_text \<Rightarrow> json \<Rightarrow> IPAddress option" where
  "parse_range qt i =
    (case i of
       JObject ipObj \<Rightarrow>
         (case json_value ipObj ''address'' of
            JString address \<Rightarrow>
              if \<not> is_JDouble (json_value ipObj ''range'') then None
              else if \<not> is_JBool (json_value ipObj ''isIpv6'') then None
              else Some \<lparr>m_address = parseAddress qt address,
                         m_prefixLength = json_toInt (json_value ipObj ''range'')\<rparr>
          | _ \<Rightarrow> None)
     | _ \<Rightarrow> None)"

fun parse_ranges :: "host_address_text \<Rightarrow> json list \<Rightarrow> IPAddress list option" where
  "parse_ranges qt [] = Some []"
| "parse_ranges qt (v # vs) =
    (case parse_range qt v of None \<Rightarrow> None | Some ip \<Rightarrow> map_option (Cons ip) (parse_ranges qt vs))"

text \<open>\<open>QVariant(QString).toBool\<close>: false for the empty text, \<open>0\<close> and \<open>false\<close>.\<close>

definition variant_toBool :: "qstring \<Rightarrow> bool" where
  "variant_toBool q \<longleftrightarrow> map lower_char (qs_text q) \<notin> {[], ''0'', ''false''}"

definition get_string :: "json_object \<Rightarrow> string \<Rightarrow> qstring option" where
  "get_string obj name = (case json_value obj name of JString s \<Rightarrow> Some (Some s) | _ \<Rightarrow> None)"

text \<open>A double is converted to an \<open>int\<close> by dropping its fraction. C++ leaves a result outside the range
  of \<open>int\<close> undefined; the model has the one of the x86 instruction.\<close>

definition get_double :: "json_object \<Rightarrow> string \<Rightarrow> int option" where
  "get_double obj name = (case json_value obj name of
     JDouble r \<Rightarrow> Some (if int_range (truncate_rat r) then truncate_rat r else - 2147483648)
   | _ \<Rightarrow> None)"

text \<open>The MTU, on Windows and elsewhere.\<close>

definition parse_mtu :: "bool \<Rightarrow> json_object \<Rightarrow> int" where
  "parse_mtu windows obj =
    (let mtu = toInt (qs_text (json_toString (json_value obj ''deviceMTU'')))
     in if \<not> json_contains obj ''deviceMTU'' \<or> mtu = 0 then 1420
        else if windows \<and> mtu < 1280 then 1280 else mtu)"

definition parse_dns :: "json_object \<Rightarrow> qstring option" where
  "parse_dns obj =
    (if \<not> json_contains obj ''dnsServer'' then Some None else get_string obj ''dnsServer'')"

definition parse_hop :: "json_object \<Rightarrow> HopType option" where
  "parse_hop obj =
    (if \<not> json_contains obj ''hopType'' then Some SingleHop
     else case json_value obj ''hopType'' of JString s \<Rightarrow> hop_of_key s | _ \<Rightarrow> None)"

text \<open>
  \<open>std::sort\<close> need not be stable: elements with equal keys come out in an order of its own. \<open>order\<close>
  stands for that choice, a rearrangement whose equal elements keep their places; every sorted
  rearrangement is the result for some \<open>order\<close>.
\<close>

definition std_sort :: "('a list \<Rightarrow> 'a list) \<Rightarrow> ('a \<Rightarrow> int) \<Rightarrow> 'a list \<Rightarrow> 'a list" where
  "std_sort order key xs = sort_key key (if mset (order xs) = mset xs then order xs else xs)"

text \<open>The junk fields keep their old value for a JSON null.\<close>

definition junk_field :: "json_object \<Rightarrow> string \<Rightarrow> qstring \<Rightarrow> qstring" where
  "junk_field obj name old = (if json_value obj name \<noteq> JNull then json_toString (json_value obj name) else old)"

definition parse_allowed ::
    "host_address_text \<Rightarrow> (IPAddress list \<Rightarrow> IPAddress list) \<Rightarrow> json_object \<Rightarrow> IPAddress list \<Rightarrow> IPAddress list option" where
  "parse_allowed qt order obj old =
    (case json_value obj ''allowedIPAddressRanges'' of
       JArray vs \<Rightarrow> map_option (\<lambda>ips. std_sort order (\<lambda>ip. - m_prefixLength ip) (old @ ips)) (parse_ranges qt vs)
     | _ \<Rightarrow> None)"

definition parseConfig ::
    "host_address_text \<Rightarrow> (IPAddress list \<Rightarrow> IPAddress list) \<Rightarrow> bool \<Rightarrow> json_object \<Rightarrow> InterfaceConfig \<Rightarrow>
     InterfaceConfig option" where
  "parseConfig qt order windows obj c =
    Option.bind (get_string obj ''privateKey'') (\<lambda>privateKey.
    Option.bind (get_string obj ''serverPublicKey'') (\<lambda>serverPublicKey.
    Option.bind (get_double obj ''serverPort'') (\<lambda>serverPort.
    let str = (\<lambda>name. json_toString (json_value obj name)) in
    if str ''deviceIpv4Address'' = None \<and> str ''deviceIpv6Address'' = None then None
    else if str ''serverIpv4AddrIn'' = None \<and> str ''serverIpv6AddrIn'' = None then None
    else
      Option.bind (parse_dns obj) (\<lambda>dns.
      Option.bind (parse_hop obj) (\<lambda>hop.
      Option.bind (parse_allowed qt order obj (m_allowedIPAddressRanges c)) (\<lambda>ranges.
      Option.bind (parseStringList obj ''excludedAddresses'' (m_excludedAddresses c)) (\<lambda>excluded.
      Option.bind (parseStringList obj ''vpnDisabledApps'' (m_vpnDisabledApps c)) (\<lambda>apps.
      Some \<lparr>m_hopType = hop, m_privateKey = privateKey,
        m_deviceIpv4Address = str ''deviceIpv4Address'', m_deviceIpv6Address = str ''deviceIpv6Address'',
        m_serverIpv4Gateway = str ''serverIpv4Gateway'', m_serverIpv6Gateway = str ''serverIpv6Gateway'',
        m_serverPublicKey = serverPublicKey, m_serverIpv4AddrIn = str ''serverIpv4AddrIn'',
        m_serverPskKey = str ''serverPskKey'', m_serverIpv6AddrIn = str ''serverIpv6AddrIn'',
        m_dnsServer = dns, m_serverPort = serverPort, m_deviceMTU = parse_mtu windows obj,
        m_allowedIPAddressRanges = ranges, m_excludedAddresses = excluded, m_vpnDisabledApps = apps,
        m_killSwitchEnabled = variant_toBool (str ''killSwitchOption''),
        m_junkPacketCount = junk_field obj ''Jc'' (m_junkPacketCount c),
        m_junkPacketMinSize = junk_field obj ''Jmin'' (m_junkPacketMinSize c),
        m_junkPacketMaxSize = junk_field obj ''Jmax'' (m_junkPacketMaxSize c),
        m_initPacketJunkSize = junk_field obj ''S1'' (m_initPacketJunkSize c),
        m_responsePacketJunkSize = junk_field obj ''S2'' (m_responsePacketJunkSize c),
        m_initPacketMagicHeader = junk_field obj ''H1'' (m_initPacketMagicHeader c),
        m_responsePacketMagicHeader = junk_field obj ''H2'' (m_responsePacketMagicHeader c),
        m_underloadPacketMagicHeader = junk_field obj ''H3'' (m_underloadPacketMagicHeader c),
        m_transportPacketMagicHeader = junk_field obj ''H4'' (m_transportPacketMagicHeader c)\<rparr>))))))))"

text \<open>A default-constructed configuration; the fields without an initialiser are indeterminate.\<close>

definition InterfaceConfig_default :: "HopType \<Rightarrow> bool \<Rightarrow> InterfaceConfig" where
  "InterfaceConfig_default hop kill =
    \<lparr>m_hopType = hop, m_privateKey = None, m_deviceIpv4Address = None, m_deviceIpv6Address = None,
     m_serverIpv4Gateway = None, m_serverIpv6Gateway = None, m_serverPublicKey = None,
     m_serverIpv4AddrIn = None, m_serverPskKey = None, m_serverIpv6AddrIn = None, m_dnsServer = None,
     m_serverPort = 0, m_deviceMTU = 1420, m_allowedIPAddressRanges = [], m_excludedAddresses = [],
     m_vpnDisabledApps = [], m_killSwitchEnabled = kill, m_junkPacketCount = None,
     m_junkPacketMinSize = None, m_junkPacketMaxSize = None, m_initPacketJunkSize = None,
     m_responsePacketJunkSize = None, m_initPacketMagicHeader = None, m_responsePacketMagicHeader = None,
     m_underloadPacketMagicHeader = None, m_transportPacketMagicHeader = None\<rparr>"

section \<open>Lemmas\<close>

lemma std_sort_mset [simp]: "mset (std_sort order key xs) = mset xs"
  by (simp add: std_sort_def)

lemma std_sort_sorted: "sorted (map key (std_sort order key xs))"
  by (simp add: std_sort_def)

lemma std_sort_any:
  assumes "mset ys = mset xs" and "sorted (map key ys)"
  shows "std_sort (\<lambda>_. ys) key xs = ys"
  using assms by (simp add: std_sort_def sort_key_id_if_sorted)

lemma std_sort_decreasing:
  "sorted_wrt (\<lambda>a b. m_prefixLength b \<le> m_prefixLength a) (std_sort order (\<lambda>ip. - m_prefixLength ip) ips)"
  using std_sort_sorted [of "\<lambda>ip. - m_prefixLength ip" order ips] by (simp add: sorted_map)

lemma all_hops: "h \<in> set all_hops" "sorted all_hops" "distinct all_hops"
  by (cases h) (simp_all add: all_hops_def less_eq_HopType_def)

lemma hop_of_key_hop_key [simp]: "hop_of_key (hop_key h) = Some h"
  by (cases h) (simp_all add: hop_of_key_def all_hops_def)

lemma hop_of_key_Some: "hop_of_key s = Some h \<Longrightarrow> s = hop_key h"
  by (auto simp: hop_of_key_def all_hops_def split: if_splits)

lemma json_strings_map [simp]: "json_strings (map JString ss) = Some ss"
  by (induction ss) simp_all

lemma parse_range_json:
  assumes "parseAddress qt (printAddress qt (m_address ip)) = m_address ip" and "int_range (m_prefixLength ip)"
  shows "parse_range qt (range_json qt ip) = Some ip"
  using assms by (simp add: parse_range_def range_json_def json_type_defs)

lemma parse_ranges_json:
  assumes "\<And>ip. ip \<in> set ips \<Longrightarrow> parseAddress qt (printAddress qt (m_address ip)) = m_address ip"
    and "\<And>ip. ip \<in> set ips \<Longrightarrow> int_range (m_prefixLength ip)"
  shows "parse_ranges qt (map (range_json qt) ips) = Some ips"
  using assms by (induction ips) (simp_all add: parse_range_json)

text \<open>What arrives at the other side of a message.\<close>

definition received :: "InterfaceConfig \<Rightarrow> InterfaceConfig" where
  "received c =
    (let some = (\<lambda>q. Some (qs_text q));
         gw = (\<lambda>q. if m_hopType c = MultiHopEntry then None else Some (qs_text q))
     in (InterfaceConfig_default (m_hopType c) False)
       \<lparr>m_privateKey := some (m_privateKey c), m_deviceIpv4Address := some (m_deviceIpv4Address c),
        m_deviceIpv6Address := some (m_deviceIpv6Address c),
        m_serverIpv4Gateway := gw (m_serverIpv4Gateway c), m_serverIpv6Gateway := gw (m_serverIpv6Gateway c),
        m_serverPublicKey := some (m_serverPublicKey c), m_serverIpv4AddrIn := some (m_serverIpv4AddrIn c),
        m_serverPskKey := some (m_serverPskKey c), m_serverIpv6AddrIn := some (m_serverIpv6AddrIn c),
        m_dnsServer := gw (m_dnsServer c), m_serverPort := m_serverPort c,
        m_allowedIPAddressRanges := m_allowedIPAddressRanges c,
        m_excludedAddresses := m_excludedAddresses c, m_vpnDisabledApps := m_vpnDisabledApps c\<rparr>)"

lemma toJson_value:
  "json_value (toJson qt c) k =
    (if k = ''vpnDisabledApps'' then JArray (map JString (m_vpnDisabledApps c))
     else if k = ''excludedAddresses'' then JArray (map JString (m_excludedAddresses c))
     else if k = ''allowedIPAddressRanges'' then JArray (map (range_json qt) (m_allowedIPAddressRanges c))
     else if m_hopType c \<noteq> MultiHopEntry \<and> k = ''dnsServer'' then JString (qs_text (m_dnsServer c))
     else if m_hopType c \<noteq> MultiHopEntry \<and> k = ''serverIpv6Gateway'' then JString (qs_text (m_serverIpv6Gateway c))
     else if m_hopType c \<noteq> MultiHopEntry \<and> k = ''serverIpv4Gateway'' then JString (qs_text (m_serverIpv4Gateway c))
     else if k = ''deviceMTU'' then JDouble (of_int (m_deviceMTU c))
     else if k = ''serverPort'' then JDouble (of_int (m_serverPort c))
     else if k = ''serverIpv6AddrIn'' then JString (qs_text (m_serverIpv6AddrIn c))
     else if k = ''serverIpv4AddrIn'' then JString (qs_text (m_serverIpv4AddrIn c))
     else if k = ''serverPskKey'' then JString (qs_text (m_serverPskKey c))
     else if k = ''serverPublicKey'' then JString (qs_text (m_serverPublicKey c))
     else if k = ''deviceIpv6Address'' then JString (qs_text (m_deviceIpv6Address c))
     else if k = ''deviceIpv4Address'' then JString (qs_text (m_deviceIpv4Address c))
     else if k = ''privateKey'' then JString (qs_text (m_privateKey c))
     else if k = ''hopType'' then JString (hop_key (m_hopType c))
     else JUndefined)"
  by (cases "m_hopType c") (simp_all add: toJson_def)

lemma toJson_contains:
  "json_contains (toJson qt c) ''dnsServer'' \<longleftrightarrow> m_hopType c \<noteq> MultiHopEntry"
  "json_contains (toJson qt c) ''deviceMTU''" "json_contains (toJson qt c) ''hopType''"
  "json_contains (toJson qt c) ''excludedAddresses''" "json_contains (toJson qt c) ''vpnDisabledApps''"
  by (cases "m_hopType c"; simp add: toJson_def Let_def)+

lemma parseConfig_toJson:
  assumes "\<And>ip. ip \<in> set (m_allowedIPAddressRanges c) \<Longrightarrow>
      parseAddress qt (printAddress qt (m_address ip)) = m_address ip \<and> int_range (m_prefixLength ip)"
    and "int_range (m_serverPort c)"
  shows "parseConfig qt order windows (toJson qt c) (InterfaceConfig_default hop kill) =
    Some ((received c)\<lparr>m_allowedIPAddressRanges :=
      std_sort order (\<lambda>ip. - m_prefixLength ip) (m_allowedIPAddressRanges c)\<rparr>)"
proof -
  have ranges: "parse_allowed qt order (toJson qt c) [] =
      Some (std_sort order (\<lambda>ip. - m_prefixLength ip) (m_allowedIPAddressRanges c))"
    using assms(1) by (simp add: parse_allowed_def toJson_value parse_ranges_json)
  have hop: "parse_hop (toJson qt c) = Some (m_hopType c)"
    by (simp add: parse_hop_def toJson_contains toJson_value)
  have dns: "parse_dns (toJson qt c) = Some (if m_hopType c = MultiHopEntry then None else Some (qs_text (m_dnsServer c)))"
    by (simp add: parse_dns_def toJson_contains toJson_value get_string_def)
  have mtu: "parse_mtu windows (toJson qt c) = 1420"
    by (simp add: parse_mtu_def toJson_value toInt_def parse_int_def trimmed_def)
  have lists: "parseStringList (toJson qt c) ''excludedAddresses'' [] = Some (m_excludedAddresses c)"
    "parseStringList (toJson qt c) ''vpnDisabledApps'' [] = Some (m_vpnDisabledApps c)"
    by (simp_all add: parseStringList_def toJson_contains toJson_value)
  show ?thesis
    using assms(2)
    by (simp add: parseConfig_def InterfaceConfig_default_def get_string_def get_double_def toJson_value
        ranges hop dns mtu lists received_def junk_field_def variant_toBool_def Let_def)
qed

lemma parse_mtu_bounds:
  "parse_mtu windows obj \<noteq> 0" "windows \<Longrightarrow> 1280 \<le> parse_mtu windows obj" "int_range (parse_mtu windows obj)"
  using toInt_range [of "qs_text (json_toString (json_value obj ''deviceMTU''))"]
  by (auto simp: parse_mtu_def Let_def int_range_def)

lemma parse_allowed_sorted:
  "parse_allowed qt order obj old = Some ips \<Longrightarrow> sorted_wrt (\<lambda>a b. m_prefixLength b \<le> m_prefixLength a) ips"
  by (auto simp: parse_allowed_def std_sort_decreasing split: json.splits)

text \<open>Line breaks in a configuration file.\<close>

abbreviation breaks :: "string \<Rightarrow> nat" where
  "breaks s \<equiv> count_list s (CHR 0x0A)"

lemma breaks_conf_line: "breaks (conf_line key v) = breaks key + breaks v + 1"
  by (simp add: conf_line_def)

lemma breaks_opt_line:
  "breaks key = 0 \<Longrightarrow> breaks (opt_line key v) = breaks (qs_text v) + (if v = None then 0 else 1)"
  by (simp add: opt_line_def breaks_conf_line split: option.splits)

lemma breaks_concat: "breaks (concat ss) = sum_list (map breaks ss)"
  by (induction ss) simp_all

lemma breaks_join: "breaks sep = 0 \<Longrightarrow> breaks (join sep ss) = sum_list (map breaks ss)"
  by (cases ss) (simp_all add: join_def breaks_concat o_def)

lemma breaks_show_nat [simp]: "breaks (show_nat n) = 0"
proof -
  have "list_all is_digit (show_nat n)"
    by (rule show_nat_digits)
  then have "CHR 0x0A \<notin> set (show_nat n)"
    by (auto simp: list_all_iff is_digit_def)
  then show ?thesis
    by (simp add: count_list_0_iff)
qed

lemma breaks_show_int [simp]: "breaks (show_int i) = 0"
  by (simp add: show_int_def)


lemma breaks_zero: "CHR 0x0A \<notin> set s \<Longrightarrow> breaks s = 0"
  by (simp add: count_list_0_iff)

lemma breaks_addresses:
  "breaks (qs_text (m_deviceIpv4Address c)) = 0 \<Longrightarrow> breaks (qs_text (m_deviceIpv6Address c)) = 0 \<Longrightarrow>
   breaks (join '', '' (wg_addresses c)) = 0"
  by (cases "m_deviceIpv4Address c"; cases "m_deviceIpv6Address c")
    (simp_all add: wg_addresses_def breaks_join map_filter_simps)

lemma breaks_resolvers:
  "breaks (qs_text (m_dnsServer c)) = 0 \<Longrightarrow> breaks (qs_text (m_serverIpv6Gateway c)) = 0 \<Longrightarrow>
   breaks (join '', '' (wg_resolvers c)) = 0"
  by (simp add: wg_resolvers_def breaks_join)

lemma breaks_opt_lines:
  assumes "list_all (\<lambda>(key, q). breaks key = 0 \<and> breaks (qs_text q) = 0) entries"
  shows "breaks (concat (map (\<lambda>(key, v). opt_line key v) entries)) =
    length (filter (\<lambda>(key, q). q \<noteq> None) entries)"
  using assms by (induction entries) (auto simp: breaks_opt_line)

section \<open>Properties\<close>

text \<open>
  C8. A configuration that goes through its JSON form arrives as it was sent, but for what the form
  does not carry: the MTU, which is written as a number and read as a text, comes back as 1420;
  the gateways and the resolver of an entry hop, the kill switch and the junk-packet fields are
  not sent; a null string comes back as an empty one. The allowed ranges come back sorted by
  decreasing prefix length, in whatever order \<open>std::sort\<close> leaves ranges of the same length.
\<close>

theorem config_roundtrip:
  assumes "\<And>ip. ip \<in> set (m_allowedIPAddressRanges c) \<Longrightarrow>
      parseAddress qt (printAddress qt (m_address ip)) = m_address ip \<and> int_range (m_prefixLength ip)"
    and "int_range (m_serverPort c)"
  shows "\<exists>ranges. parseConfig qt order windows (toJson qt c) (InterfaceConfig_default hop kill) =
      Some ((received c)\<lparr>m_allowedIPAddressRanges := ranges\<rparr>) \<and>
    mset ranges = mset (m_allowedIPAddressRanges c) \<and>
    sorted_wrt (\<lambda>a b. m_prefixLength b \<le> m_prefixLength a) ranges"
  using parseConfig_toJson [OF assms]
  by (intro exI [of _ "std_sort order (\<lambda>ip. - m_prefixLength ip) (m_allowedIPAddressRanges c)"])
    (simp add: std_sort_decreasing)

text \<open>A concrete text form of IPv4 addresses, as plain numbers.\<close>

definition demo_text :: host_address_text where
  "demo_text =
    \<lparr>parseSubnet = (\<lambda>s. (NullAddress, -1)),
     parseAddress = (\<lambda>s. if s \<noteq> [] \<and> list_all is_digit s then IPv4 (of_nat (dec_val s)) else NullAddress),
     printAddress = (\<lambda>a. case a of IPv4 w \<Rightarrow> show_nat (unat w) | _ \<Rightarrow> [])\<rparr>"

definition demo_config :: InterfaceConfig where
  "demo_config = (InterfaceConfig_default SingleHop True)
    \<lparr>m_privateKey := Some ''key'', m_deviceIpv4Address := Some ''10.8.1.2'',
     m_serverPublicKey := Some ''peer'', m_serverIpv4AddrIn := Some ''192.0.2.1'', m_serverPort := 51820,
     m_dnsServer := Some ''1.1.1.1'',
     m_allowedIPAddressRanges := [\<lparr>m_address = IPv4 0x80000000, m_prefixLength = 1\<rparr>,
       \<lparr>m_address = IPv4 0, m_prefixLength = 0\<rparr>],
     m_excludedAddresses := [''192.0.2.1'']\<rparr>"

lemma show_nat_not_Nil [simp]: "show_nat n \<noteq> []"
  by (subst show_nat.simps) simp

lemma demo_text_inverse: "parseAddress demo_text (printAddress demo_text (IPv4 w)) = IPv4 w"
  by (simp add: demo_text_def show_nat_digits)

lemma demo_config_ok:
  "ip \<in> set (m_allowedIPAddressRanges demo_config) \<Longrightarrow>
   parseAddress demo_text (printAddress demo_text (m_address ip)) = m_address ip \<and> int_range (m_prefixLength ip)"
  "int_range (m_serverPort demo_config)"
  by (auto simp: demo_config_def demo_text_inverse int_range_def)

theorem config_roundtrip_witness:
  "\<exists>c. parseConfig demo_text rev True (toJson demo_text demo_config) (InterfaceConfig_default MultiHopExit True) =
     Some c \<and> m_privateKey c = Some ''key'' \<and> m_deviceMTU c = 1420 \<and>
     mset (m_allowedIPAddressRanges c) = mset (m_allowedIPAddressRanges demo_config)"
proof -
  obtain ranges where "parseConfig demo_text rev True (toJson demo_text demo_config)
      (InterfaceConfig_default MultiHopExit True) = Some ((received demo_config)\<lparr>m_allowedIPAddressRanges := ranges\<rparr>)"
    "mset ranges = mset (m_allowedIPAddressRanges demo_config)"
    using config_roundtrip [OF demo_config_ok, where order = rev and windows = True and hop = MultiHopExit and kill = True]
    by blast
  then show ?thesis
    by (simp add: received_def demo_config_def InterfaceConfig_default_def)
qed

text \<open>
  C14. What the reader guarantees of a configuration it accepts: keys, an address of the device and
  one of the server are present, the MTU is not 0 and at least 1280 on Windows, and the allowed
  ranges are ordered by decreasing prefix length, so that the more specific routes come first.
\<close>

theorem parseConfig_accepts:
  assumes "parseConfig qt order windows obj c = Some c'"
  shows "m_privateKey c' \<noteq> None \<and> m_serverPublicKey c' \<noteq> None \<and>
    (m_deviceIpv4Address c' \<noteq> None \<or> m_deviceIpv6Address c' \<noteq> None) \<and>
    (m_serverIpv4AddrIn c' \<noteq> None \<or> m_serverIpv6AddrIn c' \<noteq> None) \<and>
    m_deviceMTU c' \<noteq> 0 \<and> (windows \<longrightarrow> 1280 \<le> m_deviceMTU c') \<and>
    sorted_wrt (\<lambda>a b. m_prefixLength b \<le> m_prefixLength a) (m_allowedIPAddressRanges c')"
proof -
  have "get_string obj k = Some q \<Longrightarrow> q \<noteq> None" for k q
    by (auto simp: get_string_def split: json.splits)
  with assms parse_mtu_bounds [of windows obj] parse_allowed_sorted show ?thesis
    by (auto simp: parseConfig_def Let_def bind_eq_Some_conv split: if_splits)
qed

theorem parseConfig_accepts_witness:
  "\<exists>c'. parseConfig demo_text rev True (toJson demo_text demo_config) (InterfaceConfig_default SingleHop True) = Some c' \<and>
     1280 \<le> m_deviceMTU c'"
proof -
  note parsed = parseConfig_toJson [OF demo_config_ok, where order = rev and windows = True and hop = SingleHop and kill = True]
  from parseConfig_accepts [OF parsed] parsed show ?thesis
    by simp
qed

text \<open>
  C18. A configuration file has one line for each entry: where the resolver, the junk-packet fields,
  the extra entries and the printed ranges have no line break, no field that \<open>toWgConf\<close> accepts can
  start a line of its own.
\<close>

theorem toWgConf_lines:
  assumes "toWgConf qt extra c \<noteq> []"
    and "breaks (qs_text (m_dnsServer c)) = 0"
    and "list_all (\<lambda>(key, q). breaks (qs_text q) = 0) (junk_entries c)"
    and "list_all (\<lambda>(key, v). breaks key = 0 \<and> breaks v = 0) extra"
    and "list_all (\<lambda>ip. breaks (printAddress qt (m_address ip)) = 0) (m_allowedIPAddressRanges c)"
  shows "breaks (toWgConf qt extra c) =
    8 + (if m_deviceMTU c \<noteq> 0 then 1 else 0) + (if m_dnsServer c \<noteq> None then 1 else 0) +
    length (filter (\<lambda>(key, q). q \<noteq> None) (junk_entries c)) + length extra"
proof -
  have conf: "toWgConf qt extra c = wg_content qt extra c"
    and valid: "\<And>q. q \<in> set (validated_fields c) \<Longrightarrow> breaks (qs_text q) = 0"
    using assms(1) by (auto simp: toWgConf_def list_ex_iff breaks_zero split: if_splits)
  have "breaks (join '', '' (map (ip_toString qt) (m_allowedIPAddressRanges c))) = 0"
    using assms(5) by (simp add: breaks_join list_all_iff sum_list_eq_0_iff ip_toString_def)
  moreover have "breaks (concat (map (\<lambda>(key, v). conf_line key v) extra)) = length extra"
    using assms(4) by (induction extra) (auto simp: breaks_conf_line)
  moreover have "breaks (join '', '' (wg_addresses c)) = 0" "breaks (join '', '' (wg_resolvers c)) = 0"
    using valid assms(2) by (simp_all add: breaks_addresses breaks_resolvers validated_fields_def)
  moreover have "breaks (concat (map (\<lambda>(key, v). opt_line key v) (junk_entries c))) =
      length (filter (\<lambda>(key, q). q \<noteq> None) (junk_entries c))"
    using assms(3) by (intro breaks_opt_lines) (simp add: junk_entries_def)
  ultimately show ?thesis
    using valid unfolding conf wg_content_def
    by (simp add: breaks_conf_line validated_fields_def)
qed


theorem toWgConf_lines_witness:
  "breaks (toWgConf demo_text [(''PersistentKeepalive'', ''25'')] demo_config) = 11"
proof -
  have "toWgConf demo_text [(''PersistentKeepalive'', ''25'')] demo_config \<noteq> []"
    by (simp add: toWgConf_def validated_fields_def wg_addresses_def map_filter_simps wg_content_def
        demo_config_def InterfaceConfig_default_def)
  from toWgConf_lines [OF this] show ?thesis
    by (simp add: demo_config_def InterfaceConfig_default_def junk_entries_def demo_text_def)
qed

text \<open>The resolver is not among the validated fields: a line break in it starts a new entry.\<close>

lemma wg_content_resolver:
  assumes "m_dnsServer c \<noteq> None"
  shows "sublist (conf_line ''DNS'' (join '', '' (wg_resolvers c))) (wg_content qt extra c)"
proof -
  have "\<exists>before after. wg_content qt extra c =
      before @ (if m_dnsServer c \<noteq> None then conf_line ''DNS'' (join '', '' (wg_resolvers c)) else []) @ after"
    unfolding wg_content_def
    by (intro exI [of _ "''[Interface]'' @ nl @ conf_line ''PrivateKey'' (qs_text (m_privateKey c)) @
          conf_line ''Address'' (join '', '' (wg_addresses c)) @
          (if m_deviceMTU c \<noteq> 0 then conf_line ''MTU'' (show_int (m_deviceMTU c)) else [])"] exI)
      (simp only: append_assoc)
  with assms show ?thesis
    by (auto simp: sublist_def)
qed

theorem toWgConf_resolver_injection:
  "sublist (nl @ ''PostUp = run'' @ nl)
     (toWgConf demo_text [] (demo_config\<lparr>m_dnsServer := Some (''1.1.1.1'' @ nl @ ''PostUp = run'')\<rparr>))"
proof -
  let ?c = "demo_config\<lparr>m_dnsServer := Some (''1.1.1.1'' @ nl @ ''PostUp = run'')\<rparr>"
  have conf: "toWgConf demo_text [] ?c = wg_content demo_text [] ?c"
    by (simp add: toWgConf_def validated_fields_def wg_addresses_def map_filter_simps
        demo_config_def InterfaceConfig_default_def)
  have "conf_line ''DNS'' (join '', '' (wg_resolvers ?c)) = ''DNS = 1.1.1.1'' @ nl @ ''PostUp = run'' @ nl"
    by (simp add: conf_line_def wg_resolvers_def join_def demo_config_def InterfaceConfig_default_def qs_eq_def)
  then have "sublist (nl @ ''PostUp = run'' @ nl) (conf_line ''DNS'' (join '', '' (wg_resolvers ?c)))"
    by (metis sublist_append_leftI sublist_order.order_refl)
  moreover have "sublist (conf_line ''DNS'' (join '', '' (wg_resolvers ?c))) (wg_content demo_text [] ?c)"
    by (rule wg_content_resolver) simp
  ultimately show ?thesis
    unfolding conf by (rule sublist_order.order_trans)
qed


end
