(* ===== verification/Daemon.thy ===== *)
theory Daemon
  imports InterfaceConfig
begin

text \<open>
  The tunnel daemon: \<open>client/daemon/daemon.cpp\<close>. Its state is the table of connections, the reference
  counts of the routes for excluded addresses and the handshake timer. The platform (the classes
  \<open>WireguardUtils\<close>, \<open>IPUtils\<close> and \<open>DnsUtils\<close>, and the virtual functions \<open>run\<close> and
  \<open>prepareActivation\<close>) is a parameter: an unknown world that answers each call with success or
  failure. So are the text forms of addresses, dates and JSON objects, and the order in which
  \<open>std::sort\<close> leaves equal elements. Every call with its answer, and every signal the daemon emits, is recorded in order, so
  that what the daemon did to the routing tables can be read off the record.

  A release build has no assertions; the model has none either. \<open>QHash\<close> is an association list and
  its iteration order the order of the list, \<open>QMap\<close> a function with its keys in the order of the
  enumeration.
\<close>

section \<open>Definitions\<close>

datatype Op = Up | Down | Switch

datatype platform_call =
    InterfaceExists
  | AddInterface InterfaceConfig
  | DeleteInterface
  | UpdatePeer InterfaceConfig
  | DeletePeer InterfaceConfig
  | UpdateRoutePrefix IPAddress
  | DeleteRoutePrefix IPAddress
  | AddExclusionRoute IPAddress
  | DeleteExclusionRoute IPAddress
  | UpdateResolvers string "host_address list"
  | RestoreResolvers
  | AddInterfaceIPs InterfaceConfig
  | SetMTUAndUp InterfaceConfig
  | Run Op InterfaceConfig
  | PrepareActivation InterfaceConfig

datatype signal = Connected qstring | Disconnected | ActivationFailure

datatype daemon_event = Called platform_call bool | Emitted signal

record PeerStatus =
  m_pubkey :: qstring
  m_handshake :: int
  m_rxBytes :: int
  m_txBytes :: int

record 'w platform =
  plat_call :: "platform_call \<Rightarrow> 'w \<Rightarrow> bool \<times> 'w"
  plat_peers :: "'w \<Rightarrow> PeerStatus list"
  supportIPUtils :: bool
  supportDnsUtils :: bool
  interfaceName :: string
  host_text :: host_address_text
  print_date :: "int option \<Rightarrow> string"
  print_json :: "json_object \<Rightarrow> string"
  sort_order :: "IPAddress list \<Rightarrow> IPAddress list"

record ConnectionState =
  m_date :: "int option"
  m_config :: InterfaceConfig

record 'w daemon =
  m_connections :: "HopType \<Rightarrow> ConnectionState option"
  m_excludedAddrSet :: "(IPAddress \<times> int) list"
  m_handshakeTimer :: bool
  events :: "daemon_event list"
  world :: 'w

type_synonym 'w action = "'w daemon \<Rightarrow> bool \<times> 'w daemon"

definition daemon_init :: "'w \<Rightarrow> 'w daemon" where
  "daemon_init w = \<lparr>m_connections = (\<lambda>_. None), m_excludedAddrSet = [], m_handshakeTimer = False,
     events = [], world = w\<rparr>"

definition emit_signal :: "signal \<Rightarrow> 'w daemon \<Rightarrow> 'w daemon" where
  "emit_signal sg s = s\<lparr>events := events s @ [Emitted sg]\<rparr>"

definition call :: "'w platform \<Rightarrow> platform_call \<Rightarrow> 'w action" where
  "call p c s = (case plat_call p c (world s) of (ok, w) \<Rightarrow>
     (ok, s\<lparr>world := w, events := events s @ [Called c ok]\<rparr>))"

text \<open>\<open>if (!f()) return false;\<close> and then \<open>g\<close>.\<close>

definition attempt :: "'w action \<Rightarrow> 'w action \<Rightarrow> 'w action" where
  "attempt f g s = (case f s of (ok, s') \<Rightarrow> if ok then g s' else (False, s'))"

definition succeed :: "'w action" where
  "succeed s = (True, s)"

text \<open>A loop that returns false, or breaks, at the first failure; a loop that ignores failures.\<close>

fun attempt_all :: "('a \<Rightarrow> 'w action) \<Rightarrow> 'a list \<Rightarrow> 'w action" where
  "attempt_all f [] = succeed"
| "attempt_all f (x # xs) = attempt (f x) (attempt_all f xs)"

fun for_each :: "('a \<Rightarrow> 'w action) \<Rightarrow> 'a list \<Rightarrow> 'w daemon \<Rightarrow> 'w daemon" where
  "for_each f [] s = s"
| "for_each f (x # xs) s = for_each f xs (snd (f x s))"

definition connection_list :: "'w daemon \<Rightarrow> ConnectionState list" where
  "connection_list s = List.map_filter (m_connections s) all_hops"

definition maybeUpdateResolvers :: "'w platform \<Rightarrow> InterfaceConfig \<Rightarrow> 'w action" where
  "maybeUpdateResolvers p config =
    (if \<not> supportDnsUtils p then succeed
     else if m_hopType config = MultiHopExit \<or> m_hopType config = SingleHop then
       let resolvers = parseAddress (host_text p) (qs_text (m_dnsServer config)) #
             (if qs_eq (m_dnsServer config) (m_serverIpv4Gateway config)
              then [parseAddress (host_text p) (qs_text (m_serverIpv6Gateway config))] else [])
       in call p (UpdateResolvers (interfaceName p) resolvers)
     else succeed)"

definition excluded_count :: "IPAddress \<Rightarrow> 'w daemon \<Rightarrow> int" where
  "excluded_count route s = (case map_of (m_excludedAddrSet s) route of None \<Rightarrow> 0 | Some n \<Rightarrow> n)"

definition addExclusionRoute :: "'w platform \<Rightarrow> IPAddress \<Rightarrow> 'w action" where
  "addExclusionRoute p route s =
    (if map_of (m_excludedAddrSet s) route \<noteq> None then
       (True, s\<lparr>m_excludedAddrSet := AList.update route (excluded_count route s + 1) (m_excludedAddrSet s)\<rparr>)
     else attempt (call p (AddExclusionRoute route))
       (\<lambda>s. (True, s\<lparr>m_excludedAddrSet := AList.update route 1 (m_excludedAddrSet s)\<rparr>)) s)"

definition delExclusionRoute :: "'w platform \<Rightarrow> IPAddress \<Rightarrow> 'w action" where
  "delExclusionRoute p route s =
    (if excluded_count route s > 1 then
       (True, s\<lparr>m_excludedAddrSet := AList.update route (excluded_count route s - 1) (m_excludedAddrSet s)\<rparr>)
     else call p (DeleteExclusionRoute route)
       (s\<lparr>m_excludedAddrSet := AList.delete route (m_excludedAddrSet s)\<rparr>))"

text \<open>The implicit conversion of a \<open>QHostAddress\<close> to an \<open>IPAddress\<close>, without its assertion.\<close>

definition host_key :: "'w platform \<Rightarrow> string \<Rightarrow> IPAddress" where
  "host_key p i = (let address = parseAddress (host_text p) i in
     \<lparr>m_address = address, m_prefixLength = (if protocol address = IPv4Protocol then 32 else 128)\<rparr>)"

definition connection_config :: "'w daemon \<Rightarrow> HopType \<Rightarrow> InterfaceConfig option" where
  "connection_config s hop = map_option m_config (m_connections s hop)"

definition supportServerSwitching :: "InterfaceConfig \<Rightarrow> 'w daemon \<Rightarrow> bool" where
  "supportServerSwitching config s =
    (case connection_config s (m_hopType config) of
       None \<Rightarrow> False
     | Some current \<Rightarrow>
         qs_eq (m_privateKey current) (m_privateKey config) \<and>
         qs_eq (m_deviceIpv4Address current) (m_deviceIpv4Address config) \<and>
         qs_eq (m_deviceIpv6Address current) (m_deviceIpv6Address config) \<and>
         qs_eq (m_serverIpv4Gateway current) (m_serverIpv4Gateway config) \<and>
         qs_eq (m_serverIpv6Gateway current) (m_serverIpv6Gateway config))"

definition set_connection :: "InterfaceConfig \<Rightarrow> 'w daemon \<Rightarrow> 'w daemon" where
  "set_connection config s =
    s\<lparr>m_connections := (m_connections s)(m_hopType config \<mapsto> \<lparr>m_date = None, m_config = config\<rparr>)\<rparr>"

text \<open>Without the connection that the assertion demands, \<open>lastConfig\<close> is a default configuration.\<close>

definition switchServer :: "'w platform \<Rightarrow> InterfaceConfig \<Rightarrow> 'w action" where
  "switchServer p config s =
    (let lastConfig = (case connection_config s (m_hopType config) of
           None \<Rightarrow> InterfaceConfig_default SingleHop False | Some c \<Rightarrow> c);
         s1 = for_each (\<lambda>i. addExclusionRoute p (IPAddress_string (host_text p) i)) (m_excludedAddresses config) s
     in attempt (call p (UpdatePeer config)) (\<lambda>s2.
        let s3 = snd (attempt_all (\<lambda>ip. call p (UpdateRoutePrefix ip)) (m_allowedIPAddressRanges config) s2);
            s4 = for_each (\<lambda>i. delExclusionRoute p (host_key p i)) (m_excludedAddresses lastConfig) s3;
            s5 = for_each (\<lambda>ip. if ip \<notin> set (m_allowedIPAddressRanges config)
                   then call p (DeleteRoutePrefix ip) else succeed) (m_allowedIPAddressRanges lastConfig) s4
        in attempt (if \<not> qs_eq (m_serverPublicKey config) (m_serverPublicKey lastConfig)
                    then call p (DeletePeer lastConfig) else succeed)
             (\<lambda>s6. (True, set_connection config s6)) s5) s1)"

text \<open>\<open>deactivate\<close>: the routes and the peer of one connection; everything after the interface was found
  to exist; the whole.\<close>

definition delete_connection :: "'w platform \<Rightarrow> ConnectionState \<Rightarrow> 'w action" where
  "delete_connection p state s = call p (DeletePeer (m_config state))
     (for_each (\<lambda>ip. call p (DeleteRoutePrefix ip)) (m_allowedIPAddressRanges (m_config state)) s)"

definition clean_up :: "'w platform \<Rightarrow> 'w action" where
  "clean_up p s =
    (let s1 = for_each (delete_connection p) (connection_list s) s;
         s2 = for_each (\<lambda>(route, _). call p (DeleteExclusionRoute route)) (m_excludedAddrSet s1) s1
     in attempt (call p DeleteInterface)
          (\<lambda>s3. (True, s3\<lparr>m_connections := (\<lambda>_. None)\<rparr>)) (s2\<lparr>m_excludedAddrSet := []\<rparr>))"

definition run_down :: "'w platform \<Rightarrow> 'w action" where
  "run_down p s = (case connection_list s of [] \<Rightarrow> (True, s) | state # _ \<Rightarrow> call p (Run Down (m_config state)) s)"

definition restore_resolvers :: "'w platform \<Rightarrow> 'w action" where
  "restore_resolvers p = (if supportDnsUtils p then call p RestoreResolvers else succeed)"

definition deactivate :: "'w platform \<Rightarrow> bool \<Rightarrow> 'w action" where
  "deactivate p emitSignals =
    attempt (run_down p)
    (attempt (\<lambda>s. (True, if emitSignals then emit_signal Disconnected s else s))
    (attempt (restore_resolvers p)
    (attempt (call p InterfaceExists) (clean_up p))))"

text \<open>The part of \<open>activate\<close> for a hop without a connection.\<close>

definition establish :: "InterfaceConfig \<Rightarrow> 'w action" where
  "establish config s = (True, (set_connection config s)\<lparr>m_handshakeTimer := True\<rparr>)"

definition bring_up :: "'w platform \<Rightarrow> InterfaceConfig \<Rightarrow> 'w action" where
  "bring_up p config s = (case call p InterfaceExists s of (exists, s') \<Rightarrow>
     if exists then (True, s') else call p (AddInterface config) s')"

definition activate_new :: "'w platform \<Rightarrow> InterfaceConfig \<Rightarrow> 'w action" where
  "activate_new p config s =
    attempt (bring_up p config)
    (\<lambda>s1. attempt (call p (UpdatePeer config))
    (attempt (maybeUpdateResolvers p config)
    (attempt (if supportIPUtils p
              then attempt (call p (AddInterfaceIPs config)) (call p (SetMTUAndUp config)) else succeed)
    (attempt (attempt_all (\<lambda>ip. call p (UpdateRoutePrefix ip)) (m_allowedIPAddressRanges config))
    (attempt (call p (Run Up config)) (establish config)))))
    (for_each (\<lambda>i. addExclusionRoute p (IPAddress_string (host_text p) i)) (m_excludedAddresses config) s1))
    (snd (call p (PrepareActivation config) s))"

text \<open>The part of \<open>activate\<close> that switches the server of a connected hop.\<close>

definition activate_switch :: "'w platform \<Rightarrow> InterfaceConfig \<Rightarrow> 'w action" where
  "activate_switch p config =
    attempt (switchServer p config)
    (attempt (restore_resolvers p)
    (attempt (maybeUpdateResolvers p config)
    (attempt (call p (Run Switch config)) (establish config))))"

text \<open>The guard that reports a failure when \<open>activate\<close> is left without success.\<close>

definition report_failure :: "bool \<times> 'w daemon \<Rightarrow> bool \<times> 'w daemon" where
  "report_failure r = (case r of (ok, s) \<Rightarrow> (ok, if ok then s else emit_signal ActivationFailure s))"

lemma attempt_True: "attempt f g s = (True, s') \<longleftrightarrow> (\<exists>s1. f s = (True, s1) \<and> g s1 = (True, s'))"
  by (auto simp: attempt_def split: prod.splits)

lemma deactivate_clears: "deactivate p b s = (True, s') \<Longrightarrow> m_connections s' = (\<lambda>_. None)"
  by (auto simp: deactivate_def clean_up_def attempt_True Let_def)

function activate :: "'w platform \<Rightarrow> InterfaceConfig \<Rightarrow> 'w action" where
  "activate p config s = report_failure
    (if m_connections s (m_hopType config) \<noteq> None then
       if supportServerSwitching config s then activate_switch p config s
       else (case deactivate p False s of (ok, s') \<Rightarrow>
         if ok then activate p config s' else (False, s'))
     else activate_new p config s)"
  by pat_completeness auto
termination
  by (relation "measure (\<lambda>(p, config, s). if m_connections s (m_hopType config) = None then 0 else 1)")
    (auto dest: deactivate_clears [OF sym])

declare activate.simps [simp del]

definition getStatus :: "'w platform \<Rightarrow> 'w daemon \<Rightarrow> json_object \<times> 'w daemon" where
  "getStatus p s =
    (case call p InterfaceExists s of (exists, s') \<Rightarrow>
       (case (exists, connection_list s') of
          (True, connection # _) \<Rightarrow>
            (case find (\<lambda>status. qs_eq (m_pubkey status) (m_serverPublicKey (m_config connection)))
                    (plat_peers p (world s')) of
               Some status \<Rightarrow>
                 json_insert ''rxBytes'' (JDouble (of_int (m_rxBytes status)))
                 (json_insert ''txBytes'' (JDouble (of_int (m_txBytes status)))
                 (json_insert ''date'' (JString (print_date p (m_date connection)))
                 (json_insert ''deviceIpv4Address'' (JString (qs_text (m_deviceIpv4Address (m_config connection))))
                 (json_insert ''serverIpv4Gateway'' (JString (qs_text (m_serverIpv4Gateway (m_config connection))))
                 (json_insert ''connected'' (JBool True) [])))))
             | None \<Rightarrow> json_insert ''connected'' (JBool False) [])
        | _ \<Rightarrow> json_insert ''connected'' (JBool False) [], s'))"

text \<open>The peers looked at for one connection: the date of its handshake, and the signals.\<close>

fun match_peers :: "ConnectionState \<Rightarrow> PeerStatus list \<Rightarrow> ConnectionState \<times> signal list" where
  "match_peers connection [] = (connection, [])"
| "match_peers connection (status # peers) =
    (if qs_eq (m_serverPublicKey (m_config connection)) (m_pubkey status) \<and> m_handshake status \<noteq> 0 then
       (case match_peers (connection\<lparr>m_date := Some (m_handshake status)\<rparr>) peers of (c, sgs) \<Rightarrow>
          (c, Connected (m_pubkey status) # sgs))
     else match_peers connection peers)"

definition check_connection :: "PeerStatus list \<Rightarrow> HopType \<Rightarrow> 'w daemon \<Rightarrow> 'w daemon" where
  "check_connection peers hop s =
    (case m_connections s hop of
       None \<Rightarrow> s
     | Some connection \<Rightarrow>
         if m_date connection \<noteq> None then s
         else (case match_peers connection peers of (c, sgs) \<Rightarrow>
           s\<lparr>m_connections := (m_connections s)(hop \<mapsto> c), events := events s @ map Emitted sgs\<rparr>))"

definition pending :: "'w daemon \<Rightarrow> HopType \<Rightarrow> bool" where
  "pending s hop = (case m_connections s hop of None \<Rightarrow> False | Some c \<Rightarrow> m_date c = None)"

text \<open>The slot of the single-shot timer, which has just fired.\<close>

definition checkHandshake :: "'w platform \<Rightarrow> 'w daemon \<Rightarrow> 'w daemon" where
  "checkHandshake p s =
    (let s1 = s\<lparr>m_handshakeTimer := False\<rparr>;
         s2 = foldl (\<lambda>s hop. check_connection (plat_peers p (world s1)) hop s) s1 all_hops;
         pendingHandshakes = length (filter (pending s2) all_hops)
     in if pendingHandshakes > 0 then s2\<lparr>m_handshakeTimer := True\<rparr> else s2)"

section \<open>Actions and what they keep\<close>

lemma for_each_foldl: "for_each f xs s = foldl (\<lambda>s x. snd (f x s)) s xs"
  by (induction xs arbitrary: s) simp_all

lemma for_each_append: "for_each f (xs @ ys) s = for_each f ys (for_each f xs s)"
  by (simp add: for_each_foldl)

definition keeps :: "('w daemon \<Rightarrow> bool) \<Rightarrow> 'w action \<Rightarrow> bool" where
  "keeps I f \<longleftrightarrow> (\<forall>s. I s \<longrightarrow> I (snd (f s)))"

named_theorems keeps_intros

lemma keepsD: "keeps I f \<Longrightarrow> I s \<Longrightarrow> I (snd (f s))"
  by (simp add: keeps_def)

lemma keeps_succeed [keeps_intros]: "keeps I succeed"
  by (simp add: keeps_def succeed_def)

lemma keeps_attempt [keeps_intros]: "keeps I f \<Longrightarrow> keeps I g \<Longrightarrow> keeps I (attempt f g)"
  by (auto simp: keeps_def attempt_def split: prod.splits)

lemma keeps_attempt_all [keeps_intros]: "(\<And>x. keeps I (f x)) \<Longrightarrow> keeps I (attempt_all f xs)"
  by (induction xs) (auto intro: keeps_intros)

lemma keeps_for_each: "(\<And>x. keeps I (f x)) \<Longrightarrow> I s \<Longrightarrow> I (for_each f xs s)"
  by (induction xs arbitrary: s) (auto dest: keepsD)

lemma keeps_if [keeps_intros]: "keeps I f \<Longrightarrow> keeps I g \<Longrightarrow> keeps I (if b then f else g)"
  by simp

lemma call_fields:
  "m_connections (snd (call p c s)) = m_connections s"
  "m_excludedAddrSet (snd (call p c s)) = m_excludedAddrSet s"
  "m_handshakeTimer (snd (call p c s)) = m_handshakeTimer s"
  "events (snd (call p c s)) = events s @ [Called c (fst (call p c s))]"
  by (simp_all add: call_def split: prod.splits)

lemma keeps_bring_up:
  assumes "keeps I (call p InterfaceExists)" and "keeps I (call p (AddInterface config))"
  shows "keeps I (bring_up p config)"
  unfolding keeps_def
proof (intro allI impI)
  fix s assume "I s"
  obtain ok s1 where c: "call p InterfaceExists s = (ok, s1)"
    by fastforce
  with keepsD [OF assms(1) \<open>I s\<close>] have "I s1"
    by simp
  with c keepsD [OF assms(2)] show "I (snd (bring_up p config s))"
    by (simp add: bring_up_def)
qed

end
