(* ===== verification/DaemonRoutes.thy ===== *)
theory DaemonRoutes
  imports Daemon "HOL-Library.Multiset"
begin

text \<open>
  The routes for excluded addresses, which the daemon counts because several connections may exclude
  the same address. The invariant \<open>exclusion_inv\<close> says that the counted routes are those that the
  platform has, except those it failed to delete when asked to; every operation keeps it. The interface \<open>counted_routes\<close> gives the counts their
  meaning as a multiset and is interpreted on the daemon's two functions.
\<close>

section \<open>The routes for excluded addresses\<close>

text \<open>
  The routes that the platform has, read off the record of its calls: a route is there after it was
  added with success, until it is deleted with success. A route that the platform failed to delete
  when it was last asked to is forgotten by the daemon, whose count is gone by then.
\<close>

definition route_event :: "IPAddress set \<Rightarrow> daemon_event \<Rightarrow> IPAddress set" where
  "route_event R e = (case e of
     Called (AddExclusionRoute r) ok \<Rightarrow> if ok then insert r R else R
   | Called (DeleteExclusionRoute r) ok \<Rightarrow> if ok then R - {r} else R
   | _ \<Rightarrow> R)"

definition installed :: "daemon_event list \<Rightarrow> IPAddress set" where
  "installed es = foldl route_event {} es"

definition forget_event :: "IPAddress set \<Rightarrow> daemon_event \<Rightarrow> IPAddress set" where
  "forget_event F e = (case e of
     Called (AddExclusionRoute r) ok \<Rightarrow> if ok then F - {r} else F
   | Called (DeleteExclusionRoute r) ok \<Rightarrow> if ok then F - {r} else insert r F
   | _ \<Rightarrow> F)"

definition forgotten :: "daemon_event list \<Rightarrow> IPAddress set" where
  "forgotten es = foldl forget_event {} es"

definition tracked :: "daemon_event list \<Rightarrow> IPAddress set" where
  "tracked es = installed es - forgotten es"

definition routing_call :: "platform_call \<Rightarrow> bool" where
  "routing_call c = (case c of AddExclusionRoute _ \<Rightarrow> True | DeleteExclusionRoute _ \<Rightarrow> True | _ \<Rightarrow> False)"

lemma tracked_snoc:
  "tracked (es @ [Called (AddExclusionRoute r) ok]) = (if ok then insert r (tracked es) else tracked es)"
  "tracked (es @ [Called (DeleteExclusionRoute r) ok]) = tracked es - {r}"
  "\<not> routing_call c \<Longrightarrow> tracked (es @ [Called c ok]) = tracked es"
  "tracked (es @ [Emitted sg]) = tracked es"
  by (auto simp: tracked_def installed_def forgotten_def route_event_def forget_event_def routing_call_def
      split: platform_call.splits)

lemma tracked_emitted [simp]: "tracked (es @ map Emitted sgs) = tracked es"
proof (induction sgs arbitrary: es)
  case (Cons sg sgs)
  show ?case
    using Cons [of "es @ [Emitted sg]"] by (simp add: tracked_snoc)
qed simp

lemma nothing_forgotten:
  "(\<forall>r. Called (DeleteExclusionRoute r) False \<notin> set es) \<Longrightarrow> forgotten es = {}"
  by (induction es rule: rev_induct)
    (auto simp: forgotten_def forget_event_def split: daemon_event.splits platform_call.splits)

text \<open>The invariant: every count is positive, and the counted routes are those of the platform that it
  did not fail to delete.\<close>

definition exclusion_inv :: "'w daemon \<Rightarrow> bool" where
  "exclusion_inv s \<longleftrightarrow> distinct (map fst (m_excludedAddrSet s)) \<and>
     (\<forall>n \<in> snd ` set (m_excludedAddrSet s). 1 \<le> n) \<and>
     fst ` set (m_excludedAddrSet s) = tracked (events s)"

lemma update_counts:
  assumes "distinct (map fst al)"
  shows "distinct (map fst (AList.update k v al))"
    and "fst ` set (AList.update k v al) = insert k (fst ` set al)"
    and "\<forall>n \<in> snd ` set al. P n \<Longrightarrow> P v \<Longrightarrow> \<forall>n \<in> snd ` set (AList.update k v al). P n"
proof -
  show "distinct (map fst (AList.update k v al))"
    using assms by (rule distinct_update)
  show "fst ` set (AList.update k v al) = insert k (fst ` set al)"
    by (simp add: dom_update)
  show "\<forall>n \<in> snd ` set (AList.update k v al). P n" if "\<forall>n \<in> snd ` set al. P n" "P v"
    using that by (induction al) auto
qed

lemma delete_counts:
  assumes "distinct (map fst al)"
  shows "distinct (map fst (AList.delete k al))"
    and "fst ` set (AList.delete k al) = fst ` set al - {k}"
    and "\<forall>n \<in> snd ` set al. P n \<Longrightarrow> \<forall>n \<in> snd ` set (AList.delete k al). P n"
  using assms by (simp add: distinct_delete) (auto simp: AList.delete_eq)

lemma exclusion_inv_call:
  "\<not> routing_call c \<Longrightarrow> keeps exclusion_inv (call p c)"
  by (simp add: keeps_def exclusion_inv_def call_fields tracked_snoc)


lemma exclusion_inv_add: "keeps exclusion_inv (addExclusionRoute p r)"
  unfolding keeps_def
proof (intro allI impI)
  fix s :: "'a daemon"
  assume inv: "exclusion_inv s"
  show "exclusion_inv (snd (addExclusionRoute p r s))"
  proof (cases "map_of (m_excludedAddrSet s) r")
    case None
    obtain ok s1 where c: "call p (AddExclusionRoute r) s = (ok, s1)"
      by fastforce
    then have "events s1 = events s @ [Called (AddExclusionRoute r) ok]"
      "m_excludedAddrSet s1 = m_excludedAddrSet s"
      using call_fields [of p "AddExclusionRoute r" s] by simp_all
    with None c inv update_counts(1,2) [of "m_excludedAddrSet s" r 1]
      update_counts(3) [of "m_excludedAddrSet s" "\<lambda>n. 1 \<le> n" 1 r] show ?thesis
      by (auto simp: addExclusionRoute_def attempt_def exclusion_inv_def tracked_snoc)
  next
    case (Some n)
    then have "(r, n) \<in> set (m_excludedAddrSet s)"
      by (rule map_of_SomeD)
    with inv have "1 \<le> n" "r \<in> tracked (events s)"
      by (force simp: exclusion_inv_def)+
    with Some inv update_counts(1,2) [of "m_excludedAddrSet s" r "n + 1"]
      update_counts(3) [of "m_excludedAddrSet s" "\<lambda>n. 1 \<le> n" "n + 1" r] show ?thesis
      by (auto simp: addExclusionRoute_def excluded_count_def exclusion_inv_def)
  qed
qed

lemma exclusion_inv_del: "keeps exclusion_inv (delExclusionRoute p r)"
  unfolding keeps_def
proof (intro allI impI)
  fix s :: "'a daemon"
  assume inv: "exclusion_inv s"
  show "exclusion_inv (snd (delExclusionRoute p r s))"
  proof (cases "excluded_count r s > 1")
    case True
    then obtain n where n: "map_of (m_excludedAddrSet s) r = Some n" "n > 1"
      by (auto simp: excluded_count_def split: option.splits)
    then have "(r, n) \<in> set (m_excludedAddrSet s)"
      by (blast intro: map_of_SomeD)
    with inv have "r \<in> tracked (events s)"
      by (force simp: exclusion_inv_def)
    with n inv update_counts(1,2) [of "m_excludedAddrSet s" r "n - 1"]
      update_counts(3) [of "m_excludedAddrSet s" "\<lambda>n. 1 \<le> n" "n - 1" r] show ?thesis
      by (auto simp: delExclusionRoute_def excluded_count_def exclusion_inv_def)
  next
    case False
    with inv delete_counts(1,2) [of "m_excludedAddrSet s" r]
      delete_counts(3) [of "m_excludedAddrSet s" "\<lambda>n. 1 \<le> n" r] show ?thesis
      by (simp add: delExclusionRoute_def exclusion_inv_def call_fields tracked_snoc)
  qed
qed

lemma exclusion_inv_emit [simp]: "exclusion_inv (emit_signal sg s) \<longleftrightarrow> exclusion_inv s"
  by (simp add: exclusion_inv_def emit_signal_def tracked_snoc)

lemma exclusion_inv_connection [simp]:
  "exclusion_inv (set_connection config s) \<longleftrightarrow> exclusion_inv s"
  "exclusion_inv (s\<lparr>m_handshakeTimer := b\<rparr>) \<longleftrightarrow> exclusion_inv s"
  "exclusion_inv (s\<lparr>m_connections := m\<rparr>) \<longleftrightarrow> exclusion_inv s"
  by (simp_all add: exclusion_inv_def set_connection_def)

lemma exclusion_inv_resolvers: "keeps exclusion_inv (maybeUpdateResolvers p config)"
  by (simp add: maybeUpdateResolvers_def Let_def exclusion_inv_call keeps_succeed routing_call_def)

lemma exclusion_inv_establish: "keeps exclusion_inv (establish config)"
  by (simp add: keeps_def establish_def)

lemmas exclusion_keeps = keeps_attempt keeps_if keeps_attempt_all keeps_succeed exclusion_inv_call
  exclusion_inv_add exclusion_inv_del exclusion_inv_resolvers exclusion_inv_establish

text \<open>Sequencing with a state that is computed from the one before.\<close>

lemma keeps_attempt_then:
  assumes "keeps I f" and "\<And>s. I s \<Longrightarrow> I (snd (g s))" and "I s"
  shows "I (snd (attempt f g s))"
  using keepsD [OF assms(1,3)] assms(2) by (auto simp: attempt_def split: prod.splits)

lemmas exclusion_states = keepsD [where I = exclusion_inv] keeps_for_each [where I = exclusion_inv]
  keeps_attempt_then [where I = exclusion_inv]

lemma exclusion_inv_new: "exclusion_inv s \<Longrightarrow> exclusion_inv (snd (activate_new p config s))"
  unfolding activate_new_def
proof (rule keeps_attempt_then [where I = exclusion_inv])
  show "keeps exclusion_inv (bring_up p config)"
    by (intro keeps_bring_up exclusion_inv_call) (simp_all add: routing_call_def)
  show "exclusion_inv (snd (call p (PrepareActivation config) s))" if "exclusion_inv s"
    using that by (simp add: keepsD [OF exclusion_inv_call] routing_call_def)
  show "exclusion_inv (snd (attempt (call p (UpdatePeer config))
      (attempt (maybeUpdateResolvers p config)
      (attempt (if supportIPUtils p
                then attempt (call p (AddInterfaceIPs config)) (call p (SetMTUAndUp config)) else succeed)
      (attempt (attempt_all (\<lambda>ip. call p (UpdateRoutePrefix ip)) (m_allowedIPAddressRanges config))
      (attempt (call p (Run Up config)) (establish config)))))
      (for_each (\<lambda>i. addExclusionRoute p (IPAddress_string (host_text p) i)) (m_excludedAddresses config) s)))"
    if "exclusion_inv s" for s
    using that by (intro keepsD [where I = exclusion_inv] keeps_for_each [where I = exclusion_inv]
        exclusion_keeps) (simp_all add: routing_call_def)
qed

lemma exclusion_inv_switchServer: "keeps exclusion_inv (switchServer p config)"
  unfolding keeps_def
proof (intro allI impI)
  fix s :: "'a daemon"
  assume inv: "exclusion_inv s"
  show "exclusion_inv (snd (switchServer p config s))"
    unfolding switchServer_def Let_def
  proof (rule keeps_attempt_then [where I = exclusion_inv], goal_cases)
    case 1
    show ?case
      by (simp add: exclusion_inv_call routing_call_def)
  next
    case (2 s2)
    then show ?case
      by (intro keepsD [where I = exclusion_inv] keeps_for_each [where I = exclusion_inv] exclusion_keeps)
        (simp_all add: routing_call_def keeps_def)
  next
    case 3
    from inv show ?case
      by (intro keeps_for_each [where I = exclusion_inv] exclusion_keeps)
  qed
qed

lemma exclusion_inv_restore: "keeps exclusion_inv (restore_resolvers p)"
  by (simp add: restore_resolvers_def exclusion_inv_call routing_call_def keeps_succeed)

lemma exclusion_inv_switch: "keeps exclusion_inv (activate_switch p config)"
  unfolding activate_switch_def
  by (intro exclusion_keeps exclusion_inv_switchServer exclusion_inv_restore) (simp_all add: routing_call_def)

text \<open>Taking the connections down: the loops over connections and over the routes that are left.\<close>

lemma delete_routes:
  "tracked (events (for_each (\<lambda>(route, _). call p (DeleteExclusionRoute route)) al s)) =
     tracked (events s) - fst ` set al"
proof (induction al arbitrary: s)
  case (Cons a al)
  show ?case
    using Cons [of "snd (call p (DeleteExclusionRoute (fst a)) s)"]
    by (auto simp: case_prod_unfold call_fields tracked_snoc)
qed simp

lemma exclusion_inv_delete_connection: "keeps exclusion_inv (delete_connection p state)"
  unfolding keeps_def delete_connection_def
  by (intro allI impI keepsD [where I = exclusion_inv] keeps_for_each [where I = exclusion_inv] exclusion_keeps)
    (simp_all add: routing_call_def)

lemma exclusion_inv_clean_up: "keeps exclusion_inv (clean_up p)"
  unfolding keeps_def
proof (intro allI impI)
  fix s :: "'a daemon"
  assume "exclusion_inv s"
  then have s1: "exclusion_inv (for_each (delete_connection p) (connection_list s) s)"
    by (intro keeps_for_each [where I = exclusion_inv] exclusion_inv_delete_connection)
  show "exclusion_inv (snd (clean_up p s))"
    unfolding clean_up_def Let_def
  proof (intro keepsD [where I = exclusion_inv] exclusion_keeps)
    show "exclusion_inv ((for_each (\<lambda>(route, _). call p (DeleteExclusionRoute route))
        (m_excludedAddrSet (for_each (delete_connection p) (connection_list s) s))
        (for_each (delete_connection p) (connection_list s) s))\<lparr>m_excludedAddrSet := []\<rparr>)"
      using s1 by (simp add: exclusion_inv_def delete_routes)
  qed (simp_all add: routing_call_def keeps_def)
qed

lemma exclusion_inv_run_down: "keeps exclusion_inv (run_down p)"
  by (simp add: keeps_def run_down_def keepsD [OF exclusion_inv_call] routing_call_def split: list.splits)

lemma exclusion_inv_deactivate: "keeps exclusion_inv (deactivate p b)"
  unfolding deactivate_def
  by (intro keeps_attempt exclusion_inv_run_down exclusion_inv_restore exclusion_inv_clean_up exclusion_inv_call)
    (simp_all add: routing_call_def keeps_def)

lemma exclusion_inv_report [simp]: "exclusion_inv (snd (report_failure r)) \<longleftrightarrow> exclusion_inv (snd r)"
  by (cases r) (simp add: report_failure_def)

lemma exclusion_inv_activate: "keeps exclusion_inv (activate p config)"
  unfolding keeps_def
proof (intro allI impI)
  fix s :: "'a daemon"
  assume "exclusion_inv s"
  then show "exclusion_inv (snd (activate p config s))"
  proof (induction p config s rule: activate.induct)
    case (1 p config s)
    have "exclusion_inv (snd (case deactivate p False s of (ok, s') \<Rightarrow>
        if ok then activate p config s' else (False, s')))"
      if "m_connections s (m_hopType config) \<noteq> None" "\<not> supportServerSwitching config s"
      using 1 that keepsD [OF exclusion_inv_deactivate 1(2), of p False] by (auto split: prod.splits)
    then show ?case
      using 1(2) keepsD [OF exclusion_inv_switch 1(2)] exclusion_inv_new [OF 1(2)]
      by (subst activate.simps) simp
  qed
qed

lemma exclusion_inv_checkHandshake: "exclusion_inv s \<Longrightarrow> exclusion_inv (checkHandshake p s)"
proof -
  have step: "exclusion_inv (check_connection peers hop s) \<longleftrightarrow> exclusion_inv s" for peers hop and s :: "'a daemon"
    by (simp add: check_connection_def exclusion_inv_def split: option.splits prod.splits)
  have "exclusion_inv (foldl (\<lambda>s hop. check_connection peers hop s) s hops) \<longleftrightarrow> exclusion_inv s"
    for peers hops and s :: "'a daemon"
    by (induction hops arbitrary: s) (simp_all add: step)
  then show "exclusion_inv s \<Longrightarrow> exclusion_inv (checkHandshake p s)"
    by (simp add: checkHandshake_def Let_def)
qed

section \<open>The states of the daemon\<close>

inductive reachable :: "'w platform \<Rightarrow> 'w daemon \<Rightarrow> bool" for p :: "'w platform" where
  start: "reachable p (daemon_init w)"
| activate: "reachable p s \<Longrightarrow> reachable p (snd (activate p config s))"
| deactivate: "reachable p s \<Longrightarrow> reachable p (snd (deactivate p b s))"
| timeout: "reachable p s \<Longrightarrow> reachable p (checkHandshake p s)"
| status: "reachable p s \<Longrightarrow> reachable p (snd (getStatus p s))"

lemma exclusion_inv_getStatus: "exclusion_inv s \<Longrightarrow> exclusion_inv (snd (getStatus p s))"
  using keepsD [OF exclusion_inv_call [of InterfaceExists p], of s]
  by (auto simp: getStatus_def routing_call_def split: prod.splits)

lemma reachable_exclusion_inv: "reachable p s \<Longrightarrow> exclusion_inv s"
proof (induction rule: reachable.induct)
  case (start w)
  show ?case
    by (simp add: exclusion_inv_def daemon_init_def tracked_def installed_def)
qed (simp_all add: keepsD [OF exclusion_inv_activate] keepsD [OF exclusion_inv_deactivate]
      exclusion_inv_checkHandshake exclusion_inv_getStatus)

section \<open>Counted routes\<close>

text \<open>
  The contract of a counted set of routes: the counts are a multiset, adding counts one up if it
  succeeds and always succeeds on a route that is counted, deleting counts one down, and the
  platform loses a route only when its last count goes.
\<close>

locale counted_routes =
  fixes good :: "'s \<Rightarrow> bool"
    and bag :: "'s \<Rightarrow> 'k multiset"
    and add :: "'k \<Rightarrow> 's \<Rightarrow> bool \<times> 's"
    and del :: "'k \<Rightarrow> 's \<Rightarrow> bool \<times> 's"
    and lost :: "'s \<Rightarrow> 'k \<Rightarrow> nat"
  assumes add_good: "good s \<Longrightarrow> good (snd (add k s))"
    and del_good: "good s \<Longrightarrow> good (snd (del k s))"
    and add_bag: "good s \<Longrightarrow> bag (snd (add k s)) = (if fst (add k s) then add_mset k (bag s) else bag s)"
    and add_counted: "good s \<Longrightarrow> k \<in># bag s \<Longrightarrow> fst (add k s)"
    and add_lost: "good s \<Longrightarrow> lost (snd (add k s)) = lost s"
    and del_bag: "good s \<Longrightarrow> bag (snd (del k s)) = bag s - {#k#}"
    and del_lost: "good s \<Longrightarrow> lost (snd (del k s)) i =
      lost s i + (if i = k \<and> count (bag s) k \<le> 1 then 1 else 0)"
begin

lemma adds:
  assumes "good s"
  shows "good (foldl (\<lambda>s k. snd (add k s)) s ks)"
    and "lost (foldl (\<lambda>s k. snd (add k s)) s ks) = lost s"
    and "k \<in># bag s \<Longrightarrow> count (bag (foldl (\<lambda>s k. snd (add k s)) s ks)) k = count (bag s) k + count_list ks k"
proof -
  have "good (foldl (\<lambda>s k. snd (add k s)) s ks) \<and> lost (foldl (\<lambda>s k. snd (add k s)) s ks) = lost s \<and>
      (k \<in># bag s \<longrightarrow>
        count (bag (foldl (\<lambda>s k. snd (add k s)) s ks)) k = count (bag s) k + count_list ks k)"
    using assms
  proof (induction ks arbitrary: s)
    case (Cons a ks)
    have "k \<in># bag (snd (add a s)) \<and> count (bag (snd (add a s))) k = count (bag s) k + (if a = k then 1 else 0)"
      if "k \<in># bag s"
      using that add_bag [OF Cons.prems, of a] add_counted [OF Cons.prems, of a] by (cases "a = k") auto
    with Cons.IH [OF add_good [OF Cons.prems, of a]] add_lost [OF Cons.prems, of a] show ?case
      by simp
  qed simp
  then show "good (foldl (\<lambda>s k. snd (add k s)) s ks)"
    "lost (foldl (\<lambda>s k. snd (add k s)) s ks) = lost s"
    "k \<in># bag s \<Longrightarrow> count (bag (foldl (\<lambda>s k. snd (add k s)) s ks)) k = count (bag s) k + count_list ks k"
    by blast+
qed

lemma dels:
  assumes "good s"
  shows "good (foldl (\<lambda>s k. snd (del k s)) s ks)"
    and "bag (foldl (\<lambda>s k. snd (del k s)) s ks) = bag s - mset ks"
    and "count_list ks k < count (bag s) k \<Longrightarrow> lost (foldl (\<lambda>s k. snd (del k s)) s ks) k = lost s k"
proof -
  have "good (foldl (\<lambda>s k. snd (del k s)) s ks) \<and>
      bag (foldl (\<lambda>s k. snd (del k s)) s ks) = bag s - mset ks \<and>
      (count_list ks k < count (bag s) k \<longrightarrow> lost (foldl (\<lambda>s k. snd (del k s)) s ks) k = lost s k)"
    using assms
  proof (induction ks arbitrary: s)
    case (Cons a ks)
    note step = del_good [OF Cons.prems, of a] del_bag [OF Cons.prems, of a]
      del_lost [OF Cons.prems, of a k]
    show ?case
      using Cons.IH [OF step(1)] step(2,3) by (cases "a = k") simp_all
  qed simp
  then show "good (foldl (\<lambda>s k. snd (del k s)) s ks)"
    "bag (foldl (\<lambda>s k. snd (del k s)) s ks) = bag s - mset ks"
    "count_list ks k < count (bag s) k \<Longrightarrow> lost (foldl (\<lambda>s k. snd (del k s)) s ks) k = lost s k"
    by blast+
qed

end

text \<open>The counts of the daemon as a multiset, and how often the platform lost a route.\<close>

definition exclusions :: "'w daemon \<Rightarrow> IPAddress multiset" where
  "exclusions s = (\<Sum>(r, n) \<leftarrow> m_excludedAddrSet s. replicate_mset (nat n) r)"

definition deletions :: "'w daemon \<Rightarrow> IPAddress \<Rightarrow> nat" where
  "deletions s r = length (filter (\<lambda>e. case e of Called c _ \<Rightarrow> c = DeleteExclusionRoute r | _ \<Rightarrow> False) (events s))"

lemma count_exclusions:
  assumes "distinct (map fst (m_excludedAddrSet s))"
  shows "count (exclusions s) r = nat (excluded_count r s)"
proof -
  have "count (\<Sum>(r, n) \<leftarrow> al. replicate_mset (nat n) r) r =
      nat (case map_of al r of None \<Rightarrow> 0 | Some n \<Rightarrow> n)" if "distinct (map fst al)" for al
    using that
  proof (induction al)
    case (Cons a al)
    have "map_of al r = None" if "fst a = r"
      using Cons.prems that by (force simp: map_of_eq_None_iff)
    with Cons show ?case
      by (cases a) auto
  qed simp
  from this [OF assms] show ?thesis
    by (simp add: exclusions_def excluded_count_def)
qed

lemma excluded_count_positive:
  "exclusion_inv s \<Longrightarrow> map_of (m_excludedAddrSet s) r = Some n \<Longrightarrow> 1 \<le> n"
  by (force simp: exclusion_inv_def dest: map_of_SomeD)

lemma excluded_count_update [simp]:
  "excluded_count r (s\<lparr>m_excludedAddrSet := AList.update k v (m_excludedAddrSet s)\<rparr>) =
     (if r = k then v else excluded_count r s)"
  "excluded_count r (s\<lparr>m_excludedAddrSet := AList.delete k (m_excludedAddrSet s)\<rparr>) =
     (if r = k then 0 else excluded_count r s)"
  by (simp_all add: excluded_count_def update_conv' delete_conv')

lemma excluded_count_call [simp]: "excluded_count r (snd (call p c s)) = excluded_count r s"
  by (simp add: excluded_count_def call_fields)

lemma add_route:
  assumes inv: "exclusion_inv s"
  shows "exclusions (snd (addExclusionRoute p k s)) =
      (if fst (addExclusionRoute p k s) then add_mset k (exclusions s) else exclusions s)"
    and "k \<in># exclusions s \<Longrightarrow> fst (addExclusionRoute p k s)"
    and "deletions (snd (addExclusionRoute p k s)) = deletions s"
proof -
  have count: "count (exclusions s) r = nat (excluded_count r s)" for r
    using inv by (simp add: count_exclusions exclusion_inv_def)
  have count': "count (exclusions (snd (addExclusionRoute p k s))) r =
      nat (excluded_count r (snd (addExclusionRoute p k s)))" for r
    using keepsD [OF exclusion_inv_add inv, of p k] by (simp add: count_exclusions exclusion_inv_def)
  obtain ok s1 where c: "call p (AddExclusionRoute k) s = (ok, s1)"
    by fastforce
  have s1: "excluded_count r s1 = excluded_count r s" "m_excludedAddrSet s1 = m_excludedAddrSet s" for r
    using excluded_count_call [of r p "AddExclusionRoute k" s] call_fields(2) [of p "AddExclusionRoute k" s] c
    by simp_all
  have new: "excluded_count k s = 0" if "map_of (m_excludedAddrSet s) k = None"
    using that by (simp add: excluded_count_def)
  have old: "1 \<le> excluded_count k s" if "map_of (m_excludedAddrSet s) k \<noteq> None"
    using that excluded_count_positive [OF inv] by (auto simp: excluded_count_def)
  show "exclusions (snd (addExclusionRoute p k s)) =
      (if fst (addExclusionRoute p k s) then add_mset k (exclusions s) else exclusions s)"
  proof (rule multiset_eqI)
    fix r
    show "count (exclusions (snd (addExclusionRoute p k s))) r =
        count (if fst (addExclusionRoute p k s) then add_mset k (exclusions s) else exclusions s) r"
      unfolding count' using new old s1(1) c
      by (cases "map_of (m_excludedAddrSet s) k"; cases ok) (auto simp: addExclusionRoute_def attempt_def count)
  qed
  show "k \<in># exclusions s \<Longrightarrow> fst (addExclusionRoute p k s)"
    using new by (auto simp: addExclusionRoute_def count count_greater_zero_iff [symmetric]
        simp del: count_greater_zero_iff)
  show "deletions (snd (addExclusionRoute p k s)) = deletions s"
    using c call_fields(4) [of p "AddExclusionRoute k" s]
    by (auto simp: addExclusionRoute_def attempt_def deletions_def fun_eq_iff)
qed

lemma del_route:
  assumes inv: "exclusion_inv s"
  shows "exclusions (snd (delExclusionRoute p k s)) = exclusions s - {#k#}"
    and "deletions (snd (delExclusionRoute p k s)) i =
      deletions s i + (if i = k \<and> count (exclusions s) k \<le> 1 then 1 else 0)"
proof -
  have count: "count (exclusions s) r = nat (excluded_count r s)" for r
    using inv by (simp add: count_exclusions exclusion_inv_def)
  have count': "count (exclusions (snd (delExclusionRoute p k s))) r =
      nat (excluded_count r (snd (delExclusionRoute p k s)))" for r
    using keepsD [OF exclusion_inv_del inv, of p k] by (simp add: count_exclusions exclusion_inv_def)
  show "exclusions (snd (delExclusionRoute p k s)) = exclusions s - {#k#}"
    by (rule multiset_eqI, unfold count') (auto simp: count delExclusionRoute_def)
  show "deletions (snd (delExclusionRoute p k s)) i =
      deletions s i + (if i = k \<and> count (exclusions s) k \<le> 1 then 1 else 0)"
    by (auto simp: delExclusionRoute_def count deletions_def call_fields)
qed

interpretation routes: counted_routes exclusion_inv exclusions "addExclusionRoute p" "delExclusionRoute p" deletions
  for p
  by unfold_locales
    (simp_all add: keepsD [OF exclusion_inv_add] keepsD [OF exclusion_inv_del] add_route del_route)

text \<open>Calls that are not about excluded addresses leave the counts and the deletions alone.\<close>

definition counts_are :: "IPAddress multiset \<Rightarrow> (IPAddress \<Rightarrow> nat) \<Rightarrow> 'w daemon \<Rightarrow> bool" where
  "counts_are B D s \<longleftrightarrow> exclusion_inv s \<and> exclusions s = B \<and> deletions s = D"

lemma counts_are_call: "\<not> routing_call c \<Longrightarrow> keeps (counts_are B D) (call p c)"
  unfolding keeps_def counts_are_def
  using keepsD [OF exclusion_inv_call]
  by (auto simp: exclusions_def call_fields deletions_def fun_eq_iff routing_call_def)

lemma counted_installed:
  assumes "exclusion_inv s" and "r \<in># exclusions s"
  shows "r \<in> installed (events s)"
proof -
  have "0 < nat (excluded_count r s)"
    using assms by (metis count_exclusions count_greater_zero_iff exclusion_inv_def)
  then have "map_of (m_excludedAddrSet s) r \<noteq> None"
    by (auto simp: excluded_count_def split: option.splits)
  then have "r \<in> fst ` set (m_excludedAddrSet s)"
    by (simp add: map_of_eq_None_iff)
  with assms(1) show ?thesis
    by (simp add: exclusion_inv_def tracked_def)
qed

lemma switchServer_shared:
  assumes inv: "exclusion_inv s" and last: "connection_config s (m_hopType config) = Some lastConfig"
    and new: "r \<in> set (map (IPAddress_string (host_text p)) (m_excludedAddresses config))"
    and counted: "r \<in># exclusions s"
      "count_list (map (host_key p) (m_excludedAddresses lastConfig)) r \<le> count (exclusions s) r"
  shows "deletions (snd (switchServer p config s)) r = deletions s r \<and>
    r \<in># exclusions (snd (switchServer p config s))"
proof -
  let ?adds = "map (IPAddress_string (host_text p)) (m_excludedAddresses config)"
  let ?dels = "map (host_key p) (m_excludedAddresses lastConfig)"
  define s1 where "s1 = foldl (\<lambda>s k. snd (addExclusionRoute p k s)) s ?adds"
  have s1: "for_each (\<lambda>i. addExclusionRoute p (IPAddress_string (host_text p) i)) (m_excludedAddresses config) s = s1"
    by (simp add: s1_def for_each_foldl foldl_map)
  note adds = routes.adds [OF inv, where p = p and ks = ?adds, folded s1_def]
  have "0 < count_list ?adds r"
    using new by (metis count_list_0_iff gr0I)
  then have more: "count_list ?dels r < count (exclusions s1) r"
    using adds(3) [OF counted(1)] counted(2) by simp
  have s1_is: "counts_are (exclusions s1) (deletions s1) s1"
    using adds(1) by (simp add: counts_are_def)
  obtain ok s2 where c: "call p (UpdatePeer config) s1 = (ok, s2)"
    by fastforce
  then have s2_is: "counts_are (exclusions s1) (deletions s1) s2"
    using keepsD [OF counts_are_call [of "UpdatePeer config"] s1_is, of p] by (simp add: routing_call_def)
  define s3 where "s3 = snd (attempt_all (\<lambda>ip. call p (UpdateRoutePrefix ip)) (m_allowedIPAddressRanges config) s2)"
  have s3_is: "counts_are (exclusions s1) (deletions s1) s3"
    unfolding s3_def
    by (intro keepsD [where I = "counts_are (exclusions s1) (deletions s1)", OF _ s2_is]
        keeps_attempt_all counts_are_call) (simp add: routing_call_def)
  define s4 where "s4 = foldl (\<lambda>s k. snd (delExclusionRoute p k s)) s3 ?dels"
  have s4: "for_each (\<lambda>i. delExclusionRoute p (host_key p i)) (m_excludedAddresses lastConfig) s3 = s4"
    by (simp add: s4_def for_each_foldl foldl_map)
  note dels = routes.dels [where p = p and s = s3 and ks = ?dels, folded s4_def]
  have kept: "deletions s4 r = deletions s1 r" "r \<in># exclusions s4" "exclusion_inv s4"
    using s3_is more dels count_mset [of ?dels r]
    by (auto simp: counts_are_def count_greater_zero_iff [symmetric] simp del: count_greater_zero_iff mset_map)
  have s4_is: "counts_are (exclusions s4) (deletions s4) s4"
    using kept(3) by (simp add: counts_are_def)
  have "counts_are (exclusions s4) (deletions s4)
      (snd (attempt (if \<not> qs_eq (m_serverPublicKey config) (m_serverPublicKey lastConfig)
                     then call p (DeletePeer lastConfig) else succeed)
        (\<lambda>s6. (True, set_connection config s6))
        (for_each (\<lambda>ip. if ip \<notin> set (m_allowedIPAddressRanges config)
           then call p (DeleteRoutePrefix ip) else succeed) (m_allowedIPAddressRanges lastConfig) s4)))"
    by (intro keepsD [where I = "counts_are (exclusions s4) (deletions s4)"] 
        keeps_for_each [where I = "counts_are (exclusions s4) (deletions s4)", OF _ s4_is] keeps_attempt keeps_if keeps_succeed counts_are_call)
      (simp_all add: routing_call_def keeps_def counts_are_def exclusions_def deletions_def set_connection_def
        exclusion_inv_def fun_eq_iff)
  with kept adds(2) c s2_is more show ?thesis
    unfolding switchServer_def last option.case Let_def s1
    by (auto simp: attempt_def s3_def [symmetric] s4 counts_are_def count_greater_zero_iff [symmetric]
        simp del: count_greater_zero_iff split: prod.splits)
qed

end
