(* ===== verification/DaemonOutcomes.thy ===== *)
theory DaemonOutcomes
  imports DaemonRoutes
begin

text \<open>
  What the operations of the daemon do as a whole: the signals an activation emits, the calls a
  deactivation makes, the handshakes; and the properties of the daemon.
\<close>

section \<open>The signals\<close>

definition signals :: "'w daemon \<Rightarrow> signal list" where
  "signals s = List.map_filter (\<lambda>e. case e of Emitted sg \<Rightarrow> Some sg | _ \<Rightarrow> None) (events s)"

lemma signals_emit [simp]: "signals (emit_signal sg s) = signals s @ [sg]"
  by (simp add: signals_def emit_signal_def map_filter_def)

lemma signals_call [simp]: "signals (snd (call p c s)) = signals s"
  by (simp add: signals_def call_fields map_filter_def)

lemma signals_update [simp]:
  "signals (s\<lparr>m_excludedAddrSet := al\<rparr>) = signals s" "signals (set_connection config s) = signals s"
  "signals (s\<lparr>m_handshakeTimer := b\<rparr>) = signals s" "signals (s\<lparr>m_connections := m\<rparr>) = signals s"
  by (simp_all add: signals_def set_connection_def)

text \<open>Actions that emit nothing.\<close>

definition quiet :: "'w action \<Rightarrow> bool" where
  "quiet f \<longleftrightarrow> (\<forall>s. signals (snd (f s)) = signals s)"

lemma quietI: "(\<And>s. signals (snd (f s)) = signals s) \<Longrightarrow> quiet f"
  by (simp add: quiet_def)

lemma quietD: "quiet f \<Longrightarrow> signals (snd (f s)) = signals s"
  by (simp add: quiet_def)

lemma quiet_attempt_then:
  assumes "quiet f" and "\<And>s. signals (snd (g s)) = signals s"
  shows "signals (snd (attempt f g s)) = signals s"
  using quietD [OF assms(1), of s] assms(2) by (auto simp: attempt_def split: prod.splits)

lemma quiet_call: "quiet (call p c)"
  by (rule quietI) simp

lemma quiet_attempt: "quiet f \<Longrightarrow> quiet g \<Longrightarrow> quiet (attempt f g)"
  by (intro quietI quiet_attempt_then) (simp_all add: quietD)

lemma quiet_succeed: "quiet succeed"
  by (simp add: quiet_def succeed_def)

lemma quiet_attempt_all: "(\<And>x. quiet (f x)) \<Longrightarrow> quiet (attempt_all f xs)"
  by (induction xs) (simp_all add: quiet_succeed quiet_attempt)

lemma quiet_for_each: "(\<And>x. quiet (f x)) \<Longrightarrow> signals (for_each f xs s) = signals s"
  by (induction xs arbitrary: s) (simp_all add: quietD)

lemma quiet_if: "quiet f \<Longrightarrow> quiet g \<Longrightarrow> quiet (if b then f else g)"
  by simp

lemma quiet_add: "quiet (addExclusionRoute p r)"
proof (rule quietI)
  fix s :: "'a daemon"
  obtain ok s1 where "call p (AddExclusionRoute r) s = (ok, s1)"
    by fastforce
  with signals_call [of p "AddExclusionRoute r" s] show "signals (snd (addExclusionRoute p r s)) = signals s"
    by (simp add: addExclusionRoute_def attempt_def)
qed

lemma quiet_del: "quiet (delExclusionRoute p r)"
  by (rule quietI) (simp add: delExclusionRoute_def)

lemma quiet_resolvers: "quiet (maybeUpdateResolvers p config)"
  by (simp add: maybeUpdateResolvers_def Let_def quiet_call quiet_succeed)

lemma quiet_restore: "quiet (restore_resolvers p)"
  by (simp add: restore_resolvers_def quiet_call quiet_succeed)

lemma quiet_establish: "quiet (establish config)"
  by (rule quietI) (simp add: establish_def)

lemma quiet_bring_up: "quiet (bring_up p config)"
  using keeps_bring_up [where I = "\<lambda>s. signals s = S" and p = p and config = config for S]
  by (simp add: quiet_def keeps_def)

lemmas quiet_intros = quiet_attempt quiet_attempt_all quiet_if quiet_add quiet_del quiet_succeed quiet_call
  quiet_resolvers quiet_restore quiet_establish quiet_bring_up

lemma quiet_delete_connection: "quiet (delete_connection p state)"
  by (intro quietI) (simp add: delete_connection_def quiet_for_each quiet_call)

lemma quiet_switchServer: "quiet (switchServer p config)"
proof (rule quietI)
  fix s :: "'a daemon"
  have "signals (for_each (\<lambda>i. addExclusionRoute p (IPAddress_string (host_text p) i)) is t) = signals t"
    and "signals (for_each (\<lambda>i. delExclusionRoute p (host_key p i)) is t) = signals t"
    and "signals (for_each (\<lambda>ip. if ip \<notin> A then call p (DeleteRoutePrefix ip) else succeed) ips t) = signals t"
    for "is" ips A and t :: "'a daemon"
    by (rule quiet_for_each, intro quiet_intros)+
  moreover have "signals (snd (attempt_all (\<lambda>ip. call p (UpdateRoutePrefix ip)) ips t)) = signals t"
    for ips and t :: "'a daemon"
    by (rule quietD) (intro quiet_intros)
  moreover have "signals (snd (attempt (if b then call p c else succeed) (\<lambda>s. (True, set_connection config s)) t)) =
      signals t" for b c and t :: "'a daemon"
    by (rule quiet_attempt_then, intro quiet_intros) simp
  ultimately show "signals (snd (switchServer p config s)) = signals s"
    unfolding switchServer_def Let_def
    by (subst quiet_attempt_then [OF quiet_call]) simp_all
qed

lemma quiet_activate_new: "quiet (activate_new p config)"
proof (rule quietI)
  fix s :: "'a daemon"
  have "quiet (attempt (call p (UpdatePeer config))
      (attempt (maybeUpdateResolvers p config)
      (attempt (if supportIPUtils p
                then attempt (call p (AddInterfaceIPs config)) (call p (SetMTUAndUp config)) else succeed)
      (attempt (attempt_all (\<lambda>ip. call p (UpdateRoutePrefix ip)) (m_allowedIPAddressRanges config))
      (attempt (call p (Run Up config)) (establish config))))))"
    by (intro quiet_intros)
  note rest = quietD [OF this]
  have adds: "signals (for_each (\<lambda>i. addExclusionRoute p (IPAddress_string (host_text p) i)) is t) = signals t"
    for "is" and t :: "'a daemon"
    by (rule quiet_for_each, intro quiet_intros)
  show "signals (snd (activate_new p config s)) = signals s"
    unfolding activate_new_def
    by (subst quiet_attempt_then [OF quiet_bring_up]) (simp_all add: rest adds)
qed

lemma quiet_activate_switch: "quiet (activate_switch p config)"
  unfolding activate_switch_def by (intro quiet_intros quiet_switchServer)

lemma quiet_clean_up: "quiet (clean_up p)"
proof (rule quietI)
  fix s :: "'a daemon"
  have "signals (for_each (delete_connection p) cs t) = signals t"
    and "signals (for_each (\<lambda>(route, _). call p (DeleteExclusionRoute route)) al t) = signals t"
    for cs and al :: "(IPAddress \<times> int) list" and t :: "'a daemon"
    by (rule quiet_for_each, simp add: quiet_delete_connection,
        rule quiet_for_each, simp add: quiet_call split_def)
  then show "signals (snd (clean_up p s)) = signals s"
    unfolding clean_up_def Let_def
    by (subst quiet_attempt_then [OF quiet_call]) simp_all
qed

lemma quiet_run_down: "quiet (run_down p)"
  by (rule quietI) (simp add: run_down_def split: list.splits)

lemma quiet_deactivate: "quiet (deactivate p False)"
  unfolding deactivate_def if_False
  by (intro quiet_intros quiet_run_down quiet_restore quiet_clean_up) (simp add: quiet_def)

section \<open>Outcomes\<close>

lemma establish_connects:
  "establish config s = (ok, s') \<Longrightarrow> ok \<and> m_connections s' (m_hopType config) = Some \<lparr>m_date = None, m_config = config\<rparr> \<and>
     m_handshakeTimer s'"
  by (auto simp: establish_def set_connection_def)

lemma activate_new_connects:
  "activate_new p config s = (True, s') \<Longrightarrow>
   m_connections s' (m_hopType config) = Some \<lparr>m_date = None, m_config = config\<rparr> \<and> m_handshakeTimer s'"
  by (auto simp: activate_new_def attempt_True dest: establish_connects)

lemma activate_switch_connects:
  "activate_switch p config s = (True, s') \<Longrightarrow>
   m_connections s' (m_hopType config) = Some \<lparr>m_date = None, m_config = config\<rparr> \<and> m_handshakeTimer s'"
  by (auto simp: activate_switch_def attempt_True dest: establish_connects)

lemma report_failure_cases:
  "report_failure (ok, t) = (ok', s') \<longleftrightarrow> ok' = ok \<and> s' = (if ok then t else emit_signal ActivationFailure t)"
  by (auto simp: report_failure_def)

lemma quiet_result: "quiet f \<Longrightarrow> f s = (ok, s') \<Longrightarrow> signals s' = signals s"
  by (metis quietD snd_conv)

text \<open>A hop without a connection takes the first branch; after a successful \<open>deactivate\<close> so does every hop.\<close>

lemma activate_fresh:
  "m_connections s (m_hopType config) = None \<Longrightarrow> activate p config s = report_failure (activate_new p config s)"
  by (subst activate.simps) simp

lemma activate_fresh_outcome:
  assumes "m_connections s (m_hopType config) = None" and "activate p config s = (ok, s')"
  shows "if ok then signals s' = signals s \<and> m_handshakeTimer s' \<and>
           m_connections s' (m_hopType config) = Some \<lparr>m_date = None, m_config = config\<rparr>
         else signals s' = signals s @ [ActivationFailure]"
proof -
  obtain ok1 t where "activate_new p config s = (ok1, t)"
    by fastforce
  with assms activate_new_connects [of p config s t] quiet_result [OF quiet_activate_new, of p config s ok1 t]
  show ?thesis
    by (auto simp: activate_fresh report_failure_cases)
qed

lemma activate_outcome:
  assumes "activate p config s = (ok, s')"
  shows "if ok then signals s' = signals s \<and> m_handshakeTimer s' \<and>
           m_connections s' (m_hopType config) = Some \<lparr>m_date = None, m_config = config\<rparr>
         else signals s' = signals s @ [ActivationFailure] \<or>
           signals s' = signals s @ [ActivationFailure, ActivationFailure]"
proof (cases "m_connections s (m_hopType config) = None")
  case True
  from activate_fresh_outcome [OF this assms] show ?thesis
    by (auto split: if_splits)
next
  case False
  show ?thesis
  proof (cases "supportServerSwitching config s")
    case True
    obtain ok1 t where t: "activate_switch p config s = (ok1, t)"
      by fastforce
    with False True assms have "report_failure (ok1, t) = (ok, s')"
      by (simp add: activate.simps)
    with activate_switch_connects [of p config s t] quiet_result [OF quiet_activate_switch t] t show ?thesis
      by (auto simp: report_failure_cases)
  next
    case no: False
    obtain ok1 t where t: "deactivate p False s = (ok1, t)"
      by fastforce
    note same = quiet_result [OF quiet_deactivate t]
    obtain ok2 u where u: "activate p config t = (ok2, u)"
      by fastforce
    have r: "report_failure (if ok1 then (ok2, u) else (False, t)) = (ok, s')"
      using False no assms t u by (subst (asm) activate.simps) (simp split: if_splits)
    show ?thesis
    proof (cases ok1)
      case True
      have "m_connections t (m_hopType config) = None"
        using deactivate_clears [of p False s t] t True by simp
      from activate_fresh_outcome [OF this u] r True same show ?thesis
        by (auto simp: report_failure_cases split: if_splits)
    qed (use r same in \<open>auto simp: report_failure_cases\<close>)
  qed
qed

text \<open>The calls of the platform, in order.\<close>

definition platform_calls :: "'w daemon \<Rightarrow> platform_call list" where
  "platform_calls s = List.map_filter (\<lambda>e. case e of Called c _ \<Rightarrow> Some c | _ \<Rightarrow> None) (events s)"

lemma calls_call [simp]: "platform_calls (snd (call p c s)) = platform_calls s @ [c]"
  by (simp add: platform_calls_def call_fields map_filter_def)

lemma calls_update [simp]:
  "platform_calls (emit_signal sg s) = platform_calls s"
  "platform_calls (s\<lparr>m_excludedAddrSet := al\<rparr>) = platform_calls s"
  "platform_calls (s\<lparr>m_connections := m\<rparr>) = platform_calls s"
  by (simp_all add: platform_calls_def emit_signal_def map_filter_def)

lemma calls_for_each:
  "platform_calls (for_each (\<lambda>x. call p (f x)) xs s) = platform_calls s @ map f xs \<and>
   m_connections (for_each (\<lambda>x. call p (f x)) xs s) = m_connections s \<and>
   m_excludedAddrSet (for_each (\<lambda>x. call p (f x)) xs s) = m_excludedAddrSet s"
  by (induction xs arbitrary: s) (simp_all add: call_fields)

definition connection_calls :: "ConnectionState \<Rightarrow> platform_call list" where
  "connection_calls state = map DeleteRoutePrefix (m_allowedIPAddressRanges (m_config state)) @ [DeletePeer (m_config state)]"

lemma calls_delete_connection:
  "platform_calls (for_each (delete_connection p) cs s) = platform_calls s @ concat (map connection_calls cs) \<and>
   m_excludedAddrSet (for_each (delete_connection p) cs s) = m_excludedAddrSet s"
  by (induction cs arbitrary: s)
    (simp_all add: delete_connection_def connection_calls_def calls_for_each call_fields)

lemma call_result: "call p c s = (ok, s') \<Longrightarrow> s' = snd (call p c s)"
  by simp

lemma calls_clean_up:
  assumes "clean_up p s = (True, s')"
  shows "platform_calls s' = platform_calls s @ concat (map connection_calls (connection_list s)) @
      map (DeleteExclusionRoute \<circ> fst) (m_excludedAddrSet s) @ [DeleteInterface]"
    and "m_excludedAddrSet s' = []"
  using assms calls_for_each [of p "DeleteExclusionRoute \<circ> fst" "m_excludedAddrSet s"]
  by (auto simp: clean_up_def Let_def attempt_True calls_delete_connection split_def o_def call_fields
      dest!: call_result)

lemma calls_deactivate:
  assumes "deactivate p b s = (True, s')"
  shows "platform_calls s' = platform_calls s @
      (case connection_list s of [] \<Rightarrow> [] | state # _ \<Rightarrow> [Run Down (m_config state)]) @
      (if supportDnsUtils p then [RestoreResolvers] else []) @ [InterfaceExists] @
      concat (map connection_calls (connection_list s)) @
      map (DeleteExclusionRoute \<circ> fst) (m_excludedAddrSet s) @ [DeleteInterface]"
    and "m_excludedAddrSet s' = []"
proof -
  obtain s1 s3 s4 where s1: "run_down p s = (True, s1)"
    and s3: "restore_resolvers p (if b then emit_signal Disconnected s1 else s1) = (True, s3)"
    and s4: "call p InterfaceExists s3 = (True, s4)" and clean: "clean_up p s4 = (True, s')"
    using assms by (auto simp: deactivate_def attempt_True)
  have "platform_calls s1 = platform_calls s @
      (case connection_list s of [] \<Rightarrow> [] | state # _ \<Rightarrow> [Run Down (m_config state)])"
    "m_connections s1 = m_connections s" "m_excludedAddrSet s1 = m_excludedAddrSet s"
    using s1 by (auto simp: run_down_def call_fields split: list.splits dest!: call_result)
  moreover have "platform_calls s3 = platform_calls s1 @ (if supportDnsUtils p then [RestoreResolvers] else [])"
    "m_connections s3 = m_connections s1" "m_excludedAddrSet s3 = m_excludedAddrSet s1"
    using s3 by (auto simp: restore_resolvers_def succeed_def call_fields emit_signal_def platform_calls_def
        map_filter_def split: if_splits dest!: call_result)
  moreover have "platform_calls s4 = platform_calls s3 @ [InterfaceExists]"
    "m_connections s4 = m_connections s3" "m_excludedAddrSet s4 = m_excludedAddrSet s3"
    using s4 by (auto simp: call_fields dest!: call_result)
  ultimately show "platform_calls s' = platform_calls s @
      (case connection_list s of [] \<Rightarrow> [] | state # _ \<Rightarrow> [Run Down (m_config state)]) @
      (if supportDnsUtils p then [RestoreResolvers] else []) @ [InterfaceExists] @
      concat (map connection_calls (connection_list s)) @
      map (DeleteExclusionRoute \<circ> fst) (m_excludedAddrSet s) @ [DeleteInterface]"
    using calls_clean_up(1) [OF clean] by (simp add: connection_list_def)
  show "m_excludedAddrSet s' = []"
    by (rule calls_clean_up(2) [OF clean])
qed

section \<open>Handshakes\<close>

definition handshaken :: "PeerStatus list \<Rightarrow> ConnectionState \<Rightarrow> bool" where
  "handshaken peers c \<longleftrightarrow> list_ex (\<lambda>status. qs_eq (m_serverPublicKey (m_config c)) (m_pubkey status) \<and>
     m_handshake status \<noteq> 0) peers"

lemma match_peers_date:
  "m_date (fst (match_peers c peers)) = None \<longleftrightarrow> m_date c = None \<and> \<not> handshaken peers c"
  "m_config (fst (match_peers c peers)) = m_config c"
  by (induction c peers rule: match_peers.induct) (auto simp: handshaken_def split: prod.splits)

lemma check_connection_table:
  "m_connections (check_connection peers hop s) = (m_connections s)(hop :=
     map_option (\<lambda>c. if m_date c \<noteq> None then c else fst (match_peers c peers)) (m_connections s hop))"
  by (auto simp: check_connection_def fun_eq_iff split: option.splits prod.splits)

lemma checkHandshake_table:
  "m_connections (checkHandshake p s) hop =
     map_option (\<lambda>c. if m_date c \<noteq> None then c else fst (match_peers c (plat_peers p (world s)))) (m_connections s hop)"
  by (cases hop) (simp_all add: checkHandshake_def Let_def all_hops_def check_connection_table)

lemma checkHandshake_timer:
  "m_handshakeTimer (checkHandshake p s) \<longleftrightarrow> (\<exists>hop. pending (checkHandshake p s) hop)"
proof -
  have "m_handshakeTimer (check_connection peers hop t) = m_handshakeTimer t" for peers hop and t :: "'a daemon"
    by (simp add: check_connection_def split: option.splits prod.splits)
  then have off: "\<not> m_handshakeTimer (foldl (\<lambda>s hop. check_connection peers hop s) (s\<lparr>m_handshakeTimer := False\<rparr>) all_hops)"
    for peers
    by (simp add: all_hops_def)
  have "pending (t\<lparr>m_handshakeTimer := b\<rparr>) = pending t" for b and t :: "'a daemon"
    by (simp add: pending_def fun_eq_iff)
  moreover have "0 < length (filter (pending t) all_hops) \<longleftrightarrow> (\<exists>hop. pending t hop)" for t :: "'a daemon"
    using all_hops(1) by (auto simp: length_greater_0_conv filter_empty_conv)
  ultimately show ?thesis
    using off by (simp add: checkHandshake_def Let_def)
qed

lemma checkHandshake_pending:
  "pending (checkHandshake p s) hop \<longleftrightarrow>
     (\<exists>c. m_connections s hop = Some c \<and> m_date c = None \<and> \<not> handshaken (plat_peers p (world s)) c)"
  by (auto simp: pending_def checkHandshake_table match_peers_date split: option.splits)

lemma match_peers_idle: "\<not> handshaken peers c \<Longrightarrow> match_peers c peers = (c, [])"
  by (induction c peers rule: match_peers.induct) (auto simp: handshaken_def)

lemma match_peers_connected:
  "handshaken peers c \<Longrightarrow>
   \<exists>key. qs_eq (m_serverPublicKey (m_config c)) key \<and> Connected key \<in> set (snd (match_peers c peers))"
  by (induction c peers rule: match_peers.induct) (auto simp: handshaken_def split: prod.splits)

definition poll_signals :: "PeerStatus list \<Rightarrow> ConnectionState option \<Rightarrow> signal list" where
  "poll_signals peers x = (case x of None \<Rightarrow> []
     | Some c \<Rightarrow> if m_date c \<noteq> None then [] else snd (match_peers c peers))"

lemma check_connection_signals:
  "signals (check_connection peers hop s) = signals s @ poll_signals peers (m_connections s hop)"
  by (simp add: check_connection_def poll_signals_def signals_def map_filter_def filter_map o_def
      split: option.splits prod.splits)

lemma signals_timer [simp]: "signals (s\<lparr>m_handshakeTimer := b\<rparr>) = signals s"
  by (simp add: signals_def)

lemma checkHandshake_signals:
  "signals (checkHandshake p s) = signals s @
     concat (map (\<lambda>hop. poll_signals (plat_peers p (world s)) (m_connections s hop)) all_hops)"
  by (simp add: checkHandshake_def Let_def all_hops_def check_connection_signals check_connection_table)

lemma checkHandshake_emits:
  assumes "m_connections s hop = Some c" and "m_date c = None"
    and "sg \<in> set (snd (match_peers c (plat_peers p (world s))))"
  shows "sg \<in> set (signals (checkHandshake p s))"
proof -
  have "sg \<in> set (poll_signals (plat_peers p (world s)) (m_connections s hop))"
    using assms by (simp add: poll_signals_def)
  then show ?thesis
    unfolding checkHandshake_signals using all_hops(1) by auto
qed

text \<open>The timer fires for as long as it runs; what the kernel reports may differ from poll to poll.\<close>

definition polls :: "'w platform \<Rightarrow> PeerStatus list list \<Rightarrow> 'w daemon \<Rightarrow> 'w daemon" where
  "polls p reports s =
    foldl (\<lambda>s peers. if m_handshakeTimer s then checkHandshake (p\<lparr>plat_peers := \<lambda>_. peers\<rparr>) s else s) s reports"

lemma polls_keeps_connected:
  assumes "m_connections s hop = Some c" and "m_date c \<noteq> None" and "sg \<in> set (signals s)"
  shows "m_connections (polls p reports s) hop = Some c \<and> sg \<in> set (signals (polls p reports s))"
  using assms
  by (induction reports arbitrary: s) (simp_all add: polls_def checkHandshake_table checkHandshake_signals)

lemma polls_served:
  assumes "m_connections s hop = Some c" and "m_date c = None" and "m_handshakeTimer s"
    and "list_ex (\<lambda>peers. handshaken peers c) reports"
  shows "\<not> pending (polls p reports s) hop \<and>
    (\<exists>key. qs_eq (m_serverPublicKey (m_config c)) key \<and> Connected key \<in> set (signals (polls p reports s)))"
  using assms
proof (induction reports arbitrary: s)
  case (Cons peers reports)
  let ?p = "p\<lparr>plat_peers := \<lambda>_. peers\<rparr>"
  let ?s = "checkHandshake ?p s" and ?c = "fst (match_peers c peers)"
  have step: "polls p (peers # reports) s = polls p reports ?s"
    using Cons.prems(3) by (simp add: polls_def)
  have table: "m_connections ?s hop = Some ?c"
    using Cons.prems(1,2) by (simp add: checkHandshake_table)
  show ?case
  proof (cases "handshaken peers c")
    case True
    then obtain key where key: "qs_eq (m_serverPublicKey (m_config c)) key"
      and "Connected key \<in> set (snd (match_peers c peers))"
      using match_peers_connected by blast
    then have "Connected key \<in> set (signals ?s)"
      by (intro checkHandshake_emits [OF Cons.prems(1,2)]) simp
    moreover have "m_date ?c \<noteq> None"
      using True match_peers_date(1) by blast
    ultimately have "m_connections (polls p reports ?s) hop = Some ?c"
      "Connected key \<in> set (signals (polls p reports ?s))"
      using polls_keeps_connected [OF table] by blast+
    with \<open>m_date ?c \<noteq> None\<close> key show ?thesis
      unfolding step pending_def by (simp only: option.case) blast
  next
    case False
    then have "m_connections ?s hop = Some c"
      using table by (simp add: match_peers_idle)
    moreover have "m_handshakeTimer ?s"
      unfolding checkHandshake_timer pending_def
      by (rule exI [of _ hop]) (simp only: calculation option.case Cons.prems(2))
    moreover have "list_ex (\<lambda>peers. handshaken peers c) reports"
      using Cons.prems(4) False by simp
    ultimately show ?thesis
      unfolding step using Cons.IH [of ?s] Cons.prems(2) by blast
  qed
qed simp

section \<open>Properties\<close>

text \<open>A platform that gives the same answer to the same call, and prints one message only.\<close>

definition demo_print :: "json_object \<Rightarrow> string" where
  "demo_print m = (if m = json_insert ''type'' (JString ''disconnected'') [] then ''d'' else ''x'')"

definition demo_platform :: "(platform_call \<Rightarrow> bool) \<Rightarrow> PeerStatus list \<Rightarrow> unit platform" where
  "demo_platform answers peers =
    \<lparr>plat_call = (\<lambda>c w. (answers c, w)), plat_peers = (\<lambda>_. peers), supportIPUtils = False,
     supportDnsUtils = True, interfaceName = ''amn0'', host_text = demo_text, print_date = (\<lambda>_. []),
     print_json = demo_print, sort_order = rev\<rparr>"

definition demo_connected :: "unit daemon" where
  "demo_connected = (daemon_init ())
    \<lparr>m_connections := [SingleHop \<mapsto> \<lparr>m_date = Some 5, m_config = demo_config\<rparr>],
     m_excludedAddrSet := [(\<lparr>m_address = NullAddress, m_prefixLength = 999999\<rparr>, 1)]\<rparr>"

text \<open>
  C2. In every state the daemon can reach, the routes for excluded addresses that it counts are exactly
  those that the platform has, by the record of its successful additions and successful deletions,
  except the routes whose last deletion failed: these the daemon has forgotten. As long as no
  deletion fails it counts exactly the routes of the platform. No address is counted twice and every
  count is positive.
\<close>

theorem reachable_routes:
  assumes "reachable p s"
  shows "distinct (map fst (m_excludedAddrSet s)) \<and> (\<forall>n \<in> snd ` set (m_excludedAddrSet s). 1 \<le> n) \<and>
    fst ` set (m_excludedAddrSet s) = installed (events s) - forgotten (events s) \<and>
    ((\<forall>r. Called (DeleteExclusionRoute r) False \<notin> set (events s)) \<longrightarrow>
       fst ` set (m_excludedAddrSet s) = installed (events s))"
  using reachable_exclusion_inv [OF assms] nothing_forgotten [of "events s"]
  by (auto simp: exclusion_inv_def tracked_def)

theorem reachable_routes_witness:
  "fst ` set (m_excludedAddrSet (snd (activate (demo_platform (\<lambda>_. True) []) demo_config (daemon_init ())))) =
     installed (events (snd (activate (demo_platform (\<lambda>_. True) []) demo_config (daemon_init ())))) -
     forgotten (events (snd (activate (demo_platform (\<lambda>_. True) []) demo_config (daemon_init ()))))"
proof -
  have "reachable (demo_platform (\<lambda>_. True) [])
      (snd (activate (demo_platform (\<lambda>_. True) []) demo_config (daemon_init ())))"
    by (intro reachable.activate reachable.start)
  from reachable_routes [OF this] show ?thesis
    by (elim conjE)
qed

text \<open>
  C9. Counting implements a multiset of excluded addresses: adding an address adds it once if it
  succeeds and does nothing otherwise, an address that is counted can always be added, and deleting
  removes one occurrence.
\<close>

theorem exclusions_refine_multiset:
  assumes "reachable p s"
  shows "exclusions (snd (addExclusionRoute p r s)) =
      (if fst (addExclusionRoute p r s) then add_mset r (exclusions s) else exclusions s) \<and>
    (r \<in># exclusions s \<longrightarrow> fst (addExclusionRoute p r s)) \<and>
    exclusions (snd (delExclusionRoute p r s)) = exclusions s - {#r#}"
  using add_route [OF reachable_exclusion_inv [OF assms]] del_route(1) [OF reachable_exclusion_inv [OF assms]]
  by simp

theorem exclusions_refine_multiset_witness:
  "exclusions (snd (addExclusionRoute (demo_platform (\<lambda>_. True) []) \<lparr>m_address = IPv4 1, m_prefixLength = 32\<rparr>
     (daemon_init ()))) = {#\<lparr>m_address = IPv4 1, m_prefixLength = 32\<rparr>#}"
proof -
  let ?p = "demo_platform (\<lambda>_. True) []" and ?r = "\<lparr>m_address = IPv4 1, m_prefixLength = 32\<rparr>"
  have "fst (addExclusionRoute ?p ?r (daemon_init ()))"
    by (simp add: addExclusionRoute_def daemon_init_def attempt_def call_def demo_platform_def)
  moreover have "exclusions (daemon_init ()) = {#}"
    by (simp add: exclusions_def daemon_init_def)
  ultimately show ?thesis
    using exclusions_refine_multiset [OF reachable.start [of ?p "()"], of ?r] by simp
qed

text \<open>
  C10. Switching servers never interrupts the route of an address that the old and the new configuration
  both exclude: if the address is counted at least as often as the old configuration names it, the
  switch deletes its route at no time, and the route is there in the end, whether the switch
  succeeds or not.
\<close>

theorem switchServer_keeps_shared:
  assumes "reachable p s" and "connection_config s (m_hopType config) = Some lastConfig"
    and "r \<in> set (map (IPAddress_string (host_text p)) (m_excludedAddresses config))"
    and "r \<in># exclusions s"
    and "count_list (map (host_key p) (m_excludedAddresses lastConfig)) r \<le> count (exclusions s) r"
  shows "deletions (snd (switchServer p config s)) r = deletions s r \<and>
    r \<in> installed (events (snd (switchServer p config s)))"
  using switchServer_shared [OF reachable_exclusion_inv [OF assms(1)] assms(2-5)]
    counted_installed keepsD [OF exclusion_inv_switchServer reachable_exclusion_inv [OF assms(1)]]
  by blast

text \<open>An activation that excludes one address, evaluated.\<close>

definition demo_excluding :: InterfaceConfig where
  "demo_excluding = demo_config\<lparr>m_allowedIPAddressRanges := [], m_excludedAddresses := [''3221225985'']\<rparr>"

abbreviation demo_route :: IPAddress where
  "demo_route \<equiv> \<lparr>m_address = IPv4 0xC0000201, m_prefixLength = 32\<rparr>"

lemmas daemon_eval = activate_fresh activate_new_def bring_up_def attempt_def call_def succeed_def
  maybeUpdateResolvers_def addExclusionRoute_def delExclusionRoute_def excluded_count_def establish_def
  set_connection_def report_failure_def demo_platform_def daemon_init_def connection_config_def
  switchServer_def restore_resolvers_def activate_switch_def Let_def

lemma demo_keys:
  "IPAddress_string demo_text ''3221225985'' = demo_route"
  "host_key (demo_platform answers peers) ''3221225985'' = demo_route"
  by (simp_all add: IPAddress_string_def host_key_def demo_platform_def demo_text_def is_digit_def
      dec_val_def digit_val_def)

lemma demo_activated:
  fixes p defines "p \<equiv> demo_platform (\<lambda>_. True) []"
  shows "m_excludedAddrSet (snd (activate p demo_excluding (daemon_init ()))) = [(demo_route, 1)]"
    and "connection_config (snd (activate p demo_excluding (daemon_init ()))) SingleHop = Some demo_excluding"
  by (simp_all add: p_def daemon_eval demo_keys demo_excluding_def demo_config_def InterfaceConfig_default_def)

theorem switchServer_keeps_shared_witness:
  "demo_route \<in> installed (events (snd (switchServer (demo_platform (\<lambda>_. True) [])
     (demo_excluding\<lparr>m_serverPublicKey := Some ''other''\<rparr>)
     (snd (activate (demo_platform (\<lambda>_. True) []) demo_excluding (daemon_init ()))))))"
proof -
  let ?p = "demo_platform (\<lambda>_. True) []"
  let ?s = "snd (activate ?p demo_excluding (daemon_init ()))"
  have "reachable ?p ?s"
    by (intro reachable.activate reachable.start)
  moreover have "exclusions ?s = {#demo_route#}"
    by (simp add: exclusions_def demo_activated)
  moreover have "m_hopType (demo_excluding\<lparr>m_serverPublicKey := Some ''other''\<rparr>) = SingleHop"
    "m_excludedAddresses demo_excluding = [''3221225985'']" "host_text ?p = demo_text"
    by (simp_all add: demo_excluding_def demo_config_def InterfaceConfig_default_def demo_platform_def)
  ultimately show ?thesis
    using switchServer_keeps_shared [of ?p ?s "demo_excluding\<lparr>m_serverPublicKey := Some ''other''\<rparr>"
        demo_excluding demo_route] demo_activated(2)
    by (simp add: demo_keys)
qed

text \<open>
  C4. \<open>activate\<close> reports a failure exactly if it fails. If it succeeds, its hop has the new configuration,
  waiting for a handshake, and the handshake timer runs. It emits nothing then: the comment above
  \<open>activate\<close> (daemon.cpp, line 67) says that \<open>connected\<close> is emitted at the end of a successful
  activation, but it is the poll for handshakes that emits it, later.
\<close>

theorem activate_result:
  assumes "activate p config s = (ok, s')"
  shows "(ok \<longleftrightarrow> signals s' = signals s) \<and>
    (\<not> ok \<longrightarrow> (\<exists>n \<in> {1, 2}. signals s' = signals s @ replicate n ActivationFailure)) \<and>
    (ok \<longrightarrow> m_connections s' (m_hopType config) = Some \<lparr>m_date = None, m_config = config\<rparr> \<and>
       m_handshakeTimer s')"
  using activate_outcome [OF assms] by (auto simp: numeral_2_eq_2 split: if_splits)

theorem activate_result_witness:
  "\<exists>s'. activate (demo_platform (\<lambda>_. False) [])
     demo_config (daemon_init ()) = (False, s') \<and> signals s' \<noteq> []"
proof -
  let ?p = "demo_platform (\<lambda>_. False) []"
  have "fst (activate ?p demo_config (daemon_init ())) = False"
    by (simp add: daemon_eval)
  then obtain s' where s': "activate ?p demo_config (daemon_init ()) = (False, s')"
    by (metis prod.collapse)
  from activate_result [OF this] have "signals s' \<noteq> signals (daemon_init ())"
    by simp
  with s' show ?thesis
    by (simp add: signals_def daemon_init_def)
qed

text \<open>
  C15. A successful \<open>deactivate\<close> undoes everything, in order: it runs the hook of the first connection,
  restores the resolvers, deletes the routes and the peer of every connection and every route for
  an excluded address, and the interface last. Nothing is connected or counted afterwards.
\<close>

theorem deactivate_calls:
  assumes "deactivate p b s = (True, s')"
  shows "platform_calls s' = platform_calls s @
      (case connection_list s of [] \<Rightarrow> [] | state # _ \<Rightarrow> [Run Down (m_config state)]) @
      (if supportDnsUtils p then [RestoreResolvers] else []) @ [InterfaceExists] @
      concat (map connection_calls (connection_list s)) @
      map (DeleteExclusionRoute \<circ> fst) (m_excludedAddrSet s) @ [DeleteInterface] \<and>
    m_excludedAddrSet s' = [] \<and> connection_list s' = []"
  using calls_deactivate [OF assms] deactivate_clears [OF assms]
  by (simp add: connection_list_def map_filter_def)

theorem deactivate_calls_witness:
  "\<exists>s'. deactivate (demo_platform (\<lambda>_. True) []) True demo_connected = (True, s') \<and>
     last (platform_calls s') = DeleteInterface \<and> connection_list s' = []"
proof -
  let ?p = "demo_platform (\<lambda>_. True) []"
  have "fst (deactivate ?p True demo_connected)"
    by (simp add: deactivate_def attempt_def run_down_def restore_resolvers_def clean_up_def call_def
        demo_platform_def Let_def split: list.splits)
  then obtain s' where s': "deactivate ?p True demo_connected = (True, s')"
    by (metis prod.collapse)
  with deactivate_calls [OF this] show ?thesis
    by simp
qed

text \<open>
  C19. Polling for handshakes: a connection still waits after the poll exactly if it waited before and no
  peer with its key has had a handshake, a date once set stays, and the timer runs again exactly if
  some connection still waits.
\<close>

theorem checkHandshake_poll:
  "(pending (checkHandshake p s) hop \<longleftrightarrow>
      (\<exists>c. m_connections s hop = Some c \<and> m_date c = None \<and> \<not> handshaken (plat_peers p (world s)) c)) \<and>
   (m_connections s hop = Some c \<longrightarrow> m_date c \<noteq> None \<longrightarrow> m_connections (checkHandshake p s) hop = Some c) \<and>
   (m_handshakeTimer (checkHandshake p s) \<longleftrightarrow> (\<exists>hop. pending (checkHandshake p s) hop))"
  by (auto simp: checkHandshake_pending checkHandshake_timer checkHandshake_table)

definition demo_waiting :: "unit daemon" where
  "demo_waiting = demo_connected\<lparr>m_connections := [SingleHop \<mapsto> \<lparr>m_date = None, m_config = demo_config\<rparr>,
     MultiHopExit \<mapsto> \<lparr>m_date = Some 3, m_config = demo_config\<rparr>], m_handshakeTimer := True\<rparr>"

definition demo_peers :: "PeerStatus list" where
  "demo_peers = [\<lparr>m_pubkey = Some ''elsewhere'', m_handshake = 9, m_rxBytes = 0, m_txBytes = 0\<rparr>,
     \<lparr>m_pubkey = m_serverPublicKey demo_config, m_handshake = 7, m_rxBytes = 0, m_txBytes = 0\<rparr>]"

lemma demo_handshaken:
  "handshaken demo_peers \<lparr>m_date = None, m_config = demo_config\<rparr>"
  "\<not> handshaken [] c"
  by (simp_all add: handshaken_def demo_peers_def qs_eq_def)

theorem checkHandshake_poll_witness:
  "pending (checkHandshake (demo_platform (\<lambda>_. True) []) demo_waiting) SingleHop \<and>
   \<not> pending (checkHandshake (demo_platform (\<lambda>_. True) demo_peers) demo_waiting) SingleHop \<and>
   m_connections (checkHandshake (demo_platform (\<lambda>_. True) demo_peers) demo_waiting) MultiHopExit =
     Some \<lparr>m_date = Some 3, m_config = demo_config\<rparr>"
proof -
  let ?p = "demo_platform (\<lambda>_. True)"
  have peers: "plat_peers (?p peers) w = peers" for peers w
    by (simp add: demo_platform_def)
  have table: "m_connections demo_waiting SingleHop = Some \<lparr>m_date = None, m_config = demo_config\<rparr>"
    "m_connections demo_waiting MultiHopExit = Some \<lparr>m_date = Some 3, m_config = demo_config\<rparr>"
    by (simp_all add: demo_waiting_def)
  show ?thesis
    using checkHandshake_poll [of "?p []" demo_waiting SingleHop]
      checkHandshake_poll [of "?p demo_peers" demo_waiting SingleHop]
      checkHandshake_poll [of "?p demo_peers" demo_waiting MultiHopExit "\<lparr>m_date = Some 3, m_config = demo_config\<rparr>"]
    by (simp add: table peers demo_handshaken)
qed

text \<open>
  C11. A connection that waits while the timer runs is served: if any of the following polls finds a
  handshake with its server's key, then after these polls it waits no longer and the client has been
  told that it is connected, whatever the other polls report.
\<close>

theorem waiting_connection_served:
  assumes "m_connections s hop = Some c" and "m_date c = None" and "m_handshakeTimer s"
    and "list_ex (\<lambda>peers. handshaken peers c) reports"
  shows "\<not> pending (polls p reports s) hop \<and>
    (\<exists>key. qs_eq (m_serverPublicKey (m_config c)) key \<and> Connected key \<in> set (signals (polls p reports s)))"
  using polls_served [OF assms] .

theorem waiting_connection_served_witness:
  "\<not> pending (polls (demo_platform (\<lambda>_. True) []) [[], demo_peers, []] demo_waiting) SingleHop"
  by (rule waiting_connection_served [of demo_waiting SingleHop "\<lparr>m_date = None, m_config = demo_config\<rparr>",
        THEN conjunct1]) (simp_all add: demo_waiting_def demo_handshaken)

section \<open>Behaviour at the edges\<close>

text \<open>A count is removed before its route is deleted: if the deletion fails, the route stays without a
  count, so that no later deactivation deletes it.\<close>

theorem undeleted_route_forgotten:
  assumes "r \<in> installed (events s)" and "excluded_count r s \<le> 1"
    and "\<not> fst (plat_call p (DeleteExclusionRoute r) (world s))"
  shows "r \<in> installed (events (snd (delExclusionRoute p r s))) \<and>
    r \<notin> fst ` set (m_excludedAddrSet (snd (delExclusionRoute p r s)))"
  using assms
  by (auto simp: delExclusionRoute_def call_def installed_def route_event_def AList.delete_eq split: prod.splits)

text \<open>Without server switching, an activation that fails after the old connection was taken down is
  reported twice.\<close>

definition no_peer :: "platform_call \<Rightarrow> bool" where
  "no_peer c = (case c of UpdatePeer _ \<Rightarrow> False | _ \<Rightarrow> True)"

theorem activate_reports_twice:
  "signals (snd (activate (demo_platform no_peer []) (demo_excluding\<lparr>m_privateKey := Some ''new''\<rparr>)
     (demo_connected\<lparr>m_excludedAddrSet := []\<rparr>))) = [ActivationFailure, ActivationFailure]"
proof -
  let ?p = "demo_platform no_peer []" and ?c = "demo_excluding\<lparr>m_privateKey := Some ''new''\<rparr>"
  let ?s = "demo_connected\<lparr>m_excludedAddrSet := []\<rparr>"
  have hop: "m_hopType ?c = SingleHop" "m_connections ?s SingleHop \<noteq> None" "\<not> supportServerSwitching ?c ?s"
    by (simp_all add: supportServerSwitching_def connection_config_def demo_connected_def demo_excluding_def
        demo_config_def InterfaceConfig_default_def qs_eq_def daemon_init_def)
  have "fst (deactivate ?p False ?s)"
    by (simp add: deactivate_def attempt_def run_down_def restore_resolvers_def clean_up_def call_def
        demo_platform_def Let_def no_peer_def split: list.splits)
  then obtain t where t: "deactivate ?p False ?s = (True, t)"
    by (metis prod.collapse)
  have clear: "m_connections t (m_hopType ?c) = None"
    using deactivate_clears [OF t] by simp
  have "fst (activate_new ?p ?c t) = False"
    by (simp add: activate_new_def bring_up_def attempt_def call_def demo_platform_def no_peer_def)
  then have "fst (activate ?p ?c t) = False"
    using activate_fresh [OF clear, of ?p] by (simp add: report_failure_def split: prod.splits)
  then obtain u where u: "activate ?p ?c t = (False, u)"
    by (metis prod.collapse)
  have "signals u = signals t @ [ActivationFailure]"
    using activate_fresh_outcome [OF clear u] by simp
  moreover have "signals t = []"
    using quiet_result [OF quiet_deactivate t] by (simp add: signals_def demo_connected_def daemon_init_def map_filter_def)
  moreover have "activate ?p ?c ?s = report_failure (False, u)"
    using hop t u by (subst activate.simps) simp
  ultimately show ?thesis
    by (simp add: report_failure_def)
qed

text \<open>A switch that fails after the connection was replaced leaves it waiting for a handshake, with the
  handshake timer stopped.\<close>

definition no_restore :: "platform_call \<Rightarrow> bool" where
  "no_restore c \<longleftrightarrow> c \<noteq> RestoreResolvers"

definition demo_plain :: InterfaceConfig where
  "demo_plain = demo_config\<lparr>m_allowedIPAddressRanges := [], m_excludedAddresses := []\<rparr>"

definition demo_established :: "unit daemon" where
  "demo_established = (daemon_init ())\<lparr>m_connections := [SingleHop \<mapsto> \<lparr>m_date = Some 5, m_config = demo_plain\<rparr>]\<rparr>"

theorem failed_switch_waits_forever:
  "\<not> pending demo_established SingleHop \<and>
   (case activate (demo_platform no_restore []) (demo_plain\<lparr>m_serverPublicKey := Some ''other''\<rparr>) demo_established of
     (ok, s) \<Rightarrow> \<not> ok \<and> pending s SingleHop \<and> \<not> m_handshakeTimer s)"
  by (subst activate.simps)
    (simp add: daemon_eval demo_established_def demo_plain_def demo_config_def InterfaceConfig_default_def
      pending_def no_restore_def supportServerSwitching_def qs_eq_def emit_signal_def)

text \<open>A subnet is added under its own prefix length but looked up for deletion as a single address: its
  route stays when the server is switched to a configuration that does not exclude it.\<close>

definition subnet_platform :: "unit platform" where
  "subnet_platform = (demo_platform (\<lambda>_. True) [])
    \<lparr>host_text := demo_text\<lparr>parseSubnet := (\<lambda>_. (IPv4 0x0A000000, 8))\<rparr>\<rparr>"

theorem excluded_subnet_leaks:
  "let s = snd (activate subnet_platform (demo_plain\<lparr>m_excludedAddresses := [''10.0.0.0/8'']\<rparr>) (daemon_init ()));
       r = switchServer subnet_platform (demo_plain\<lparr>m_serverPublicKey := Some ''other''\<rparr>) s
   in fst r \<and> map fst (m_excludedAddrSet (snd r)) = [\<lparr>m_address = IPv4 0x0A000000, m_prefixLength = 8\<rparr>]"
  by (simp add: daemon_eval subnet_platform_def demo_plain_def demo_config_def InterfaceConfig_default_def
      IPAddress_string_def host_key_def demo_text_def is_digit_def qs_eq_def)

end
