(* ===== verification/DaemonServer.thy ===== *)
theory DaemonServer
  imports DaemonOutcomes
begin

text \<open>
  The daemon's side of the local socket: \<open>client/daemon/daemonlocalserverconnection.cpp\<close>. A client sends
  one JSON object per line. \<open>readData\<close> cuts the bytes of the socket into lines, whatever the pieces
  they arrive in, and \<open>parseCommand\<close> runs one command on the daemon and writes the replies. Parsing
  a line as JSON is a parameter, and so is the text that a message is written as; what is handed to
  the socket is kept write by write.
\<close>

section \<open>Definitions\<close>

record 'w server =
  the_daemon :: "'w daemon"
  m_buffer :: string
  sent :: "string list"

definition msg_connected :: "qstring \<Rightarrow> json_object" where
  "msg_connected pubkey = json_insert ''pubkey'' (JString (qs_text pubkey)) (json_insert ''type'' (JString ''connected'') [])"

definition msg_disconnected :: json_object where
  "msg_disconnected = json_insert ''type'' (JString ''disconnected'') []"

definition msg_backendFailure :: json_object where
  "msg_backendFailure = json_insert ''type'' (JString ''backendFailure'') []"

text \<open>The slots connected to the signals of the daemon; \<open>activationFailure\<close> is not connected.\<close>

fun signal_message :: "signal \<Rightarrow> json_object list" where
  "signal_message (Connected pubkey) = [msg_connected pubkey]"
| "signal_message Disconnected = [msg_disconnected]"
| "signal_message ActivationFailure = []"

definition write_message :: "'w platform \<Rightarrow> json_object \<Rightarrow> 'w server \<Rightarrow> 'w server" where
  "write_message p obj sv =
    (let sv1 = sv\<lparr>sent := sent sv @ [print_json p obj]\<rparr>
     in sv1\<lparr>sent := sent sv1 @ [nl]\<rparr>)"

definition daemon_became :: "'w platform \<Rightarrow> 'w daemon \<Rightarrow> 'w server \<Rightarrow> 'w server" where
  "daemon_became p d sv =
    fold (write_message p) (concat (map signal_message (drop (length (signals (the_daemon sv))) (signals d))))
      (sv\<lparr>the_daemon := d\<rparr>)"

definition parseCommand :: "'w platform \<Rightarrow> bool \<Rightarrow> (string \<Rightarrow> json) \<Rightarrow> string \<Rightarrow> 'w server \<Rightarrow> 'w server" where
  "parseCommand p windows fromJson data sv =
    (case fromJson data of
       JObject obj \<Rightarrow>
         (case json_value obj ''type'' of
            JString type \<Rightarrow>
              if type = ''activate'' then
                (case parseConfig (host_text p) (sort_order p) windows obj (InterfaceConfig_default SingleHop False) of
                   None \<Rightarrow> write_message p msg_disconnected sv
                 | Some config \<Rightarrow>
                     (case activate p config (the_daemon sv) of (ok, d) \<Rightarrow>
                        if ok then daemon_became p d sv
                        else write_message p msg_disconnected (daemon_became p d sv)))
              else if type = ''deactivate'' then
                daemon_became p (snd (deactivate p True (the_daemon sv))) sv
              else if type = ''status'' then
                (case getStatus p (the_daemon sv) of (status, d) \<Rightarrow>
                   write_message p (json_insert ''type'' (JString ''status'') status) (daemon_became p d sv))
              else if type = ''logs'' then
                write_message p (json_insert ''logs'' (JString []) (json_insert ''type'' (JString ''logs'') [])) sv
              else sv
          | _ \<Rightarrow> sv)
     | _ \<Rightarrow> sv)"

text \<open>The loop of \<open>readData\<close> over what \<open>readAll\<close> returns, for any handler of commands.\<close>

function read_loop :: "(string \<Rightarrow> 's \<Rightarrow> 's) \<Rightarrow> string \<Rightarrow> string list \<Rightarrow> 's \<Rightarrow> string \<times> 's" where
  "read_loop handle buffer input s =
    (if CHR 0x0A \<notin> set buffer then
       (case input of
          [] \<Rightarrow> (buffer, s)
        | chunk # rest \<Rightarrow> if chunk = [] then (buffer, s) else read_loop handle (buffer @ chunk) rest s)
     else
       let line = takeWhile (\<lambda>c. c \<noteq> CHR 0x0A) buffer;
           buffer' = drop (length line + 1) buffer;
           command = trimmed line
       in read_loop handle buffer' input (if command = [] then s else handle command s))"
  by pat_completeness auto
termination
  by (relation "measures [\<lambda>(h, b, i, s). length i, \<lambda>(h, b, i, s). length b]") (auto intro: diff_less dest: length_pos_if_in_set)

declare read_loop.simps [simp del]

definition readData :: "'w platform \<Rightarrow> bool \<Rightarrow> (string \<Rightarrow> json) \<Rightarrow> string list \<Rightarrow> 'w server \<Rightarrow> 'w server" where
  "readData p windows fromJson input sv =
    (case read_loop (parseCommand p windows fromJson) (m_buffer sv) input sv of
       (buffer, sv') \<Rightarrow> sv'\<lparr>m_buffer := buffer\<rparr>)"

section \<open>Lemmas\<close>

text \<open>The lines of a text, read character by character: the complete lines, and what comes after them.\<close>

fun frames :: "string \<Rightarrow> string \<Rightarrow> string list \<times> string" where
  "frames acc [] = ([], acc)"
| "frames acc (c # cs) =
    (if c = CHR 0x0A then (case frames [] cs of (ls, r) \<Rightarrow> (acc # ls, r)) else frames (acc @ [c]) cs)"

definition commands :: "string \<Rightarrow> string list" where
  "commands text = filter (\<lambda>c. c \<noteq> []) (map trimmed (fst (frames [] text)))"

definition unfinished :: "string \<Rightarrow> string" where
  "unfinished text = snd (frames [] text)"

lemma frames_no_break: "CHR 0x0A \<notin> set s \<Longrightarrow> frames acc (s @ t) = frames (acc @ s) t"
  by (induction s arbitrary: acc) auto

lemma frames_break:
  assumes "CHR 0x0A \<in> set s"
  shows "frames [] (s @ t) =
    (case frames [] (drop (length (takeWhile (\<lambda>c. c \<noteq> CHR 0x0A) s) + 1) s @ t) of
       (ls, r) \<Rightarrow> (takeWhile (\<lambda>c. c \<noteq> CHR 0x0A) s # ls, r))"
proof -
  let ?l = "takeWhile (\<lambda>c. c \<noteq> CHR 0x0A) s"
  obtain l r where s: "s = l @ CHR 0x0A # r" "CHR 0x0A \<notin> set l"
    using assms by (meson split_list_first)
  then have "?l = l"
    by (simp add: takeWhile_append)
  with s show ?thesis
    by (simp add: frames_no_break)
qed

lemma read_loop_frames:
  assumes "[] \<notin> set input"
  shows "read_loop handle buffer input s =
    (unfinished (buffer @ concat input), fold handle (commands (buffer @ concat input)) s)"
  using assms
proof (induction handle buffer input s rule: read_loop.induct)
  case (1 handle buffer input s)
  show ?case
  proof (cases "CHR 0x0A \<in> set buffer")
    case True
    let ?l = "takeWhile (\<lambda>c. c \<noteq> CHR 0x0A) buffer"
    have "unfinished (buffer @ concat input) = unfinished (drop (length ?l + 1) buffer @ concat input)"
      "commands (buffer @ concat input) =
        (if trimmed ?l = [] then [] else [trimmed ?l]) @ commands (drop (length ?l + 1) buffer @ concat input)"
      by (auto simp: frames_break [OF True] unfinished_def commands_def split: prod.splits)
    with 1(2) [OF _ refl refl refl] True 1(3) show ?thesis
      by (subst read_loop.simps) (simp add: Let_def)
  next
    case False
    show ?thesis
    proof (cases input)
      case Nil
      with False frames_no_break [OF False, of "[]" "[]"] show ?thesis
        by (subst read_loop.simps) (simp add: unfinished_def commands_def)
    next
      case (Cons chunk rest)
      then have "chunk \<noteq> []"
        using 1(3) by auto
      with Cons False 1(1) [of chunk rest] 1(3) show ?thesis
        by (subst read_loop.simps) simp
    qed
  qed
qed

lemma commands_append:
  "commands (s @ t) = commands s @ commands (unfinished s @ t)"
  "unfinished (s @ t) = unfinished (unfinished s @ t)"
proof -
  have "frames acc (s @ t) = (fst (frames acc s) @ fst (frames [] (snd (frames acc s) @ t)),
      snd (frames [] (snd (frames acc s) @ t)))" if "CHR 0x0A \<notin> set acc" for acc
    using that
  proof (induction acc s rule: frames.induct)
    case (1 acc)
    with frames_no_break [of acc "[]" t] show ?case
      by simp
  next
    case (2 acc c cs)
    then show ?case
      by (cases "c = CHR 0x0A") (auto split: prod.splits)
  qed
  from this [of "[]"] show "commands (s @ t) = commands s @ commands (unfinished s @ t)"
    "unfinished (s @ t) = unfinished (unfinished s @ t)"
    by (simp_all add: commands_def unfinished_def)
qed

lemma write_messages:
  "sent (fold (write_message p) ms sv) = sent sv @ concat (map (\<lambda>m. [print_json p m, nl]) ms)"
  "the_daemon (fold (write_message p) ms sv) = the_daemon sv"
  "m_buffer (fold (write_message p) ms sv) = m_buffer sv"
  by (induction ms arbitrary: sv) (simp_all add: write_message_def)

lemma daemon_became_daemon [simp]: "the_daemon (daemon_became p d sv) = d"
  by (simp add: daemon_became_def write_messages)

lemma activate_forwards_nothing:
  assumes "activate p config (the_daemon sv) = (ok, d)"
  shows "sent (daemon_became p d sv) = sent sv"
proof -
  have "\<exists>n. signals d = signals (the_daemon sv) @ replicate n ActivationFailure"
    using activate_outcome [OF assms]
    by (auto split: if_splits intro: exI [of _ 0] exI [of _ "Suc 0"] exI [of _ "Suc (Suc 0)"])
  moreover have "concat (map signal_message (replicate n ActivationFailure)) = []" for n
    by (induction n) simp_all
  ultimately show ?thesis
    by (auto simp: daemon_became_def)
qed

section \<open>Properties\<close>

text \<open>
  C3. \<open>readData\<close> runs exactly the non-blank lines of what has been received, in order, and keeps the
  unfinished last line for the next time; how the bytes are cut into pieces makes no difference.
\<close>

theorem readData_frames:
  assumes "[] \<notin> set input"
  shows "readData p windows fromJson input sv =
    (fold (parseCommand p windows fromJson) (commands (m_buffer sv @ concat input)) sv)
      \<lparr>m_buffer := unfinished (m_buffer sv @ concat input)\<rparr>"
  by (simp add: readData_def read_loop_frames [OF assms])

definition demo_server :: "unit server" where
  "demo_server = \<lparr>the_daemon = daemon_init (), m_buffer = ''{'', sent = []\<rparr>"

theorem readData_frames_witness:
  "m_buffer (readData (demo_platform (\<lambda>_. True) []) False (\<lambda>_. JNull) [''}'', nl @ ''{''] demo_server) = ''{''"
  by (subst readData_frames) (simp_all add: demo_server_def unfinished_def)

text \<open>
  C13. The reply to a request to activate: a configuration that cannot be read is answered with
  \<open>disconnected\<close> and does not touch the daemon; otherwise the daemon activates it, and the client is
  told \<open>disconnected\<close>, on a line of its own, exactly if that failed.
\<close>

theorem activate_reply:
  assumes "fromJson data = JObject obj" and "json_value obj ''type'' = JString ''activate''"
  shows "case parseConfig (host_text p) (sort_order p) windows obj (InterfaceConfig_default SingleHop False) of
      None \<Rightarrow> the_daemon (parseCommand p windows fromJson data sv) = the_daemon sv \<and>
        sent (parseCommand p windows fromJson data sv) = sent sv @ [print_json p msg_disconnected, nl]
    | Some config \<Rightarrow>
        the_daemon (parseCommand p windows fromJson data sv) = snd (activate p config (the_daemon sv)) \<and>
        sent (parseCommand p windows fromJson data sv) =
          (if fst (activate p config (the_daemon sv)) then sent sv else sent sv @ [print_json p msg_disconnected, nl])"
proof (cases "parseConfig (host_text p) (sort_order p) windows obj (InterfaceConfig_default SingleHop False)")
  case None
  with assms show ?thesis
    by (simp add: parseCommand_def write_message_def)
next
  case (Some config)
  obtain ok d where d: "activate p config (the_daemon sv) = (ok, d)"
    by fastforce
  with assms Some activate_forwards_nothing [OF d] show ?thesis
    by (simp add: parseCommand_def write_message_def)
qed

theorem activate_reply_witness:
  "sent (parseCommand (demo_platform (\<lambda>_. True) []) True
      (\<lambda>_. JObject (json_insert ''type'' (JString ''activate'') [])) ''x'' demo_server) = [''d'', nl]"
proof -
  have "parseConfig (host_text (demo_platform (\<lambda>_. True) [])) (sort_order (demo_platform (\<lambda>_. True) [])) True
      (json_insert ''type'' (JString ''activate'') []) (InterfaceConfig_default SingleHop False) = None"
    by (simp add: parseConfig_def get_string_def)
  with activate_reply [of "\<lambda>_. JObject (json_insert ''type'' (JString ''activate'') [])" "''x''"
      "json_insert ''type'' (JString ''activate'') []" "demo_platform (\<lambda>_. True) []" True demo_server]
  show ?thesis
    by (simp add: demo_server_def) (simp add: demo_platform_def demo_print_def msg_disconnected_def)
qed

end
