(* ===== verification/LocalSocketController.thy ===== *)
theory LocalSocketController
  imports DaemonServer
begin

text \<open>
  The client's side of the local socket: \<open>client/mozilla/localsocketcontroller.cpp\<close>. The controller
  connects to the daemon, retries a few times if that fails, turns the configuration of the user
  interface into an activation request and the daemon's messages into signals. What it hands to
  the socket and what it emits is recorded in order. The socket, the JSON text format and the text
  form of dates are parameters.

  The names that the daemon's side uses too carry the prefix \<open>client_\<close>.
\<close>

section \<open>Definitions\<close>

datatype daemon_state = eUnknown | eInitializing | eReady | eDisconnected

datatype client_output =
    ConnectToServer string
  | Written string
  | EmitInitialized bool bool "int option"
  | EmitConnected string
  | EmitDisconnected
  | EmitStatusUpdated string string "64 word" "64 word"
  | CallLogs nat string

record local_controller =
  m_daemonState :: daemon_state
  m_buffer :: string
  m_logCallback :: "nat option"
  m_initializingTimer :: bool
  m_initializingRetry :: "32 word"
  outputs :: "client_output list"

definition controller_init :: local_controller where
  "controller_init = \<lparr>m_daemonState = eUnknown, m_buffer = [], m_logCallback = None,
     m_initializingTimer = False, m_initializingRetry = 0, outputs = []\<rparr>"

definition MAX_CONNECTION_RETRY :: "32 word" where
  "MAX_CONNECTION_RETRY = 10"

definition emit_out :: "client_output \<Rightarrow> local_controller \<Rightarrow> local_controller" where
  "emit_out e k = k\<lparr>outputs := outputs k @ [e]\<rparr>"

text \<open>\<open>print\<close> is the compact text of a JSON object.\<close>

definition client_write :: "(json_object \<Rightarrow> string) \<Rightarrow> json_object \<Rightarrow> local_controller \<Rightarrow> local_controller" where
  "client_write print json k = emit_out (Written nl) (emit_out (Written (print json)) k)"

text \<open>\<open>windows\<close> is the platform macro, \<open>exists\<close> the answer of \<open>QFileInfo::exists\<close>.\<close>

definition initializeInternal :: "bool \<Rightarrow> bool \<Rightarrow> local_controller \<Rightarrow> local_controller" where
  "initializeInternal windows exists k =
    emit_out (ConnectToServer
      (if windows then [CHR 0x5C, CHR 0x5C] @ ''.'' @ [CHR 0x5C] @ ''pipe'' @ [CHR 0x5C] @ ''amneziavpn''
       else if exists then ''/var/run/amneziavpn/daemon.socket'' else ''/tmp/amneziavpn.socket''))
      (k\<lparr>m_daemonState := eInitializing\<rparr>)"

definition client_initialize :: "bool \<Rightarrow> bool \<Rightarrow> local_controller \<Rightarrow> local_controller" where
  "client_initialize windows exists k = initializeInternal windows exists (k\<lparr>m_initializingRetry := 0\<rparr>)"

definition disconnectInternal :: "local_controller \<Rightarrow> local_controller" where
  "disconnectInternal k = emit_out EmitDisconnected
     (k\<lparr>m_daemonState := eReady, m_initializingRetry := 0, m_initializingTimer := False\<rparr>)"

definition errorOccurred :: "local_controller \<Rightarrow> local_controller" where
  "errorOccurred k =
    (if m_daemonState k = eInitializing then
       (let k' = k\<lparr>m_initializingRetry := m_initializingRetry k + 1\<rparr>
        in if m_initializingRetry k < MAX_CONNECTION_RETRY then k'\<lparr>m_initializingTimer := True\<rparr>
           else disconnectInternal (emit_out (EmitInitialized False False None) k'))
     else disconnectInternal k)"

definition checkStatus :: "(json_object \<Rightarrow> string) \<Rightarrow> local_controller \<Rightarrow> local_controller" where
  "checkStatus print k =
    (if m_daemonState k = eReady \<or> m_daemonState k = eInitializing
     then client_write print (json_insert ''type'' (JString ''status'') []) k else k)"

definition daemonConnected :: "(json_object \<Rightarrow> string) \<Rightarrow> local_controller \<Rightarrow> local_controller" where
  "daemonConnected print k = checkStatus print k"

text \<open>\<open>atoi\<close>, whose result is undefined outside the range of an \<open>int\<close>.\<close>

definition atoi :: "string \<Rightarrow> int" where
  "atoi s =
    (let t = dropWhile is_space s;
         digits = (\<lambda>r. int (dec_val (takeWhile is_digit r)))
     in case t of [] \<Rightarrow> 0
        | c # r \<Rightarrow> if c = CHR ''-'' then - digits r else if c = CHR ''+'' then digits r else digits t)"

definition range_object :: "string \<Rightarrow> int \<Rightarrow> bool \<Rightarrow> json" where
  "range_object address prefix_len isIpv6 = JObject
    (json_insert ''isIpv6'' (JBool isIpv6)
    (json_insert ''range'' (JDouble (of_int prefix_len))
    (json_insert ''address'' (JString address) [])))"

definition site_range :: "json \<Rightarrow> json" where
  "site_range v =
    (let ipRange = qs_text (json_toString v)
     in case qsplit (CHR ''/'') ipRange of
          a # n # _ \<Rightarrow> range_object a (atoi n) False
        | _ \<Rightarrow> range_object ipRange 32 False)"

definition defaultAllowedIP :: "json list" where
  "defaultAllowedIP = map JString (qsplit (CHR '','') ''0.0.0.0/0, ::/0'')"

definition jsAllowedIPAddesses :: "json_object \<Rightarrow> json_object \<Rightarrow> json list" where
  "jsAllowedIPAddesses rawConfig wgConfig =
    (let splitTunnelType = json_toInt (json_value rawConfig ''splitTunnelType'');
         splitTunnelSites = json_toArray (json_value rawConfig ''splitTunnelSites'');
         plainAllowedIP = json_toArray (json_value wgConfig ''allowed_ips'')
     in if plainAllowedIP \<noteq> defaultAllowedIP \<and> plainAllowedIP \<noteq> [] then map site_range plainAllowedIP
        else (if splitTunnelType = 0 \<or> splitTunnelType = 2
              then [range_object ''0.0.0.0'' 0 False, range_object ''::'' 0 True] else []) @
             (if splitTunnelType = 1 then map site_range splitTunnelSites else []))"

text \<open>Appending the undefined value to an array appends null.\<close>

definition jsExcludedAddresses :: "json_object \<Rightarrow> json_object \<Rightarrow> json list" where
  "jsExcludedAddresses rawConfig wgConfig =
    (let hostName = json_value wgConfig ''hostName''
     in (if hostName = JUndefined then JNull else hostName) #
        (if json_toInt (json_value rawConfig ''splitTunnelType'') = 2
         then map (\<lambda>v. JString (qs_text (json_toString v)))
           (json_toArray (json_value rawConfig ''splitTunnelSites''))
         else []))"

abbreviation junk_keys :: "string list" where
  "junk_keys \<equiv> [''Jc'', ''Jmin'', ''Jmax'', ''S1'', ''S2'', ''H1'', ''H2'', ''H3'', ''H4'']"

definition activate_json :: "json_object \<Rightarrow> json_object" where
  "activate_json rawConfig =
    (let protocolName = qs_text (json_toString (json_value rawConfig ''protocol''));
         wgConfig = json_toObject (json_value rawConfig (protocolName @ ''_config_data''));
         json = json_insert ''type'' (JString ''activate'') [];
         json = json_put ''privateKey'' (json_value wgConfig ''client_priv_key'') json;
         json = json_put ''deviceIpv4Address'' (json_value wgConfig ''client_ip'') json;
         json = json_put ''deviceIpv6Address'' (JString ''fd58:baa6:dead::1'') json;
         json = json_put ''serverPublicKey'' (json_value wgConfig ''server_pub_key'') json;
         json = json_put ''serverPskKey'' (json_value wgConfig ''psk_key'') json;
         json = json_put ''serverIpv4AddrIn'' (json_value wgConfig ''hostName'') json;
         json = json_put ''deviceMTU'' (json_value wgConfig ''mtu'') json;
         json = json_put ''serverPort'' (JDouble (of_int (json_toInt (json_value wgConfig ''port'')))) json;
         json = json_put ''serverIpv4Gateway'' (json_value wgConfig ''hostName'') json;
         json = json_put ''dnsServer'' (json_value rawConfig ''dns1'') json;
         json = json_put ''allowedIPAddressRanges'' (JArray (jsAllowedIPAddesses rawConfig wgConfig)) json;
         json = json_put ''excludedAddresses'' (JArray (jsExcludedAddresses rawConfig wgConfig)) json;
         json = json_put ''vpnDisabledApps'' (JArray (json_toArray (json_value rawConfig ''splitTunnelApps''))) json;
         json = json_put ''killSwitchOption'' (json_value rawConfig ''killSwitchOption'') json
     in if protocolName = ''awg'' \<or> list_all (\<lambda>key. json_value wgConfig key \<noteq> JUndefined) junk_keys
        then fold (\<lambda>key. json_put key (json_value wgConfig key)) junk_keys json
        else json)"

definition client_activate :: "(json_object \<Rightarrow> string) \<Rightarrow> json_object \<Rightarrow> local_controller \<Rightarrow> local_controller" where
  "client_activate print rawConfig k = client_write print (activate_json rawConfig) k"

definition client_deactivate :: "(json_object \<Rightarrow> string) \<Rightarrow> local_controller \<Rightarrow> local_controller" where
  "client_deactivate print k =
    (if m_daemonState k \<noteq> eReady then emit_out EmitDisconnected k
     else emit_out EmitDisconnected (client_write print (json_insert ''type'' (JString ''deactivate'') []) k))"

definition drop_callback :: "local_controller \<Rightarrow> local_controller" where
  "drop_callback k = (case m_logCallback k of None \<Rightarrow> k
     | Some callback \<Rightarrow> (emit_out (CallLogs callback []) k)\<lparr>m_logCallback := None\<rparr>)"

definition getBackendLogs :: "(json_object \<Rightarrow> string) \<Rightarrow> nat \<Rightarrow> local_controller \<Rightarrow> local_controller" where
  "getBackendLogs print callback k =
    (let k' = drop_callback k
     in if m_daemonState k' \<noteq> eReady then emit_out (CallLogs callback []) k'
        else client_write print (json_insert ''type'' (JString ''logs'') []) (k'\<lparr>m_logCallback := Some callback\<rparr>))"

definition cleanupBackendLogs :: "(json_object \<Rightarrow> string) \<Rightarrow> local_controller \<Rightarrow> local_controller" where
  "cleanupBackendLogs print k =
    (let k' = drop_callback k
     in if m_daemonState k' \<noteq> eReady then k'
        else client_write print (json_insert ''type'' (JString ''cleanlogs'') []) k')"

text \<open>The messages of the daemon. \<open>fromString\<close> reads a date, \<open>None\<close> where it is invalid.\<close>

definition first_status :: "(string \<Rightarrow> int option) \<Rightarrow> json_object \<Rightarrow> local_controller \<Rightarrow> local_controller" where
  "first_status fromString obj k =
    (case json_value obj ''connected'' of
       JBool isConnected \<Rightarrow>
         if isConnected then
           (case json_value obj ''date'' of
              JString date \<Rightarrow>
                (case fromString date of
                   None \<Rightarrow> k
                 | Some datetime \<Rightarrow> emit_out (EmitInitialized True True (Some datetime)) k)
            | _ \<Rightarrow> k)
         else emit_out (EmitInitialized True False None) k
     | _ \<Rightarrow> k)"

text \<open>A double becomes an unsigned 64-bit number by dropping its fraction.\<close>

definition later_status :: "json_object \<Rightarrow> local_controller \<Rightarrow> local_controller" where
  "later_status obj k =
    (case (json_value obj ''serverIpv4Gateway'', json_value obj ''deviceIpv4Address'',
           json_value obj ''txBytes'', json_value obj ''rxBytes'') of
       (JString gateway, JString address, JDouble tx, JDouble rx) \<Rightarrow>
         emit_out (EmitStatusUpdated gateway address (word_of_int (truncate_rat tx)) (word_of_int (truncate_rat rx))) k
     | _ \<Rightarrow> k)"

definition client_logs :: "json_object \<Rightarrow> local_controller \<Rightarrow> local_controller" where
  "client_logs obj k =
    (case m_logCallback k of
       None \<Rightarrow> k
     | Some callback \<Rightarrow>
         (emit_out (CallLogs callback
           (map (\<lambda>c. if c = CHR ''|'' then CHR 0x0A else c) (qs_text (json_toString (json_value obj ''logs''))))) k)
         \<lparr>m_logCallback := None\<rparr>)"

definition client_handle :: "(string \<Rightarrow> int option) \<Rightarrow> json_object \<Rightarrow> local_controller \<Rightarrow> local_controller" where
  "client_handle fromString obj k =
    (case json_value obj ''type'' of
       JString type \<Rightarrow>
         if m_daemonState k = eInitializing \<and> type = ''status'' then
           first_status fromString obj (k\<lparr>m_daemonState := eReady\<rparr>)
         else if m_daemonState k \<noteq> eReady then k
         else if type = ''status'' then later_status obj k
         else if type = ''disconnected'' then disconnectInternal k
         else if type = ''connected'' then
           (case json_value obj ''pubkey'' of JString pubkey \<Rightarrow> emit_out (EmitConnected pubkey) k | _ \<Rightarrow> k)
         else if type = ''logs'' then client_logs obj k
         else k
     | _ \<Rightarrow> k)"

definition client_parseCommand ::
    "(string \<Rightarrow> json) \<Rightarrow> (string \<Rightarrow> int option) \<Rightarrow> string \<Rightarrow> local_controller \<Rightarrow> local_controller" where
  "client_parseCommand fromJson fromString command k =
    (case fromJson command of JObject obj \<Rightarrow> client_handle fromString obj k | _ \<Rightarrow> k)"

text \<open>The loop of \<open>readData\<close> over the lines of the buffer, for any handler of commands.\<close>

function line_loop :: "(string \<Rightarrow> 's \<Rightarrow> 's) \<Rightarrow> string \<Rightarrow> 's \<Rightarrow> string \<times> 's" where
  "line_loop handle buffer s =
    (if CHR 0x0A \<notin> set buffer then (buffer, s)
     else
       let line = takeWhile (\<lambda>c. c \<noteq> CHR 0x0A) buffer;
           buffer' = drop (length line + 1) buffer;
           command = trimmed line
       in line_loop handle buffer' (if command = [] then s else handle command s))"
  by pat_completeness auto
termination
  by (relation "measure (\<lambda>(h, b, s). length b)") (auto intro: diff_less dest: length_pos_if_in_set)

declare line_loop.simps [simp del]

definition client_readData ::
    "(string \<Rightarrow> json) \<Rightarrow> (string \<Rightarrow> int option) \<Rightarrow> string \<Rightarrow> local_controller \<Rightarrow> local_controller" where
  "client_readData fromJson fromString input k =
    (case line_loop (client_parseCommand fromJson fromString) (m_buffer k @ input) k of
       (buffer, k') \<Rightarrow> k'\<lparr>m_buffer := buffer\<rparr>)"

section \<open>Lines\<close>

lemma line_loop_read_loop: "line_loop handle buffer s = read_loop handle buffer [] s"
proof (induction handle buffer s rule: line_loop.induct)
  case (1 handle buffer s)
  then show ?case
    by (subst line_loop.simps, subst read_loop.simps) (simp add: Let_def)
qed

lemma read_loop_single:
  "read_loop handle buffer [input] s =
     (unfinished (buffer @ input), fold handle (commands (buffer @ input)) s)"
proof (cases "input = []")
  case True
  have "read_loop handle buffer [[]] s = read_loop handle buffer [] s"
  proof (induction handle buffer "[] :: string list" s rule: read_loop.induct)
    case (1 handle buffer s)
    then show ?case
      by (cases "CHR 0x0A \<in> set buffer"; subst (1 2) read_loop.simps) (simp_all add: Let_def)
  qed
  with True read_loop_frames [of "[]" handle buffer s] show ?thesis
    by simp
qed (simp add: read_loop_frames)

lemma unfinished_no_break: "CHR 0x0A \<notin> set s \<Longrightarrow> unfinished s = s \<and> commands s = []"
  using frames_no_break [of s "[]" "[]"] by (simp add: unfinished_def commands_def)

lemma unfinished_breakless: "CHR 0x0A \<notin> set (unfinished s)"
proof -
  have "CHR 0x0A \<notin> set acc \<Longrightarrow> CHR 0x0A \<notin> set (snd (frames acc s))" for acc
    by (induction acc s rule: frames.induct) (auto split: prod.splits)
  then show ?thesis
    by (simp add: unfinished_def)
qed

text \<open>
  Both ends of the socket read lines in the same way: they keep the unfinished line in a buffer that
  the handler of commands does not look at.
\<close>

locale line_reader =
  fixes receive :: "string \<Rightarrow> 's \<Rightarrow> 's" and handle :: "string \<Rightarrow> 's \<Rightarrow> 's"
    and buffer :: "'s \<Rightarrow> string" and store :: "string \<Rightarrow> 's \<Rightarrow> 's"
  assumes receive: "receive input s =
      store (unfinished (buffer s @ input)) (fold handle (commands (buffer s @ input)) s)"
    and handle_store: "handle c (store b s) = store b (handle c s)"
    and buffer_store: "buffer (store b s) = b"
    and store_store: "store b (store b' s) = store b s"
    and store_buffer: "store (buffer s) s = s"
begin

lemma fold_handle_store: "fold handle cs (store b s) = store b (fold handle cs s)"
  by (induction cs arbitrary: s) (simp_all add: handle_store)

lemma receive_all:
  assumes "CHR 0x0A \<notin> set (buffer s)"
  shows "fold receive inputs s =
    store (unfinished (buffer s @ concat inputs)) (fold handle (commands (buffer s @ concat inputs)) s)"
  using assms
proof (induction inputs arbitrary: s)
  case Nil
  then show ?case
    by (simp add: unfinished_no_break store_buffer)
next
  case (Cons input inputs)
  let ?u = "unfinished (buffer s @ input)"
  have "CHR 0x0A \<notin> set (buffer (receive input s))"
    by (simp add: receive buffer_store unfinished_breakless)
  from Cons.IH [OF this] show ?case
    by (simp add: receive buffer_store fold_handle_store store_store
        commands_append [of "buffer s @ input" "concat inputs"] flip: append_assoc)
qed

text \<open>A sequence of messages, each printed on a line of its own, arrives as it was sent.\<close>

lemma receive_messages:
  assumes "buffer s = []" and "concat inputs = concat (map (\<lambda>m. print m @ nl) ms)"
    and "\<And>m. m \<in> set ms \<Longrightarrow> CHR 0x0A \<notin> set (print m) \<and> print m \<noteq> [] \<and> trimmed (print m) = print m"
  shows "fold receive inputs s = fold (\<lambda>m. handle (print m)) ms s"
proof -
  have "frames [] (concat (map (\<lambda>m. print m @ nl) ms)) = (map print ms, [])"
    using assms(3)
  proof (induction ms)
    case (Cons m ms)
    then show ?case
      using frames_no_break [of "print m" "[]"] by simp
  qed simp
  then have "unfinished (concat inputs) = []" "commands (concat inputs) = map print ms"
    using assms(2,3) by (auto simp: unfinished_def commands_def filter_id_conv cong: map_cong)
  then show ?thesis
    using receive_all [of s inputs] assms(1) store_buffer [of "fold handle (map print ms) s"]
      fold_handle_store [of "map print ms" "[]" s] store_buffer [of s]
    by (simp add: fold_map o_def)
qed

end

lemma client_output_buffer:
  "emit_out e (k\<lparr>m_buffer := b\<rparr>) = (emit_out e k)\<lparr>m_buffer := b\<rparr>"
  by (simp add: emit_out_def)

lemma client_step_buffer:
  "first_status fromString obj (k\<lparr>m_buffer := b\<rparr>) = (first_status fromString obj k)\<lparr>m_buffer := b\<rparr>"
  "later_status obj (k\<lparr>m_buffer := b\<rparr>) = (later_status obj k)\<lparr>m_buffer := b\<rparr>"
  "client_logs obj (k\<lparr>m_buffer := b\<rparr>) = (client_logs obj k)\<lparr>m_buffer := b\<rparr>"
  "disconnectInternal (k\<lparr>m_buffer := b\<rparr>) = (disconnectInternal k)\<lparr>m_buffer := b\<rparr>"
  unfolding first_status_def later_status_def client_logs_def disconnectInternal_def
  by (simp_all add: emit_out_def split: json.split option.split)

lemma client_handle_buffer:
  "client_handle fromString obj (k\<lparr>m_buffer := b\<rparr>) = (client_handle fromString obj k)\<lparr>m_buffer := b\<rparr>"
proof (cases "json_value obj ''type''")
  case (JString type)
  let ?k = "k\<lparr>m_buffer := b\<rparr>"
  have state: "m_daemonState ?k = m_daemonState k"
    "?k\<lparr>m_daemonState := st\<rparr> = (k\<lparr>m_daemonState := st\<rparr>)\<lparr>m_buffer := b\<rparr>" for st
    by simp_all
  have pubkey: "(case v of JString pubkey \<Rightarrow> emit_out (EmitConnected pubkey) ?k | _ \<Rightarrow> ?k) =
      (case v of JString pubkey \<Rightarrow> emit_out (EmitConnected pubkey) k | _ \<Rightarrow> k)\<lparr>m_buffer := b\<rparr>" for v
    by (cases v) (simp_all add: client_output_buffer)
  show ?thesis
    unfolding client_handle_def JString json.case state client_step_buffer pubkey
    by (auto simp only: if_distrib [of "m_buffer_update (\<lambda>_. b)"])
qed (simp_all add: client_handle_def)

lemma write_buffer:
  "write_message p m (sv\<lparr>server.m_buffer := b\<rparr>) = (write_message p m sv)\<lparr>server.m_buffer := b\<rparr>"
  by (simp add: write_message_def)

lemma writes_buffer:
  "fold (write_message p) ms (sv\<lparr>server.m_buffer := b\<rparr>) = (fold (write_message p) ms sv)\<lparr>server.m_buffer := b\<rparr>"
  by (induction ms arbitrary: sv) (simp_all add: write_buffer)

lemma daemon_became_buffer:
  "daemon_became p d (sv\<lparr>server.m_buffer := b\<rparr>) = (daemon_became p d sv)\<lparr>server.m_buffer := b\<rparr>"
proof -
  have "sv\<lparr>server.m_buffer := b, the_daemon := d\<rparr> = sv\<lparr>the_daemon := d, server.m_buffer := b\<rparr>"
    by simp
  then show ?thesis
    by (simp only: daemon_became_def writes_buffer) (simp add: writes_buffer)
qed

lemma server_parseCommand_buffer:
  "parseCommand p windows fromJson data (sv\<lparr>server.m_buffer := b\<rparr>) =
     (parseCommand p windows fromJson data sv)\<lparr>server.m_buffer := b\<rparr>"
  by (simp add: parseCommand_def daemon_became_buffer write_buffer split: json.split option.split prod.split)

interpretation client_lines: line_reader "client_readData fromJson fromString"
  "client_parseCommand fromJson fromString" m_buffer "\<lambda>b. m_buffer_update (\<lambda>_. b)" for fromJson fromString
  by unfold_locales
    (simp_all add: client_readData_def line_loop_read_loop read_loop_frames client_parseCommand_def
      client_handle_buffer split: json.split)

interpretation server_lines: line_reader "\<lambda>input. readData p windows fromJson [input]"
  "parseCommand p windows fromJson" server.m_buffer "\<lambda>b. server.m_buffer_update (\<lambda>_. b)" for p windows fromJson
  by unfold_locales (simp_all add: readData_def read_loop_single server_parseCommand_buffer)

text \<open>The bytes that the client has written to the socket.\<close>

definition written_bytes :: "local_controller \<Rightarrow> string" where
  "written_bytes k = concat (List.map_filter (\<lambda>e. case e of Written b \<Rightarrow> Some b | _ \<Rightarrow> None) (outputs k))"

lemma written_messages:
  "written_bytes (fold (client_write print) ms k) = written_bytes k @ concat (map (\<lambda>m. print m @ nl) ms)"
  by (induction ms arbitrary: k) (simp_all add: client_write_def emit_out_def written_bytes_def map_filter_def)

section \<open>The activation request\<close>

lemma fold_put_other:
  "key \<notin> set ks \<Longrightarrow> json_value (fold (\<lambda>k. json_put k (f k)) ks obj) key = json_value obj key"
  "key \<notin> set ks \<Longrightarrow> json_contains (fold (\<lambda>k. json_put k (f k)) ks obj) key = json_contains obj key"
  by (induction ks arbitrary: obj) simp_all

definition wg_config :: "json_object \<Rightarrow> json_object" where
  "wg_config rawConfig = json_toObject
     (json_value rawConfig (qs_text (json_toString (json_value rawConfig ''protocol'')) @ ''_config_data''))"

lemma activate_json_value:
  fixes raw defines "wg \<equiv> wg_config raw" and "msg \<equiv> json_value (activate_json raw)"
  shows "msg ''type'' = JString ''activate''"
    "msg ''privateKey'' = json_value wg ''client_priv_key''"
    "msg ''deviceIpv4Address'' = json_value wg ''client_ip''"
    "msg ''deviceIpv6Address'' = JString ''fd58:baa6:dead::1''"
    "msg ''serverPublicKey'' = json_value wg ''server_pub_key''"
    "msg ''serverPskKey'' = json_value wg ''psk_key''"
    "msg ''serverIpv4AddrIn'' = json_value wg ''hostName''"
    "msg ''serverIpv6AddrIn'' = JUndefined"
    "msg ''deviceMTU'' = json_value wg ''mtu''"
    "msg ''serverPort'' = JDouble (of_int (json_toInt (json_value wg ''port'')))"
    "msg ''dnsServer'' = json_value raw ''dns1''"
    "msg ''allowedIPAddressRanges'' = JArray (jsAllowedIPAddesses raw wg)"
    "msg ''excludedAddresses'' = JArray (jsExcludedAddresses raw wg)"
    "msg ''vpnDisabledApps'' = JArray (json_toArray (json_value raw ''splitTunnelApps''))"
  unfolding msg_def wg_def wg_config_def activate_json_def Let_def
  by (simp_all only: if_distrib [of json_value] if_distribR) (simp_all add: fold_put_other)

lemma activate_json_contains:
  "json_contains (activate_json raw) ''dnsServer'' \<longleftrightarrow> json_value raw ''dns1'' \<noteq> JUndefined"
  "\<not> json_contains (activate_json raw) ''hopType''"
  "json_contains (activate_json raw) ''excludedAddresses''"
  "json_contains (activate_json raw) ''vpnDisabledApps''"
  unfolding activate_json_def Let_def
  by (simp_all only: if_distrib [of json_contains] if_distribR) (simp_all add: fold_put_other)

text \<open>The address and the prefix length that a listed site stands for.\<close>

definition site_pair :: "string \<Rightarrow> string \<times> int" where
  "site_pair s = (case qsplit (CHR ''/'') s of a # n # _ \<Rightarrow> (a, atoi n) | _ \<Rightarrow> (s, 32))"

definition site_address :: "host_address_text \<Rightarrow> string \<Rightarrow> IPAddress" where
  "site_address qt s = \<lparr>m_address = parseAddress qt (fst (site_pair s)), m_prefixLength = snd (site_pair s)\<rparr>"

lemma parse_range_object:
  "int_range n \<Longrightarrow> parse_range qt (range_object a n v6) = Some \<lparr>m_address = parseAddress qt a, m_prefixLength = n\<rparr>"
  by (simp add: parse_range_def range_object_def json_type_defs)

lemma site_range_pair: "site_range (JString s) = range_object (fst (site_pair s)) (snd (site_pair s)) False"
  by (simp add: site_range_def site_pair_def Let_def split: list.split)

lemma parse_site_ranges:
  "list_all (\<lambda>s. int_range (snd (site_pair s))) sites \<Longrightarrow>
   parse_ranges qt (map site_range (map JString sites)) = Some (map (site_address qt) sites)"
  by (induction sites) (simp_all add: site_range_pair parse_range_object site_address_def)

text \<open>What the configuration of the user interface asks for, by the kind of split tunnelling: 0 sends
  everything through the tunnel, 1 the listed sites only, 2 everything else.\<close>

definition wanted_ranges :: "host_address_text \<Rightarrow> int \<Rightarrow> string list \<Rightarrow> IPAddress list" where
  "wanted_ranges qt kind sites =
    (if kind = 1 then map (site_address qt) sites
     else [\<lparr>m_address = parseAddress qt ''0.0.0.0'', m_prefixLength = 0\<rparr>,
           \<lparr>m_address = parseAddress qt ''::'', m_prefixLength = 0\<rparr>])"

definition plain_request :: "json_object \<Rightarrow> int \<Rightarrow> string list \<Rightarrow> bool" where
  "plain_request raw kind sites \<longleftrightarrow>
     kind \<in> set [0, 1, 2] \<and> json_value raw ''splitTunnelType'' = JDouble (of_int kind) \<and>
     json_value raw ''splitTunnelSites'' = JArray (map JString sites) \<and>
     list_all (\<lambda>s. int_range (snd (site_pair s))) sites \<and>
     json_toArray (json_value (wg_config raw) ''allowed_ips'') \<in> set [[], defaultAllowedIP]"

lemma plain_requestD:
  assumes "plain_request raw kind sites"
  shows "parse_ranges qt (jsAllowedIPAddesses raw (wg_config raw)) = Some (wanted_ranges qt kind sites)"
    and "json_value (wg_config raw) ''hostName'' = JString host \<Longrightarrow>
      json_strings (jsExcludedAddresses raw (wg_config raw)) = Some (host # (if kind = 2 then sites else []))"
proof -
  have "kind = 0 \<or> kind = 1 \<or> kind = 2"
    using assms by (auto simp: plain_request_def)
  moreover from this have "json_toInt (JDouble (of_int kind)) = kind"
    by (intro json_toInt_int) (auto simp: int_range_def)
  ultimately have kind: "kind = 0 \<or> kind = 1 \<or> kind = 2" "json_toInt (JDouble (of_int kind)) = kind"
    by blast+
  have sites: "json_toArray (json_value raw ''splitTunnelSites'') = map JString sites"
    "json_toInt (json_value raw ''splitTunnelType'') = kind"
    using assms kind(2) by (simp_all add: plain_request_def)
  have "json_toArray (json_value (wg_config raw) ''allowed_ips'') = defaultAllowedIP \<or>
      json_toArray (json_value (wg_config raw) ''allowed_ips'') = []"
    using assms by (auto simp: plain_request_def)
  then have "jsAllowedIPAddesses raw (wg_config raw) =
      (if kind = 1 then map site_range (map JString sites)
       else [range_object ''0.0.0.0'' 0 False, range_object ''::'' 0 True])"
    using kind(1) unfolding jsAllowedIPAddesses_def Let_def sites by auto
  moreover have "parse_ranges qt (map site_range (map JString sites)) = Some (map (site_address qt) sites)"
    by (rule parse_site_ranges) (use assms in \<open>simp add: plain_request_def\<close>)
  ultimately show "parse_ranges qt (jsAllowedIPAddesses raw (wg_config raw)) = Some (wanted_ranges qt kind sites)"
    by (simp add: wanted_ranges_def parse_range_object int_range_def del: map_map)
  show "json_value (wg_config raw) ''hostName'' = JString host \<Longrightarrow>
      json_strings (jsExcludedAddresses raw (wg_config raw)) = Some (host # (if kind = 2 then sites else []))"
    unfolding jsExcludedAddresses_def Let_def sites by (simp add: o_def)
qed

lemma client_request_parsed:
  assumes "plain_request raw kind sites"
    and "json_value (wg_config raw) ''client_priv_key'' = JString key"
    and "json_value (wg_config raw) ''server_pub_key'' = JString peer"
    and "json_value (wg_config raw) ''hostName'' = JString host"
    and "json_value raw ''dns1'' = JString dns"
    and "json_value raw ''splitTunnelApps'' = JArray (map JString apps)"
  shows "\<exists>c. parseConfig qt order windows (activate_json raw) (InterfaceConfig_default hop kill) = Some c \<and>
    m_hopType c = SingleHop \<and> m_privateKey c = Some key \<and> m_serverPublicKey c = Some peer \<and>
    m_serverIpv4AddrIn c = Some host \<and> m_dnsServer c = Some dns \<and>
    m_allowedIPAddressRanges c = std_sort order (\<lambda>ip. - m_prefixLength ip) (wanted_ranges qt kind sites) \<and>
    m_excludedAddresses c = host # (if kind = 2 then sites else []) \<and> m_vpnDisabledApps c = apps"
proof -
  note lookup = activate_json_value [of raw]
  have "parse_allowed qt order (activate_json raw) [] =
      Some (std_sort order (\<lambda>ip. - m_prefixLength ip) (wanted_ranges qt kind sites))"
    unfolding parse_allowed_def lookup using plain_requestD(1) [OF assms(1)] by simp
  moreover have "parseStringList (activate_json raw) ''excludedAddresses'' [] =
      Some (host # (if kind = 2 then sites else []))"
    unfolding parseStringList_def lookup using plain_requestD(2) [OF assms(1,4)]
    by (simp add: activate_json_contains)
  moreover have "parseStringList (activate_json raw) ''vpnDisabledApps'' [] = Some apps"
    unfolding parseStringList_def lookup using assms(6) by (simp add: activate_json_contains)
  moreover have "parse_dns (activate_json raw) = Some (Some dns)" "parse_hop (activate_json raw) = Some SingleHop"
    using assms(5) by (simp_all add: parse_dns_def parse_hop_def get_string_def lookup activate_json_contains)
  moreover have "get_string (activate_json raw) ''privateKey'' = Some (Some key)"
    "get_string (activate_json raw) ''serverPublicKey'' = Some (Some peer)"
    "get_double (activate_json raw) ''serverPort'' = Some (json_toInt (json_value (wg_config raw) ''port''))"
    using assms(2,3) by (simp_all add: get_string_def get_double_def lookup json_toInt_range)
  ultimately show ?thesis
    unfolding parseConfig_def using assms(4) by (simp add: lookup InterfaceConfig_default_def)
qed

section \<open>Connecting\<close>

text \<open>One failed attempt: the socket reports an error, and the timer fires if it was started.\<close>

definition retry_round :: "bool \<Rightarrow> bool \<Rightarrow> local_controller \<Rightarrow> local_controller" where
  "retry_round windows exists k =
    (let k' = errorOccurred k
     in if m_initializingTimer k' then initializeInternal windows exists (k'\<lparr>m_initializingTimer := False\<rparr>) else k')"

definition attempt_output :: "bool \<Rightarrow> bool \<Rightarrow> client_output" where
  "attempt_output windows exists = last (outputs (initializeInternal windows exists controller_init))"

lemma initializeInternal_output:
  "initializeInternal windows exists k =
     k\<lparr>m_daemonState := eInitializing, outputs := outputs k @ [attempt_output windows exists]\<rparr>"
  by (simp add: initializeInternal_def attempt_output_def emit_out_def controller_init_def)

lemma retry_rounds:
  assumes "\<not> m_initializingTimer k" and "n \<le> 10"
  shows "(retry_round windows exists ^^ n) (client_initialize windows exists k) =
    k\<lparr>m_daemonState := eInitializing, m_initializingRetry := of_nat n,
      outputs := outputs k @ replicate (Suc n) (attempt_output windows exists)\<rparr>"
  using assms(2)
proof (induction n)
  case 0
  then show ?case
    by (simp add: client_initialize_def initializeInternal_output)
next
  case (Suc n)
  then have "n = 0 \<or> n = 1 \<or> n = 2 \<or> n = 3 \<or> n = 4 \<or> n = 5 \<or> n = 6 \<or> n = 7 \<or> n = 8 \<or> n = 9"
    by arith
  then have "(of_nat n :: 32 word) < MAX_CONNECTION_RETRY"
    by (auto simp: MAX_CONNECTION_RETRY_def)
  with Suc assms(1) show ?case
    by (simp add: retry_round_def errorOccurred_def initializeInternal_output Let_def add.commute
        replicate_append_same)
qed

end
