(* ===== verification/ClientDaemon.thy ===== *)
theory ClientDaemon
  imports LocalSocketController
begin

text \<open>
  The client and the daemon together: the properties of the conversation over the local socket, from
  the configuration of the user interface to the daemon's tunnel, and from the daemon's state to
  the signals of the client.
\<close>

section \<open>The status\<close>

text \<open>The connection and the peer that a status reply is about.\<close>

definition active_peer :: "'w platform \<Rightarrow> 'w daemon \<Rightarrow> (ConnectionState \<times> PeerStatus) option" where
  "active_peer p d =
    (case (fst (call p InterfaceExists d), connection_list d) of
       (True, connection # _) \<Rightarrow>
         map_option (Pair connection)
           (find (\<lambda>status. qs_eq (m_pubkey status) (m_serverPublicKey (m_config connection)))
             (plat_peers p (world (snd (call p InterfaceExists d)))))
     | _ \<Rightarrow> None)"

lemma getStatus_active:
  "fst (getStatus p d) =
    (case active_peer p d of
       None \<Rightarrow> json_insert ''connected'' (JBool False) []
     | Some (connection, status) \<Rightarrow>
         json_insert ''rxBytes'' (JDouble (of_int (m_rxBytes status)))
        (json_insert ''txBytes'' (JDouble (of_int (m_txBytes status)))
        (json_insert ''date'' (JString (print_date p (m_date connection)))
        (json_insert ''deviceIpv4Address'' (JString (qs_text (m_deviceIpv4Address (m_config connection))))
        (json_insert ''serverIpv4Gateway'' (JString (qs_text (m_serverIpv4Gateway (m_config connection))))
        (json_insert ''connected'' (JBool True) []))))))"
proof -
  have "connection_list (snd (call p InterfaceExists d)) = connection_list d"
    by (simp add: connection_list_def call_fields)
  then show ?thesis
    unfolding getStatus_def active_peer_def
    by (cases "call p InterfaceExists d"; cases "fst (call p InterfaceExists d)"; cases "connection_list d")
      (simp_all split: option.split)
qed


section \<open>Properties\<close>

text \<open>
  C6. What the user asks for is what the daemon is told to do: the request that the client makes of a
  configuration with its keys and its server is accepted by the daemon, which activates a single-hop
  tunnel with these keys, to this server, for the ranges that the kind of split tunnelling means
  (everything, the listed sites, or everything with the listed sites excluded), the more specific
  ranges first and ranges of the same length in any order; the server itself is always excluded from the tunnel.
\<close>

theorem client_request_activates:
  assumes "plain_request raw kind sites"
    and "json_value (wg_config raw) ''client_priv_key'' = JString key"
    and "json_value (wg_config raw) ''server_pub_key'' = JString peer"
    and "json_value (wg_config raw) ''hostName'' = JString host"
    and "json_value raw ''dns1'' = JString dns"
    and "json_value raw ''splitTunnelApps'' = JArray (map JString apps)"
    and "fromJson data = JObject (activate_json raw)"
  shows "\<exists>c. the_daemon (parseCommand p windows fromJson data sv) = snd (activate p c (the_daemon sv)) \<and>
    m_hopType c = SingleHop \<and> m_privateKey c = Some key \<and> m_serverPublicKey c = Some peer \<and>
    m_serverIpv4AddrIn c = Some host \<and> m_dnsServer c = Some dns \<and>
    mset (m_allowedIPAddressRanges c) = mset (wanted_ranges (host_text p) kind sites) \<and>
    sorted_wrt (\<lambda>a b. m_prefixLength b \<le> m_prefixLength a) (m_allowedIPAddressRanges c) \<and>
    m_excludedAddresses c = host # (if kind = 2 then sites else []) \<and> m_vpnDisabledApps c = apps"
proof -
  obtain c where c: "parseConfig (host_text p) (sort_order p) windows (activate_json raw)
      (InterfaceConfig_default SingleHop False) = Some c"
    and fields: "m_hopType c = SingleHop \<and> m_privateKey c = Some key \<and> m_serverPublicKey c = Some peer \<and>
      m_serverIpv4AddrIn c = Some host \<and> m_dnsServer c = Some dns \<and>
      m_allowedIPAddressRanges c =
        std_sort (sort_order p) (\<lambda>ip. - m_prefixLength ip) (wanted_ranges (host_text p) kind sites) \<and>
      m_excludedAddresses c = host # (if kind = 2 then sites else []) \<and> m_vpnDisabledApps c = apps"
    using client_request_parsed [OF assms(1-6), of "host_text p" "sort_order p" windows SingleHop False] by blast
  obtain ok d where d: "activate p c (the_daemon sv) = (ok, d)"
    by fastforce
  have "the_daemon (parseCommand p windows fromJson data sv) = d"
    unfolding parseCommand_def assms(7) json.case activate_json_value
    by (simp add: c d write_message_def)
  with fields d show ?thesis
    by (intro exI [of _ c]) (simp add: std_sort_decreasing)
qed

definition demo_raw :: json_object where
  "demo_raw = [(''protocol'', JString ''wireguard''), (''splitTunnelType'', JDouble (of_int 1)),
     (''splitTunnelSites'', JArray (map JString [''192.0.2.7/32''])), (''dns1'', JString ''1.1.1.1''),
     (''splitTunnelApps'', JArray (map JString [])),
     (''wireguard_config_data'', JObject [(''client_priv_key'', JString ''key''),
        (''server_pub_key'', JString ''peer''), (''hostName'', JString ''198.51.100.1''),
        (''port'', JDouble 51820)])]"

lemma demo_raw_plain: "plain_request demo_raw 1 [''192.0.2.7/32'']"
  by (simp add: plain_request_def demo_raw_def json_value_def wg_config_def site_pair_def atoi_def
      int_range_def is_space_def is_digit_def dec_val_def digit_val_def Let_def)

theorem client_request_activates_witness:
  "\<exists>c. the_daemon (parseCommand (demo_platform (\<lambda>_. True) []) False (\<lambda>_. JObject (activate_json demo_raw)) [] demo_server) =
      snd (activate (demo_platform (\<lambda>_. True) []) c (daemon_init ())) \<and>
    m_privateKey c = Some ''key'' \<and> m_excludedAddresses c = [''198.51.100.1'']"
proof -
  have "json_value (wg_config demo_raw) ''client_priv_key'' = JString ''key''"
    "json_value (wg_config demo_raw) ''server_pub_key'' = JString ''peer''"
    "json_value (wg_config demo_raw) ''hostName'' = JString ''198.51.100.1''"
    "json_value demo_raw ''dns1'' = JString ''1.1.1.1''"
    "json_value demo_raw ''splitTunnelApps'' = JArray (map JString [])"
    by (simp_all add: demo_raw_def wg_config_def json_value_def)
  from client_request_activates [OF demo_raw_plain this, of "\<lambda>_. JObject (activate_json demo_raw)" "[]"
      "demo_platform (\<lambda>_. True) []" False demo_server]
  show ?thesis
    by (auto simp: demo_server_def)
qed

text \<open>
  C7. The socket carries messages faithfully in both directions, in whatever pieces its bytes arrive:
  of the bytes that the client's \<open>write\<close> puts into the socket for a list of messages, the daemon
  handles exactly these messages, one by one and in order, and the client does so with the bytes
  that the daemon's \<open>write\<close> puts there; nothing is left in the buffers. The JSON text of a message
  is assumed to be read back as that message and to have no line break and no space around it.
\<close>

theorem messages_delivered:
  assumes "\<And>m. m \<in> set ms \<Longrightarrow> fromJson (print_json p m) = JObject m \<and> CHR 0x0A \<notin> set (print_json p m) \<and>
      print_json p m \<noteq> [] \<and> trimmed (print_json p m) = print_json p m"
    and "written_bytes (fold (client_write (print_json p)) ms k0) = written_bytes k0 @ concat requests"
    and "concat (sent (fold (write_message p) ms sv0)) = concat (sent sv0) @ concat replies"
    and "server.m_buffer sv = []" and "m_buffer k = []"
  shows "fold (\<lambda>input. readData p windows fromJson [input]) requests sv =
      fold (\<lambda>m. parseCommand p windows fromJson (print_json p m)) ms sv \<and>
    fold (client_readData fromJson fromString) replies k = fold (client_handle fromString) ms k"
proof -
  have "concat (concat (map (\<lambda>m. [print_json p m, nl]) ms)) = concat (map (\<lambda>m. print_json p m @ nl) ms)"
    by (induction ms) simp_all
  then have bytes: "concat requests = concat (map (\<lambda>m. print_json p m @ nl) ms)"
      "concat replies = concat (map (\<lambda>m. print_json p m @ nl) ms)"
    using assms(2,3) by (simp_all add: written_messages write_messages)
  have "fold (\<lambda>m. client_parseCommand fromJson fromString (print_json p m)) ms k = fold (client_handle fromString) ms k"
    by (rule fold_cong) (use assms(1) in \<open>simp_all add: client_parseCommand_def fun_eq_iff\<close>)
  then show ?thesis
    using server_lines.receive_messages [OF assms(4) bytes(1)] client_lines.receive_messages [OF assms(5) bytes(2)]
      assms(1)
    by auto
qed

definition demo_fromJson :: "string \<Rightarrow> json" where
  "demo_fromJson s = (if s = ''d'' then JObject msg_disconnected else JNull)"

theorem messages_delivered_witness:
  "concat (sent (fold (write_message (demo_platform (\<lambda>_. True) [])) [msg_disconnected, msg_disconnected] demo_server)) =
     concat [''d'', nl @ ''d'', nl] \<and>
   outputs (fold (client_readData demo_fromJson (\<lambda>_. None)) [''d'', nl @ ''d'', nl] (controller_init\<lparr>m_daemonState := eReady\<rparr>)) =
     [EmitDisconnected, EmitDisconnected]"
proof -
  let ?p = "demo_platform (\<lambda>_. True) []" and ?k = "controller_init\<lparr>m_daemonState := eReady\<rparr>"
  have print: "print_json ?p msg_disconnected = ''d''"
    by (simp add: demo_platform_def demo_print_def msg_disconnected_def)
  have bytes: "concat (sent (fold (write_message ?p) [msg_disconnected, msg_disconnected] demo_server)) =
      concat (sent demo_server) @ concat [''d'', nl @ ''d'', nl]"
    by (simp only: write_messages) (simp add: print)
  have asked: "written_bytes (fold (client_write (print_json ?p)) [msg_disconnected, msg_disconnected] ?k) =
      written_bytes ?k @ concat [''d'', nl, ''d'', nl]"
    by (simp only: written_messages) (simp add: print)
  have "fold (client_readData demo_fromJson (\<lambda>_. None)) [''d'', nl @ ''d'', nl] ?k =
      fold (client_handle (\<lambda>_. None)) [msg_disconnected, msg_disconnected] ?k"
    by (rule messages_delivered [of "[msg_disconnected, msg_disconnected]" demo_fromJson ?p ?k
          "[''d'', nl, ''d'', nl]" demo_server _ "demo_server\<lparr>server.m_buffer := []\<rparr>", THEN conjunct2])
      (rule asked bytes | use print in \<open>simp add: demo_fromJson_def controller_init_def trimmed_def is_space_def\<close>; fail)+
  with bytes show ?thesis
    by (simp add: client_handle_def msg_disconnected_def disconnectInternal_def emit_out_def controller_init_def demo_server_def)
qed

text \<open>
  C22. Connecting ends: the client tries at most eleven times to reach the daemon. As long as the
  attempts fail it goes on trying up to the tenth failure, and at the eleventh it gives up, saying
  that the daemon is not available and that nothing is connected.
\<close>

theorem connection_attempts:
  assumes "\<not> m_initializingTimer k" and "n \<le> 10"
  shows "outputs ((retry_round windows exists ^^ n) (client_initialize windows exists k)) =
      outputs k @ replicate (n + 1) (attempt_output windows exists) \<and>
    m_daemonState ((retry_round windows exists ^^ n) (client_initialize windows exists k)) = eInitializing \<and>
    (retry_round windows exists ^^ 11) (client_initialize windows exists k) =
      k\<lparr>m_daemonState := eReady, m_initializingRetry := 0,
        outputs := outputs k @ replicate 11 (attempt_output windows exists) @
          [EmitInitialized False False None, EmitDisconnected]\<rparr>"
proof -
  have "(retry_round windows exists ^^ 11) (client_initialize windows exists k) =
      retry_round windows exists ((retry_round windows exists ^^ 10) (client_initialize windows exists k))"
    by (subst funpow.simps(2) [symmetric, THEN fun_cong, unfolded o_def]) simp
  also have "\<dots> = k\<lparr>m_daemonState := eReady, m_initializingRetry := 0,
        outputs := outputs k @ replicate 11 (attempt_output windows exists) @
          [EmitInitialized False False None, EmitDisconnected]\<rparr>"
    unfolding retry_rounds [OF assms(1) order_refl] using assms(1)
    by (simp add: retry_round_def errorOccurred_def disconnectInternal_def emit_out_def MAX_CONNECTION_RETRY_def Let_def)
  finally show ?thesis
    using retry_rounds [OF assms] by simp
qed

theorem connection_attempts_witness:
  "length (outputs ((retry_round True False ^^ 11) (client_initialize True False controller_init))) = 13"
  using connection_attempts [of controller_init 10 True False] by (simp add: controller_init_def)

text \<open>
  C23. The status that the client reports is that of the daemon: for the peer of the first connection, its
  gateway, the address of the device and the bytes sent and received. The first reply after
  connecting says whether a tunnel is up and since when. The interface (controllerimpl.h) promises
  otherwise in two points: it documents the numbers of bytes as those since the last status, where
  the code reports the running counters of the peer, and the date as one that need not be known,
  where a first reply whose date cannot be read is lost.
\<close>

theorem status_reported:
  fixes p :: "'w platform" and d :: "'w daemon"
  defines "status_reply \<equiv> json_insert ''type'' (JString ''status'') (fst (getStatus p d))"
  shows "(m_daemonState k = eReady \<longrightarrow> client_handle fromString status_reply k =
      (case active_peer p d of None \<Rightarrow> k
       | Some (c, status) \<Rightarrow> emit_out (EmitStatusUpdated (qs_text (m_serverIpv4Gateway (m_config c)))
           (qs_text (m_deviceIpv4Address (m_config c))) (word_of_int (m_txBytes status))
           (word_of_int (m_rxBytes status))) k)) \<and>
    (m_daemonState k = eInitializing \<longrightarrow> outputs (client_handle fromString status_reply k) = outputs k @
      (case active_peer p d of None \<Rightarrow> [EmitInitialized True False None]
       | Some (c, status) \<Rightarrow> (case fromString (print_date p (m_date c)) of None \<Rightarrow> []
           | Some t \<Rightarrow> [EmitInitialized True True (Some t)])))"
  unfolding status_reply_def getStatus_active
  by (simp add: client_handle_def later_status_def first_status_def emit_out_def split: option.split)

lemma demo_active_peer:
  "active_peer (demo_platform (\<lambda>_. True) demo_peers) demo_connected =
     Some (\<lparr>m_date = Some 5, m_config = demo_config\<rparr>,
       \<lparr>m_pubkey = Some ''peer'', m_handshake = 7, m_rxBytes = 0, m_txBytes = 0\<rparr>)"
  by (simp add: active_peer_def call_def demo_platform_def connection_list_def demo_connected_def
      demo_peers_def map_filter_def all_hops_def qs_eq_def demo_config_def)

theorem status_reported_witness:
  "client_handle (\<lambda>_. None)
     (json_insert ''type'' (JString ''status'') (fst (getStatus (demo_platform (\<lambda>_. True) demo_peers) demo_connected)))
     (controller_init\<lparr>m_daemonState := eReady\<rparr>) =
   emit_out (EmitStatusUpdated [] ''10.8.1.2'' 0 0) (controller_init\<lparr>m_daemonState := eReady\<rparr>)"
  using status_reported [of "controller_init\<lparr>m_daemonState := eReady\<rparr>" "\<lambda>_. None"
      "demo_platform (\<lambda>_. True) demo_peers" demo_connected]
  by (simp add: demo_active_peer demo_config_def InterfaceConfig_default_def)

text \<open>A client that connects while the tunnel still waits for its handshake is never told that the
  daemon is ready: the reply has no date, as the date of the handshake is not yet known.\<close>

lemma initialization_lost:
  assumes "active_peer p d = Some (c, status)" and "m_date c = None" and "fromString (print_date p None) = None"
    and "m_daemonState k = eInitializing"
  shows "outputs (client_handle fromString (json_insert ''type'' (JString ''status'') (fst (getStatus p d))) k) = outputs k"
  unfolding getStatus_active using assms by (simp add: client_handle_def first_status_def)

end
