(* ===== verification/PingHelper.thy ===== *)
theory PingHelper
  imports IPAddress Complex_Main "HOL-Library.Multiset" "HOL-Library.Signed_Division"
begin

text \<open>
  The ping statistics: \<open>client/mozilla/pinghelper.cpp\<close>. Pings are numbered by a 16-bit counter that
  wraps around, and the last 32 of them are kept in a ring of records indexed by the number modulo
  32. The simulation at the end of the theory relates the ring to the unbounded list of all pings
  sent. The clock is an argument
  of the functions that read it. The senders are not part of the theory: whether the platform's
  sender is usable is a parameter of \<open>start\<close>, and the requests handed to the sender are recorded.
  The timer calls \<open>nextPing\<close> through a pointer to the sender, so a null pointer is the result
  \<open>None\<close>. Times, in milliseconds since the epoch, are unbounded integers here (64 bits in the code);
  sums and products of latencies are computed in 64 bits, and the floating-point operations of the
  deviation round their results in a way that is a parameter.
\<close>

section \<open>Definitions\<close>

record PingSendData =
  timestamp :: int
  latency :: int
  sequence :: "16 word"

datatype ping_sender = PlatformPingSender host_address | DnsPingSender host_address

record ping_helper =
  m_gateway :: host_address
  m_source :: host_address
  m_sequence :: "16 word"
  m_pingData :: "PingSendData list"
  m_pingTimer :: bool
  m_pingSender :: "ping_sender option"
  sendPing :: "(ping_sender \<times> host_address \<times> 16 word) list"
  pingSentAndReceived :: "int list"

abbreviation PING_STATS_WINDOW :: nat where
  "PING_STATS_WINDOW \<equiv> 32"

definition PING_TIMEOUT_SEC :: int where
  "PING_TIMEOUT_SEC = 1"

definition PingSendData_default :: PingSendData where
  "PingSendData_default = \<lparr>timestamp = -1, latency = -1, sequence = 0\<rparr>"

definition PingHelper_new :: ping_helper where
  "PingHelper_new = \<lparr>m_gateway = NullAddress, m_source = NullAddress, m_sequence = 0,
     m_pingData = replicate PING_STATS_WINDOW PingSendData_default,
     m_pingTimer = False, m_pingSender = None, sendPing = [], pingSentAndReceived = []\<rparr>"

definition start :: "host_address_text \<Rightarrow> (host_address \<Rightarrow> bool) \<Rightarrow> string \<Rightarrow> string \<Rightarrow> ping_helper \<Rightarrow> ping_helper" where
  "start qt isValid serverIpv4Gateway deviceIpv4Address h =
    (let source = parseAddress qt (takeWhile (\<lambda>c. c \<noteq> CHR ''/'') deviceIpv4Address)
     in h\<lparr>m_gateway := parseAddress qt serverIpv4Gateway,
          m_source := source,
          m_pingSender := Some (if isValid source then PlatformPingSender source else DnsPingSender source),
          m_sequence := 0,
          m_pingData := foldl (\<lambda>d i. d[i := \<lparr>timestamp = -1, latency = -1, sequence = 0\<rparr>]) (m_pingData h)
            [0..<PING_STATS_WINDOW],
          m_pingTimer := True\<rparr>)"

definition stop :: "ping_helper \<Rightarrow> ping_helper" where
  "stop h = h\<lparr>m_pingSender := None, m_pingTimer := False\<rparr>"

definition ring_index :: "16 word \<Rightarrow> nat" where
  "ring_index sq = unat sq mod PING_STATS_WINDOW"

definition nextPing :: "int \<Rightarrow> ping_helper \<Rightarrow> ping_helper option" where
  "nextPing now h =
    (case m_pingSender h of None \<Rightarrow> None
     | Some sender \<Rightarrow> Some (h\<lparr>
         m_pingData := (m_pingData h)[ring_index (m_sequence h) :=
           \<lparr>timestamp = now, latency = -1, sequence = m_sequence h\<rparr>],
         sendPing := sendPing h @ [(sender, m_gateway h, m_sequence h)],
         m_sequence := m_sequence h + 1\<rparr>))"

definition pingReceived :: "int \<Rightarrow> 16 word \<Rightarrow> ping_helper \<Rightarrow> ping_helper" where
  "pingReceived now sq h =
    (let index = ring_index sq; d = m_pingData h ! index
     in if sequence d = sq then
          (let l = now - timestamp d
           in h\<lparr>m_pingData := (m_pingData h)[index := d\<lparr>latency := l\<rparr>],
                pingSentAndReceived := pingSentAndReceived h @ [l]\<rparr>)
        else h)"

text \<open>The latencies of the pings that were answered.\<close>

definition answered :: "ping_helper \<Rightarrow> int list" where
  "answered h = filter (\<lambda>l. \<not> l < 0) (map latency (m_pingData h))"

text \<open>The value of a \<open>qint64\<close>.\<close>

definition qint64 :: "int \<Rightarrow> int" where
  "qint64 x = sint (word_of_int x :: 64 word)"

definition ping_latency :: "ping_helper \<Rightarrow> 32 word" where
  "ping_latency h =
    (let recvCount = int (length (answered h));
         totalMsec = foldl (\<lambda>totalMsec l. qint64 (totalMsec + l)) 0 (answered h)
     in if recvCount \<le> 0 then 0
        else (let totalMsec = qint64 (totalMsec + recvCount div 2)
              in word_of_int (totalMsec sdiv recvCount)))"

text \<open>\<open>rnd\<close> rounds to a double: the conversion of the variance, the quotient and the root are rounded,
  the root is then converted to an unsigned integer by dropping its fraction.\<close>

definition stddev :: "(real \<Rightarrow> real) \<Rightarrow> ping_helper \<Rightarrow> 32 word" where
  "stddev rnd h =
    (let recvCount = int (length (answered h)); average = uint (ping_latency h);
         totalVariance = foldl (\<lambda>totalVariance l.
             qint64 (totalVariance + qint64 (qint64 (average - l) * qint64 (average - l)))) 0 (answered h)
     in if recvCount \<le> 0 then 0
        else word_of_int \<lfloor>rnd (sqrt (rnd (rnd (real_of_int totalVariance) / real_of_int recvCount)))\<rfloor>)"

text \<open>What is used of rounding to a double, in any of its modes: it keeps the order, and every multiple
  of a power of two with a numerator of 53 bits is a double.\<close>

definition ieee_rounding :: "(real \<Rightarrow> real) \<Rightarrow> bool" where
  "ieee_rounding rnd \<longleftrightarrow> (\<forall>x y. 0 \<le> x \<longrightarrow> x \<le> y \<longrightarrow> y \<le> 2 ^ 1000 \<longrightarrow> rnd x \<le> rnd y) \<and>
     (\<forall>m e. m \<le> (2 :: nat) ^ 53 \<longrightarrow> e \<le> (1022 :: nat) \<longrightarrow> rnd (real m / 2 ^ e) = real m / 2 ^ e)"

definition maximum :: "ping_helper \<Rightarrow> 32 word" where
  "maximum h = foldl (\<lambda>maxRtt l. if l > uint maxRtt \<and> l < 2 ^ 32 - 1 then word_of_int l else maxRtt) 0 (answered h)"

definition lost_ping :: "int \<Rightarrow> PingSendData \<Rightarrow> bool" where
  "lost_ping sendBefore d \<longleftrightarrow> latency d < 0 \<and> timestamp d > 0 \<and> timestamp d < sendBefore"

definition loss :: "int \<Rightarrow> ping_helper \<Rightarrow> rat" where
  "loss now h =
    (let sendBefore = now - PING_TIMEOUT_SEC * 1000;
         recvCount = length (answered h);
         sendCount = recvCount + length (filter (lost_ping sendBefore) (m_pingData h))
     in if sendCount \<le> 0 then 0
        else of_int (int sendCount - int recvCount) / of_nat PING_STATS_WINDOW)"

section \<open>The list of all pings\<close>

text \<open>The specification: every ping with the time it was sent and its latency, -1 while unanswered.
  A reply is for the ping among the last 32 with its number.\<close>

type_synonym history = "(int \<times> int) list"

definition reply_index :: "history \<Rightarrow> 16 word \<Rightarrow> nat option" where
  "reply_index hist sq = find (\<lambda>j. word_of_nat j = sq) [length hist - PING_STATS_WINDOW..<length hist]"

definition reply :: "int \<Rightarrow> 16 word \<Rightarrow> history \<Rightarrow> history" where
  "reply now sq hist = (case reply_index hist sq of None \<Rightarrow> hist
     | Some j \<Rightarrow> hist[j := (fst (hist ! j), now - fst (hist ! j))])"

definition entry :: "history \<Rightarrow> nat \<Rightarrow> PingSendData" where
  "entry hist j = \<lparr>timestamp = fst (hist ! j), latency = snd (hist ! j), sequence = word_of_nat j\<rparr>"

text \<open>The last ping of a history that lies at an index of the ring.\<close>

definition ring_entry :: "history \<Rightarrow> nat \<Rightarrow> PingSendData" where
  "ring_entry hist i =
    (case find (\<lambda>j. j mod PING_STATS_WINDOW = i) [length hist - PING_STATS_WINDOW..<length hist] of
       None \<Rightarrow> PingSendData_default | Some j \<Rightarrow> entry hist j)"

definition ring_of :: "history \<Rightarrow> PingSendData list" where
  "ring_of hist = map (ring_entry hist) [0..<PING_STATS_WINDOW]"

definition represents :: "ping_helper \<Rightarrow> history \<Rightarrow> bool" where
  "represents h hist \<longleftrightarrow> m_sequence h = word_of_nat (length hist) \<and> m_pingData h = ring_of hist"

section \<open>Lemmas\<close>

lemma find_unique:
  assumes "x \<in> set xs" and "P x" and "\<And>y. y \<in> set xs \<Longrightarrow> P y \<Longrightarrow> y = x"
  shows "find P xs = Some x"
proof (cases "find P xs")
  case None
  with assms(1,2) show ?thesis
    by (simp add: find_None_iff)
next
  case (Some y)
  then have "y \<in> set xs" "P y"
    by (auto simp: find_Some_iff)
  with assms(3) Some show ?thesis
    by blast
qed

lemma mod_eq_close:
  assumes "i mod n = j mod n" and "i \<le> j" and "j < i + (n :: nat)"
  shows "i = j"
proof -
  have "n dvd j - i"
    using mod_eq_dvd_iff_nat [OF assms(2), of n] assms(1) by simp
  moreover have "j - i < n"
    using assms(2,3) by simp
  ultimately have "\<not> 0 < j - i"
    using nat_dvd_not_less by blast
  with assms(2) show ?thesis
    by simp
qed

lemma window_mod_unique:
  assumes "i \<in> {n - PING_STATS_WINDOW..<n}" and "j \<in> {n - PING_STATS_WINDOW..<n}"
    and "i mod PING_STATS_WINDOW = j mod PING_STATS_WINDOW"
  shows "i = (j :: nat)"
proof (cases "i \<le> j")
  case True
  with assms show ?thesis
    by (intro mod_eq_close [of i PING_STATS_WINDOW j]) auto
next
  case False
  with assms have "j = i"
    by (intro mod_eq_close [of j PING_STATS_WINDOW i]) auto
  then show ?thesis
    by simp
qed

lemma ring_entry_Some:
  assumes "j \<in> {length hist - PING_STATS_WINDOW..<length hist}"
  shows "ring_entry hist (j mod PING_STATS_WINDOW) = entry hist j"
proof -
  have "find (\<lambda>k. k mod PING_STATS_WINDOW = j mod PING_STATS_WINDOW)
      [length hist - PING_STATS_WINDOW..<length hist] = Some j"
  proof (rule find_unique)
    fix k
    assume "k \<in> set [length hist - PING_STATS_WINDOW..<length hist]"
      and "k mod PING_STATS_WINDOW = j mod PING_STATS_WINDOW"
    with assms show "k = j"
      by (intro window_mod_unique [of k "length hist" j]) simp_all
  qed (use assms in simp_all)
  then show ?thesis
    by (simp add: ring_entry_def)
qed

lemma ring_entry_None:
  assumes "\<And>j. j \<in> {length hist - PING_STATS_WINDOW..<length hist} \<Longrightarrow> j mod PING_STATS_WINDOW \<noteq> i"
  shows "ring_entry hist i = PingSendData_default"
proof -
  have "find (\<lambda>j. j mod PING_STATS_WINDOW = i) [length hist - PING_STATS_WINDOW..<length hist] = None"
    using assms by (auto simp: find_None_iff)
  then show ?thesis
    by (simp add: ring_entry_def)
qed

lemma ring_index_of_nat: "ring_index (word_of_nat n) = n mod PING_STATS_WINDOW"
proof -
  have "unat (word_of_nat n :: 16 word) = n mod 65536"
    by (simp add: unat_of_nat)
  moreover have "n mod 65536 mod 32 = n mod (32 :: nat)"
    by (rule mod_mod_cancel) simp
  ultimately show ?thesis
    by (simp add: ring_index_def)
qed

lemma nth_ring_of [simp]: "i < PING_STATS_WINDOW \<Longrightarrow> ring_of hist ! i = ring_entry hist i"
  by (simp add: ring_of_def)

lemma length_ring_of [simp]: "length (ring_of hist) = PING_STATS_WINDOW"
  by (simp add: ring_of_def)

lemma ring_of_Nil: "ring_of [] = replicate PING_STATS_WINDOW PingSendData_default"
  by (rule nth_equalityI) (simp_all add: ring_entry_def)

text \<open>Sending a ping extends the history.\<close>

lemma ring_of_snoc:
  "ring_of (hist @ [(now, -1)]) =
     (ring_of hist)[length hist mod PING_STATS_WINDOW :=
       \<lparr>timestamp = now, latency = -1, sequence = word_of_nat (length hist)\<rparr>]"
proof (rule nth_equalityI)
  let ?n = "length hist" and ?h = "hist @ [(now, -1)]"
  fix i assume "i < length (ring_of ?h)"
  then have i: "i < PING_STATS_WINDOW"
    by simp
  show "ring_of ?h ! i = (ring_of hist)[?n mod PING_STATS_WINDOW :=
      \<lparr>timestamp = now, latency = -1, sequence = word_of_nat ?n\<rparr>] ! i"
  proof (cases "i = ?n mod PING_STATS_WINDOW")
    case True
    then show ?thesis
      using ring_entry_Some [of ?n ?h] by (simp add: entry_def)
  next
    case False
    have "ring_entry ?h i = ring_entry hist i"
    proof (cases "\<exists>j \<in> {?n - PING_STATS_WINDOW..<?n}. j mod PING_STATS_WINDOW = i")
      case True
      then obtain j where j: "j \<in> {?n - PING_STATS_WINDOW..<?n}" "j mod PING_STATS_WINDOW = i"
        by blast
      have "j \<noteq> ?n - PING_STATS_WINDOW" if "PING_STATS_WINDOW \<le> ?n"
        using that j(2) False by (metis mod_add_self2 le_add_diff_inverse2)
      with j(1) have "j \<in> {length ?h - PING_STATS_WINDOW..<length ?h}"
        by (cases "PING_STATS_WINDOW \<le> ?n") auto
      from ring_entry_Some [OF this] ring_entry_Some [OF j(1)] j show ?thesis
        by (simp add: entry_def nth_append)
    next
      case none: False
      then have "ring_entry hist i = PingSendData_default"
        by (intro ring_entry_None) blast
      moreover have "ring_entry ?h i = PingSendData_default"
      proof (rule ring_entry_None)
        fix j assume "j \<in> {length ?h - PING_STATS_WINDOW..<length ?h}"
        then show "j mod PING_STATS_WINDOW \<noteq> i"
          using none False by (cases "j = ?n") auto
      qed
      ultimately show ?thesis
        by simp
    qed
    with False i show ?thesis
      by simp
  qed
qed simp

lemma represents_nextPing:
  "represents h hist \<Longrightarrow> nextPing now h = Some h' \<Longrightarrow> represents h' (hist @ [(now, -1)])"
  by (auto simp: represents_def nextPing_def ring_of_snoc ring_index_of_nat add.commute
      split: option.splits)

text \<open>A reply finds the ping it belongs to.\<close>

lemma reply_index_Some:
  assumes "j \<in> {length hist - PING_STATS_WINDOW..<length hist}"
  shows "reply_index hist (word_of_nat j) = Some j"
  unfolding reply_index_def
proof (rule find_unique)
  fix k assume "k \<in> set [length hist - PING_STATS_WINDOW..<length hist]"
    and eq: "word_of_nat k = (word_of_nat j :: 16 word)"
  then have "k \<in> {length hist - PING_STATS_WINDOW..<length hist}"
    by simp
  moreover have "k mod PING_STATS_WINDOW = j mod PING_STATS_WINDOW"
    using eq ring_index_of_nat by metis
  ultimately show "k = j"
    using assms by (intro window_mod_unique [of k "length hist" j])
qed (use assms in simp_all)

lemma reply_index_SomeD:
  "reply_index hist sq = Some j \<Longrightarrow>
   j \<in> {length hist - PING_STATS_WINDOW..<length hist} \<and> sq = word_of_nat j"
  by (auto simp: reply_index_def find_Some_iff)

lemma ring_of_update:
  assumes "j \<in> {length hist - PING_STATS_WINDOW..<length hist}"
  shows "ring_of (hist[j := x]) = (ring_of hist)[j mod PING_STATS_WINDOW := entry (hist[j := x]) j]"
proof (rule nth_equalityI)
  fix i assume "i < length (ring_of (hist[j := x]))"
  then have i: "i < PING_STATS_WINDOW"
    by simp
  show "ring_of (hist[j := x]) ! i = (ring_of hist)[j mod PING_STATS_WINDOW := entry (hist[j := x]) j] ! i"
  proof (cases "i = j mod PING_STATS_WINDOW")
    case True
    with ring_entry_Some [of j "hist[j := x]"] assms show ?thesis
      by simp
  next
    case False
    have "entry (hist[j := x]) k = entry hist k" if "k mod PING_STATS_WINDOW = i" for k
      using that False by (cases "k = j") (simp_all add: entry_def)
    moreover have "k mod PING_STATS_WINDOW = i"
      if "find (\<lambda>j. j mod PING_STATS_WINDOW = i) ks = Some k" for k ks
      using that by (metis (mono_tags, lifting) find_Some_iff)
    ultimately have "ring_entry (hist[j := x]) i = ring_entry hist i"
      by (simp add: ring_entry_def split: option.split)
    with False i show ?thesis
      by simp
  qed
qed simp

lemma represents_pingReceived:
  assumes rep: "represents h hist" and "hist \<noteq> [] \<or> sq \<noteq> 0"
  shows "represents (pingReceived now sq h) (reply now sq hist)"
proof -
  have data: "m_pingData h ! ring_index sq = ring_entry hist (ring_index sq)"
    using rep by (simp add: represents_def ring_index_def)
  show ?thesis
  proof (cases "reply_index hist sq")
    case (Some j)
    note j = reply_index_SomeD [OF Some]
    then have "ring_index sq = j mod PING_STATS_WINDOW"
      by (simp add: ring_index_of_nat)
    with j rep data Some show ?thesis
      by (auto simp: represents_def pingReceived_def Let_def reply_def ring_entry_Some entry_def
          ring_of_update)
  next
    case None
    have "sequence (ring_entry hist (ring_index sq)) \<noteq> sq"
    proof (cases "\<exists>j \<in> {length hist - PING_STATS_WINDOW..<length hist}. j mod PING_STATS_WINDOW = ring_index sq")
      case True
      then obtain j where j: "j \<in> {length hist - PING_STATS_WINDOW..<length hist}"
        "j mod PING_STATS_WINDOW = ring_index sq"
        by blast
      with ring_entry_Some [OF j(1)] None reply_index_Some [OF j(1)] show ?thesis
        by (auto simp: entry_def)
    next
      case False
      then have "ring_entry hist (ring_index sq) = PingSendData_default"
        by (intro ring_entry_None) blast
      moreover have "sq \<noteq> 0"
      proof
        assume "sq = 0"
        with assms(2) have "0 < length hist" "ring_index sq = 0"
          by (simp_all add: ring_index_def)
        define k where "k = (length hist - 1) div PING_STATS_WINDOW * PING_STATS_WINDOW"
        have "k + (length hist - 1) mod PING_STATS_WINDOW = length hist - 1"
          unfolding k_def by (rule div_mult_mod_eq)
        moreover have "(length hist - 1) mod PING_STATS_WINDOW < PING_STATS_WINDOW"
          by simp
        ultimately have "k \<in> {length hist - PING_STATS_WINDOW..<length hist}"
          using \<open>0 < length hist\<close> unfolding atLeastLessThan_iff by linarith
        moreover have "k mod PING_STATS_WINDOW = 0"
          by (simp add: k_def)
        ultimately show False
          using False \<open>ring_index sq = 0\<close> by metis
      qed
      ultimately show ?thesis
        by (auto simp: PingSendData_default_def)
    qed
    with data rep None show ?thesis
      by (simp add: represents_def pingReceived_def Let_def reply_def)
  qed
qed

section \<open>Statistics\<close>

text \<open>The answered pings of a history that count.\<close>

definition recent :: "history \<Rightarrow> int list" where
  "recent hist = filter (\<lambda>l. \<not> l < 0) (map snd (drop (length hist - PING_STATS_WINDOW) hist))"

lemma mset_filter_map:
  "mset (filter P (map f xs)) = image_mset f (filter_mset (P \<circ> f) (mset xs))"
  by (induction xs) simp_all

lemma ring_mset:
  assumes default: "\<not> P PingSendData_default"
  shows "mset (filter P (ring_of hist)) =
    mset (filter P (map (entry hist) [length hist - PING_STATS_WINDOW..<length hist]))"
proof -
  let ?W = "{length hist - PING_STATS_WINDOW..<length hist}"
  let ?f = "ring_entry hist" and ?g = "entry hist" and ?m = "\<lambda>j. j mod PING_STATS_WINDOW"
  have g: "?f (?m j) = ?g j" if "j \<in> ?W" for j
    by (rule ring_entry_Some [OF that])
  have "{i \<in> {0..<PING_STATS_WINDOW}. P (?f i)} = ?m ` {j \<in> ?W. P (?g j)}" (is "?A = ?B")
  proof
    show "?B \<subseteq> ?A"
      using g by auto
    show "?A \<subseteq> ?B"
    proof
      fix i assume i: "i \<in> ?A"
      have "\<exists>j \<in> ?W. ?m j = i"
      proof (rule ccontr)
        assume "\<not> (\<exists>j \<in> ?W. ?m j = i)"
        then have "?f i = PingSendData_default"
          by (intro ring_entry_None) blast
        with i default show False
          by simp
      qed
      with i g show "i \<in> ?B"
        by auto
    qed
  qed
  moreover have "inj_on ?m {j \<in> ?W. P (?g j)}"
    by (rule inj_onI) (use window_mod_unique in blast)
  ultimately have "image_mset ?f (mset_set {i \<in> {0..<PING_STATS_WINDOW}. P (?f i)}) =
      image_mset ?f (image_mset ?m (mset_set {j \<in> ?W. P (?g j)}))"
    by (simp add: image_mset_mset_set)
  also have "\<dots> = image_mset ?g (mset_set {j \<in> ?W. P (?g j)})"
    unfolding multiset.map_comp by (rule image_mset_cong) (use g in simp)
  finally show ?thesis
    by (simp only: ring_of_def mset_filter_map o_def mset_upt filter_mset_mset_set finite_atLeastLessThan)
qed

lemma window_entries:
  "map (\<lambda>d. (timestamp d, latency d)) (map (entry hist) [length hist - PING_STATS_WINDOW..<length hist]) =
   drop (length hist - PING_STATS_WINDOW) hist"
  by (rule nth_equalityI) (simp_all add: entry_def)

lemma window_filter:
  "map (\<lambda>d. (timestamp d, latency d)) (filter (\<lambda>d. P (timestamp d, latency d))
     (map (entry hist) [length hist - PING_STATS_WINDOW..<length hist])) =
   filter P (drop (length hist - PING_STATS_WINDOW) hist)"
  unfolding window_entries [symmetric] by (simp add: filter_map o_def)

lemma represents_filter:
  assumes "represents h hist" and "\<not> P (-1, -1)"
  shows "mset (map (\<lambda>d. (timestamp d, latency d)) (filter (\<lambda>d. P (timestamp d, latency d)) (m_pingData h))) =
    mset (filter P (drop (length hist - PING_STATS_WINDOW) hist))"
proof -
  have "m_pingData h = ring_of hist"
    using assms(1) by (simp add: represents_def)
  moreover have "mset (filter (\<lambda>d. P (timestamp d, latency d)) (ring_of hist)) =
      mset (filter (\<lambda>d. P (timestamp d, latency d))
        (map (entry hist) [length hist - PING_STATS_WINDOW..<length hist]))"
    by (rule ring_mset) (simp add: PingSendData_default_def assms(2))
  ultimately show ?thesis
    unfolding window_filter [symmetric] by (simp only: mset_map)
qed

lemma answered_recent:
  assumes "represents h hist"
  shows "mset (answered h) = mset (recent hist)"
proof -
  have "answered h = map snd (map (\<lambda>d. (timestamp d, latency d))
      (filter (\<lambda>d. \<not> snd (timestamp d, latency d) < 0) (m_pingData h)))"
    by (simp add: answered_def filter_map o_def)
  moreover have "recent hist = map snd (filter (\<lambda>p. \<not> snd p < 0) (drop (length hist - PING_STATS_WINDOW) hist))"
    by (simp add: recent_def filter_map o_def)
  ultimately show ?thesis
    using represents_filter [OF assms, of "\<lambda>p. \<not> snd p < 0"] by (simp only: mset_map) simp
qed

lemma answered_same:
  assumes "represents h hist"
  shows "length (answered h) = length (recent hist)" and "sum_list (answered h) = sum_list (recent hist)"
    and "set (answered h) = set (recent hist)"
  using answered_recent [OF assms] by (metis size_mset, metis sum_mset_sum_list, metis set_mset_mset)

lemma recent_nonneg: "l \<in> set (recent hist) \<Longrightarrow> 0 \<le> l"
  by (auto simp: recent_def)

text \<open>Division with half of the divisor added rounds to the nearest integer.\<close>

lemma rounded_division:
  fixes t n :: int
  assumes "0 < n"
  shows "2 * \<bar>(t + n div 2) div n * n - t\<bar> \<le> n"
proof -
  let ?q = "(t + n div 2) div n"
  have "?q * n \<le> t + n div 2" "t + n div 2 < ?q * n + n"
    using assms div_mult_mod_eq [of "t + n div 2" n] pos_mod_sign [of n "t + n div 2"]
      pos_mod_bound [of n "t + n div 2"] by linarith+
  moreover have "n - 1 \<le> 2 * (n div 2)" "2 * (n div 2) \<le> n"
    by linarith+
  moreover have "2 * \<bar>p - t\<bar> \<le> n"
    if "p \<le> t + h" "t + h < p + n" "n - 1 \<le> 2 * h" "2 * h \<le> n" for p h
    using that by arith
  ultimately show ?thesis
    by blast
qed

lemma maximum_foldl:
  assumes "\<And>l. l \<in> set ls \<Longrightarrow> 0 \<le> l \<and> l < 2 ^ 32 - 1"
  shows "uint (foldl (\<lambda>m l. if l > uint m \<and> l < 2 ^ 32 - 1 then word_of_int l else m) (m :: 32 word) ls) =
    Max (insert (uint m) (set ls))"
  using assms
proof (induction ls arbitrary: m)
  case (Cons l ls)
  let ?m = "if l > uint m \<and> l < 2 ^ 32 - 1 then word_of_int l else m"
  have "uint (word_of_int l :: 32 word) = l"
    using Cons.prems [of l] by (simp add: uint_word_of_int)
  then have "uint ?m = max (uint m) l"
    using Cons.prems [of l] by auto
  moreover have "Max (insert (max a b) A) = Max (insert a (insert b A))" if "finite A" for a b :: int and A
    using that by (cases "A = {}") (simp_all add: max.assoc)
  ultimately show ?case
    using Cons.IH [of ?m] Cons.prems by simp
qed simp


lemma sum_list_le_length:
  "(\<And>l. l \<in> set ls \<Longrightarrow> f l \<le> b) \<Longrightarrow> sum_list (map f ls) \<le> int (length ls) * b"
proof (induction ls)
  case (Cons l ls)
  then have "f l \<le> b" "sum_list (map f ls) \<le> int (length ls) * b"
    by simp_all
  then show ?case
    by (simp add: algebra_simps)
qed simp

lemma average_le:
  fixes ls :: "int list"
  assumes "ls \<noteq> []" and "\<And>l. l \<in> set ls \<Longrightarrow> l \<le> b"
  shows "(sum_list ls + int (length ls) div 2) div int (length ls) \<le> b"
proof (rule ccontr)
  let ?n = "int (length ls)"
  let ?q = "(sum_list ls + ?n div 2) div ?n"
  assume "\<not> ?q \<le> b"
  then have "b + 1 \<le> ?q"
    by simp
  then have "(b + 1) * ?n \<le> ?q * ?n"
    by (rule mult_right_mono) simp
  moreover have n: "0 < ?n"
    using assms(1) by simp
  have "?q * ?n \<le> sum_list ls + ?n div 2"
    using div_mult_mod_eq [of "sum_list ls + ?n div 2" ?n] pos_mod_sign [OF n, of "sum_list ls + ?n div 2"]
    by linarith
  moreover have "sum_list ls \<le> ?n * b"
    using sum_list_le_length [of ls "\<lambda>l. l" b] assms(2) by simp
  moreover have "(b + 1) * ?n = ?n * b + ?n"
    by (simp add: algebra_simps)
  moreover have "?n div 2 < ?n"
    using n by linarith
  ultimately show False
    by linarith
qed

lemma qint64_self: "- (2 ^ 63) \<le> x \<Longrightarrow> x < 2 ^ 63 \<Longrightarrow> qint64 x = x"
  unfolding qint64_def sint_sbintrunc' by (rule signed_take_bit_int_eq_self) simp_all

lemma sdiv_nonneg: "0 \<le> a \<Longrightarrow> 0 < b \<Longrightarrow> a sdiv b = a div b" for a b :: int
  by (cases "a = 0") (simp_all add: signed_divide_int_def)

lemma qint64_sum:
  assumes "\<And>x. x \<in> set xs \<Longrightarrow> 0 \<le> f x" and "0 \<le> t" and "t + sum_list (map f xs) < 2 ^ 63"
  shows "foldl (\<lambda>t x. qint64 (t + f x)) t xs = t + sum_list (map f xs)"
  using assms
proof (induction xs arbitrary: t)
  case (Cons x xs)
  have "0 \<le> sum_list (map f xs)"
    by (rule sum_list_nonneg) (use Cons.prems(1) in auto)
  then have "qint64 (t + f x) = t + f x"
    using Cons.prems(1) [of x] Cons.prems(2,3) by (intro qint64_self) simp_all
  with Cons.IH [of "t + f x"] Cons.prems show ?case
    by simp
qed simp

lemma answered_nonneg: "l \<in> set (answered h) \<Longrightarrow> 0 \<le> l"
  by (simp add: answered_def)

lemma uint_ping_latency:
  assumes "answered h \<noteq> []" and "\<And>l. l \<in> set (answered h) \<Longrightarrow> l < 2 ^ 32" and "length (answered h) \<le> 32"
  shows "uint (ping_latency h) =
    (sum_list (answered h) + int (length (answered h)) div 2) div int (length (answered h))"
proof -
  let ?n = "int (length (answered h))"
  let ?a = "(sum_list (answered h) + ?n div 2) div ?n"
  have total: "sum_list (answered h) \<le> ?n * 2 ^ 32"
    using sum_list_le_length [of "answered h" "\<lambda>l. l" "2 ^ 32"] assms(2) by (simp add: less_imp_le)
  have "?n * 2 ^ 32 \<le> 32 * 2 ^ 32"
    using assms(3) by (intro mult_right_mono) simp_all
  with total have small: "sum_list (answered h) \<le> 2 ^ 37"
    by simp
  have pos: "0 \<le> sum_list (answered h)"
    by (rule sum_list_nonneg) (rule answered_nonneg)
  have "foldl (\<lambda>t l. qint64 (t + l)) 0 (answered h) = sum_list (answered h)"
    using qint64_sum [of "answered h" "\<lambda>l. l" 0] small answered_nonneg by simp
  moreover have "qint64 (sum_list (answered h) + ?n div 2) = sum_list (answered h) + ?n div 2"
    using small pos assms(3) by (intro qint64_self) auto
  moreover have "(sum_list (answered h) + ?n div 2) sdiv ?n = ?a"
    using pos assms(1) by (intro sdiv_nonneg) simp_all
  moreover have "?a \<le> 2 ^ 32 - 1"
    by (rule average_le) (use assms in force)+
  moreover have "0 \<le> ?a"
    using pos by (simp add: pos_imp_zdiv_nonneg_iff assms(1))
  ultimately show ?thesis
    using assms(1) by (simp add: ping_latency_def Let_def uint_word_of_int)
qed

lemma floor_sqrt_bounds:
  fixes v n :: int
  assumes "0 \<le> v" and "0 < n" and d: "d = \<lfloor>sqrt (real_of_int v / real_of_int n)\<rfloor>"
  shows "d ^ 2 * n \<le> v" and "v < (d + 1) ^ 2 * n"
proof -
  let ?x = "real_of_int v / real_of_int n"
  have x: "0 \<le> ?x"
    using assms by simp
  have "real_of_int d \<le> sqrt ?x" "sqrt ?x < real_of_int d + 1"
    using d by linarith+
  moreover have "0 \<le> d"
    using d x by (simp add: real_sqrt_ge_zero)
  ultimately have "real_of_int d \<le> sqrt ?x" "sqrt ?x < real_of_int d + 1" "0 \<le> real_of_int d"
    by simp_all
  then have "(real_of_int d) ^ 2 \<le> ?x" "?x < (real_of_int d + 1) ^ 2"
    using x power_mono [of "real_of_int d" "sqrt ?x" 2]
      power_strict_mono [of "sqrt ?x" "real_of_int d + 1" 2] by simp_all
  then have "real_of_int (d ^ 2 * n) \<le> real_of_int v" "real_of_int v < real_of_int ((d + 1) ^ 2 * n)"
    using assms(2) by (simp_all add: field_simps)
  then show "d ^ 2 * n \<le> v" "v < (d + 1) ^ 2 * n"
    by (simp_all only: of_int_le_iff of_int_less_iff)
qed


section \<open>Runs\<close>

text \<open>What happens to a ping helper. The timer fires only while it runs.\<close>

datatype ping_event = Start string string | Stop | Tick int | Received int "16 word"

fun ping_step :: "host_address_text \<Rightarrow> (host_address \<Rightarrow> bool) \<Rightarrow> ping_event \<Rightarrow> ping_helper \<Rightarrow> ping_helper option" where
  "ping_step qt isValid (Start gateway device) h = Some (start qt isValid gateway device h)"
| "ping_step qt isValid Stop h = Some (stop h)"
| "ping_step qt isValid (Tick now) h = (if m_pingTimer h then nextPing now h else Some h)"
| "ping_step qt isValid (Received now sq) h = Some (pingReceived now sq h)"

fun ping_run :: "host_address_text \<Rightarrow> (host_address \<Rightarrow> bool) \<Rightarrow> ping_event list \<Rightarrow> ping_helper \<Rightarrow> ping_helper option" where
  "ping_run qt isValid [] h = Some h"
| "ping_run qt isValid (e # es) h =
    (case ping_step qt isValid e h of None \<Rightarrow> None | Some h' \<Rightarrow> ping_run qt isValid es h')"

text \<open>The specification of a run: whether the timer runs, and the history since the last start.\<close>

fun history_step :: "ping_event \<Rightarrow> bool \<times> history \<Rightarrow> bool \<times> history" where
  "history_step (Start _ _) (_, _) = (True, [])"
| "history_step Stop (_, hist) = (False, hist)"
| "history_step (Tick now) (running, hist) = (running, if running then hist @ [(now, -1)] else hist)"
| "history_step (Received now sq) (running, hist) = (running, reply now sq hist)"

definition history_run :: "ping_event list \<Rightarrow> bool \<times> history \<Rightarrow> bool \<times> history" where
  "history_run es = fold history_step es"

text \<open>No reply with the number 0 comes in before the first ping after a start.\<close>

fun stray :: "ping_event \<Rightarrow> history \<Rightarrow> bool" where
  "stray (Received _ sq) hist \<longleftrightarrow> hist = [] \<and> sq = 0"
| "stray _ _ \<longleftrightarrow> False"

fun no_stray :: "ping_event list \<Rightarrow> bool \<times> history \<Rightarrow> bool" where
  "no_stray [] _ \<longleftrightarrow> True"
| "no_stray (e # es) s \<longleftrightarrow> \<not> stray e (snd s) \<and> no_stray es (history_step e s)"

definition run_rel :: "ping_helper \<Rightarrow> bool \<times> history \<Rightarrow> bool" where
  "run_rel h s \<longleftrightarrow> m_pingTimer h = fst s \<and> (m_pingTimer h \<longrightarrow> m_pingSender h \<noteq> None) \<and> represents h (snd s)"

lemma ieee_whole:
  assumes "ieee_rounding rnd" and "0 \<le> m" and "m \<le> 2 ^ 53" and "e \<le> 1022"
  shows "rnd (real_of_int m / 2 ^ e) = real_of_int m / 2 ^ e"
proof -
  have "nat m \<le> 2 ^ 53" using assms(3) by (simp add: nat_le_iff)
  then have "rnd (real (nat m) / 2 ^ e) = real (nat m) / 2 ^ e"
    using assms(1,4) unfolding ieee_rounding_def by blast
  with assms(2) show ?thesis by simp
qed

lemma ieee_between:
  assumes "ieee_rounding rnd" and "0 \<le> a" and "real_of_int a \<le> x"
    and "0 \<le> b" and "x \<le> real_of_int b / 2 ^ e" and "a \<le> 2 ^ 53" and "b \<le> 2 ^ 53" and "e \<le> 1022"
  shows "real_of_int a \<le> rnd x" and "rnd x \<le> real_of_int b / 2 ^ e"
proof -
  have mono: "rnd x \<le> rnd y" if "0 \<le> x" "x \<le> y" "y \<le> 2 ^ 1000" for x y
    using assms(1) that by (simp add: ieee_rounding_def)
  have "real_of_int b \<le> real_of_int (2 ^ 53)"
    using assms(7) by (simp only: of_int_le_iff)
  then have b: "real_of_int b \<le> 2 ^ 1000"
    using power_increasing [of 53 1000 "2 :: real"] by simp
  have "real_of_int b / 2 ^ e \<le> real_of_int b"
    using assms(4) by (simp add: divide_le_eq mult_le_cancel_left1 )
  with b have hi: "real_of_int b / 2 ^ e \<le> 2 ^ 1000"
    by linarith
  have "0 \<le> x"
    using assms(2,3) by (meson of_int_0_le_iff order_trans)
  then show "rnd x \<le> real_of_int b / 2 ^ e"
    using mono [OF _ assms(5) hi] ieee_whole [OF assms(1,4,7,8)] by simp
  show "real_of_int a \<le> rnd x"
    using mono [of "real_of_int a" x] assms(2,3,5) hi ieee_whole [OF assms(1,2,6), of 0] by simp
qed

text \<open>For variances of up to 45 bits the roundings do not change the whole part of the root: an integer
  square root is reached exactly, and below the next one there is room for a double.\<close>

lemma rounded_root:
  assumes "ieee_rounding rnd" and "0 \<le> v" and "0 < n" and "n \<le> 32" and "v < 2 ^ 40 * n"
  shows "\<lfloor>rnd (sqrt (rnd (rnd (real_of_int v) / real_of_int n)))\<rfloor> = \<lfloor>sqrt (real_of_int v / real_of_int n)\<rfloor>"
proof -
  define q where "q = real_of_int v / real_of_int n"
  define k where "k = \<lfloor>sqrt q\<rfloor>"
  have n: "0 < real_of_int n" using assms(3) by simp
  have "0 \<le> q" using assms(2,3) by (simp add: q_def)
  then have k0: "0 \<le> k" by (simp add: k_def)
  have k: "k ^ 2 * n \<le> v" "v < (k + 1) ^ 2 * n"
    by (rule floor_sqrt_bounds [OF assms(2,3)], simp add: k_def q_def)+
  have "k ^ 2 * n < 2 ^ 40 * n" using k(1) assms(5) by linarith
  then have "k ^ 2 < (2 ^ 20) ^ 2" using assms(3) by simp
  then have kb: "k < 2 ^ 20" by (rule power_less_imp_less_base) simp
  have K: "1 \<le> k + 1" "k + 1 \<le> 2 ^ 20" using k0 kb by simp_all
  have K2: "1 \<le> (k + 1) ^ 2" "(k + 1) ^ 2 \<le> (2 ^ 20) ^ 2"
    using power_mono [OF K(1), of 2] power_mono [OF K(2), of 2] k0 by simp_all
  have "v \<le> 2 ^ 53" using assms(4,5) by simp
  then have v: "rnd (real_of_int v) = real_of_int v"
    using ieee_whole [OF assms(1,2), of 0] by simp
  have "v * 32 \<le> (32 * (k + 1) ^ 2 - 1) * n"
  proof -
    have "v \<le> (k + 1) ^ 2 * n - 1" using k(2) by linarith
    then have "v * 32 \<le> ((k + 1) ^ 2 * n - 1) * 32" by (rule mult_right_mono) simp
    also have "\<dots> \<le> (32 * (k + 1) ^ 2 - 1) * n" using assms(4) by (simp add: left_diff_distrib)
    finally show ?thesis .
  qed
  then have "real_of_int (v * 32) \<le> real_of_int ((32 * (k + 1) ^ 2 - 1) * n)"
    by (simp only: of_int_le_iff)
  then have qle: "q \<le> real_of_int (32 * (k + 1) ^ 2 - 1) / 2 ^ 5"
    using n by (simp add: q_def field_simps)
  have "real_of_int (k ^ 2 * n) \<le> real_of_int v" using k(1) by (simp only: of_int_le_iff)
  then have qge: "real_of_int (k ^ 2) \<le> q" using n by (simp add: q_def field_simps)
  have bounds: "0 \<le> k ^ 2" "k ^ 2 \<le> 2 ^ 53" "0 \<le> 32 * (k + 1) ^ 2 - 1" "32 * (k + 1) ^ 2 - 1 \<le> 2 ^ 53"
    using K2 k0 \<open>k ^ 2 < (2 ^ 20) ^ 2\<close> by simp_all
  have w: "real_of_int (k ^ 2) \<le> rnd q" "rnd q \<le> real_of_int (32 * (k + 1) ^ 2 - 1) / 2 ^ 5"
    using ieee_between [OF assms(1) _ qge _ qle] bounds by simp_all
  have ge: "real_of_int k \<le> sqrt (rnd q)"
    using w(1) by (intro real_le_rsqrt) simp
  let ?x = "real_of_int ((k + 1) * 2 ^ 26 - 1) / 2 ^ 26"
  define y where "y = real_of_int (k + 1)"
  have "real_of_int (k + 1) \<le> real_of_int (2 ^ 20)" using K(2) by (simp only: of_int_le_iff)
  then have "2 * y * (1 / 2 ^ 26) \<le> 1 / 32" by (simp add: y_def)
  then have "y ^ 2 - 1 / 32 \<le> (y - 1 / 2 ^ 26) ^ 2"
    unfolding power2_diff using zero_le_power2 [of "1 / 2 ^ 26 :: real"] by linarith
  moreover have x: "?x = y - 1 / 2 ^ 26" by (simp add: y_def diff_divide_distrib)
  moreover have "real_of_int (32 * (k + 1) ^ 2 - 1) / 2 ^ 5 = y ^ 2 - 1 / 32"
    by (simp add: y_def diff_divide_distrib)
  ultimately have "real_of_int (32 * (k + 1) ^ 2 - 1) / 2 ^ 5 \<le> ?x ^ 2" by (simp only:)
  with w(2) have "rnd q \<le> ?x ^ 2" by linarith
  moreover have x0: "0 \<le> (k + 1) * 2 ^ 26 - 1" using K(1) by simp
  have "0 \<le> real_of_int ((k + 1) * 2 ^ 26 - 1)" using x0 by (simp only: of_int_0_le_iff)
  then have "0 \<le> ?x" by (rule divide_nonneg_nonneg) simp
  ultimately have le: "sqrt (rnd q) \<le> ?x" by (rule real_le_lsqrt [rotated])
  have "(k + 1) * 2 ^ 26 - 1 \<le> 2 ^ 53" "k \<le> 2 ^ 53" using K(2) by simp_all
  then have "real_of_int k \<le> rnd (sqrt (rnd q))" "rnd (sqrt (rnd q)) \<le> ?x"
    using ieee_between [OF assms(1) k0 ge x0 le] by simp_all
  then have "\<lfloor>rnd (sqrt (rnd q))\<rfloor> = k"
    unfolding x y_def by (intro floor_unique) simp_all
  then show ?thesis by (simp add: v k_def q_def)
qed

lemma uint_stddev:
  assumes "ieee_rounding rnd" and "answered h \<noteq> []" and "\<And>l. l \<in> set (answered h) \<Longrightarrow> l < 2 ^ 20"
    and "length (answered h) \<le> 32"
  defines "v \<equiv> sum_list (map (\<lambda>l. (uint (ping_latency h) - l) ^ 2) (answered h))"
  shows "uint (stddev rnd h) = \<lfloor>sqrt (real_of_int v / real (length (answered h)))\<rfloor>"
proof -
  let ?n = "int (length (answered h))" and ?a = "uint (ping_latency h)"
  have n: "0 < ?n" "?n \<le> 32"
    using assms(2,4) by simp_all
  have a: "0 \<le> ?a" "?a \<le> 2 ^ 20 - 1"
  proof -
    have "?a = (sum_list (answered h) + ?n div 2) div ?n"
      by (rule uint_ping_latency [OF assms(2) _ assms(4)]) (use assms(3) in force)
    also have "\<dots> \<le> 2 ^ 20 - 1"
      by (rule average_le [OF assms(2)]) (use assms(3) in force)
    finally show "?a \<le> 2 ^ 20 - 1" .
  qed simp
  have d: "\<bar>?a - l\<bar> \<le> 2 ^ 20 - 1" if "l \<in> set (answered h)" for l
    using that a assms(3) [OF that] answered_nonneg [OF that] by linarith
  have sq: "(?a - l) ^ 2 \<le> (2 ^ 20 - 1) ^ 2" if "l \<in> set (answered h)" for l
    using d [OF that] abs_le_square_iff [of "?a - l" "2 ^ 20 - 1"] by simp
  have "v \<le> ?n * (2 ^ 20 - 1) ^ 2"
    unfolding v_def using sq by (rule sum_list_le_length)
  moreover have "?n * (2 ^ 20 - 1) ^ 2 < 2 ^ 40 * ?n"
    using n(1) by simp
  ultimately have v: "v < 2 ^ 40 * ?n" "0 \<le> v"
    by (linarith, unfold v_def) (rule sum_list_nonneg, auto)
  have step: "qint64 (qint64 (?a - l) * qint64 (?a - l)) = (?a - l) ^ 2" if "l \<in> set (answered h)" for l
  proof -
    have "qint64 (?a - l) = ?a - l"
      using d [OF that] by (intro qint64_self) simp_all
    moreover have "qint64 ((?a - l) ^ 2) = (?a - l) ^ 2"
      using sq [OF that] by (intro qint64_self order.trans [OF _ zero_le_power2]) simp_all
    ultimately show ?thesis by (simp add: power2_eq_square)
  qed
  have "foldl (\<lambda>t l. qint64 (t + qint64 (qint64 (?a - l) * qint64 (?a - l)))) 0 (answered h) =
      foldl (\<lambda>t l. qint64 (t + (?a - l) ^ 2)) 0 (answered h)"
    by (rule foldl_cong) (simp_all add: step)
  also have "\<dots> = v"
    using qint64_sum [of "answered h" "\<lambda>l. (?a - l) ^ 2" 0] v n(2) by (simp add: v_def)
  finally have "foldl (\<lambda>t l. qint64 (t + qint64 (qint64 (?a - l) * qint64 (?a - l)))) 0 (answered h) = v" .
  then have "stddev rnd h = word_of_int \<lfloor>sqrt (real_of_int v / real (length (answered h)))\<rfloor>"
    using n rounded_root [OF assms(1) v(2) n v(1)] by (simp add: stddev_def Let_def)
  moreover have "0 \<le> \<lfloor>sqrt (real_of_int v / real (length (answered h)))\<rfloor>"
     "\<lfloor>sqrt (real_of_int v / real (length (answered h)))\<rfloor> < 2 ^ 32"
  proof -
    let ?d = "\<lfloor>sqrt (real_of_int v / real (length (answered h)))\<rfloor>"
    show "0 \<le> ?d"
      using v(2) by simp
    have "?d ^ 2 * ?n < 2 ^ 40 * ?n"
      using floor_sqrt_bounds(1) [OF v(2) n(1), of ?d] v(1) by simp
    then have "?d ^ 2 < (2 ^ 20) ^ 2"
      using n(1) by simp
    then have "?d < 2 ^ 20"
      by (rule power_less_imp_less_base) simp
    then show "?d < 2 ^ 32"
      by simp
  qed
  ultimately show ?thesis
    by (simp add: uint_word_of_int)
qed

lemma foldl_updates:
  "n \<le> length xs \<Longrightarrow> foldl (\<lambda>d i. d[i := x]) xs [0..<n] = replicate n x @ drop n xs"
proof (induction n)
  case (Suc n)
  then show ?case
    by (simp add: list_update_append Cons_nth_drop_Suc [symmetric] replicate_append_same)
qed simp

lemma represents_start:
  "represents h hist \<Longrightarrow> represents (start qt isValid gateway device h) []"
  using foldl_updates [of PING_STATS_WINDOW "m_pingData h"]
  by (simp add: represents_def start_def Let_def ring_of_Nil PingSendData_default_def)

lemma run_rel_step:
  assumes "run_rel h s" and "\<not> stray e (snd s)"
  shows "\<exists>h'. ping_step qt isValid e h = Some h' \<and> run_rel h' (history_step e s)"
proof (cases e)
  case (Start gateway device)
  with assms(1) represents_start [of h "snd s"] show ?thesis
    by (cases s) (auto simp: run_rel_def start_def Let_def)
next
  case Stop
  with assms(1) show ?thesis
    by (cases s) (simp add: run_rel_def stop_def represents_def)
next
  case (Tick now)
  with assms(1) represents_nextPing [of h "snd s" now] show ?thesis
    by (cases s) (auto simp: run_rel_def nextPing_def)
next
  case (Received now sq)
  have "m_pingTimer (pingReceived now sq h) = m_pingTimer h" "m_pingSender (pingReceived now sq h) = m_pingSender h"
    by (simp_all add: pingReceived_def Let_def)
  moreover have "represents (pingReceived now sq h) (reply now sq (snd s))"
    by (rule represents_pingReceived) (use assms Received in \<open>auto simp: run_rel_def\<close>)
  ultimately show ?thesis
    using assms(1) Received by (cases s) (simp add: run_rel_def)
qed

lemma run_rel_run:
  assumes "run_rel h s" and "no_stray es s"
  shows "\<exists>h'. ping_run qt isValid es h = Some h' \<and> run_rel h' (history_run es s)"
  using assms
proof (induction es arbitrary: h s)
  case (Cons e es)
  then obtain h' where "ping_step qt isValid e h = Some h'" "run_rel h' (history_step e s)"
    using run_rel_step [of h s e qt isValid] by auto
  with Cons show ?case
    by (simp add: history_run_def)
qed (simp add: history_run_def)

lemma run_rel_new: "run_rel PingHelper_new (False, [])"
  by (simp add: run_rel_def represents_def PingHelper_new_def ring_of_Nil)

lemmas run_from_new = run_rel_run [OF run_rel_new]


text \<open>The pings of a history that count as lost.\<close>

definition lost :: "int \<Rightarrow> history \<Rightarrow> (int \<times> int) list" where
  "lost now hist = filter (\<lambda>(t, l). l < 0 \<and> 0 < t \<and> t < now - PING_TIMEOUT_SEC * 1000)
     (drop (length hist - PING_STATS_WINDOW) hist)"

lemma loss_represents:
  assumes "represents h hist"
  shows "loss now h = of_nat (length (lost now hist)) / of_nat PING_STATS_WINDOW"
proof -
  let ?P = "\<lambda>(t, l). l < 0 \<and> 0 < t \<and> t < now - PING_TIMEOUT_SEC * 1000"
  have "lost_ping (now - PING_TIMEOUT_SEC * 1000) = (\<lambda>d. ?P (timestamp d, latency d))"
    by (auto simp: lost_ping_def fun_eq_iff)
  then have "length (filter (lost_ping (now - PING_TIMEOUT_SEC * 1000)) (m_pingData h)) = length (lost now hist)"
    using arg_cong [OF represents_filter [OF assms, of ?P], of size]
    unfolding size_mset lost_def by simp
  then show ?thesis
    by (auto simp: loss_def Let_def)
qed


section \<open>Properties\<close>

text \<open>C5. Whatever is started, stopped, sent and answered, as long as no reply 0 arrives between a
  start and the first ping after it, the timer never fires without a sender, and the ring and the
  16-bit counter represent the list of all pings since the last start, although the counter wraps
  around: each slot holds the last ping that lies there, with the latency of its own reply.\<close>

theorem ping_refines_history:
  assumes "no_stray es (False, [])"
  shows "\<exists>h. ping_run qt isValid es PingHelper_new = Some h \<and>
    m_pingTimer h = fst (history_run es (False, [])) \<and> represents h (snd (history_run es (False, [])))"
  using run_from_new [OF assms, of qt isValid] by (auto simp: run_rel_def)

definition demo_qt :: host_address_text where
  "demo_qt = \<lparr>parseSubnet = \<lambda>_. (NullAddress, -1), parseAddress = \<lambda>_. NullAddress, printAddress = \<lambda>_. []\<rparr>"

definition demo_events :: "ping_event list" where
  "demo_events = [Start ''10.8.0.1'' ''10.8.0.2/32'', Tick 1000, Received 1040 0, Tick 2000, Received 2061 1,
     Received 2500 7, Tick 3000, Stop, Tick 4000]"

lemma demo_history: "history_run demo_events (False, []) = (False, [(1000, 40), (2000, 61), (3000, -1)])"
  by (simp add: demo_events_def history_run_def reply_def reply_index_def upt_rec)

lemma demo_no_stray: "no_stray demo_events (False, [])"
  by (simp add: demo_events_def reply_def reply_index_def upt_rec)

theorem ping_refines_history_witness:
  "\<exists>h. ping_run demo_qt (\<lambda>_. True) demo_events PingHelper_new = Some h \<and> \<not> m_pingTimer h \<and>
     represents h [(1000, 40), (2000, 61), (3000, -1)]"
  using ping_refines_history [OF demo_no_stray, of demo_qt "\<lambda>_. True"] by (simp add: demo_history)

text \<open>C20. The figures shown to the user are those of the last 32 pings, whatever the order in which the
  ring holds them: the maximum is the largest latency, the average is rounded to the nearest
  millisecond, and the deviation is the root of the mean square deviation from that average, rounded
  down. Without an answered ping all three are 0. Latencies are assumed to fit the 32 bits of the
  results, and, for the deviation, which is computed with doubles in any of the IEEE rounding modes,
  to be below 17 minutes (20 bits).\<close>

theorem ping_statistics:
  assumes "no_stray es (False, [])" and "ping_run qt isValid es PingHelper_new = Some h"
  defines "ls \<equiv> recent (snd (history_run es (False, [])))"
  assumes "list_all (\<lambda>l. l < 2 ^ 32 - 1) ls"
  defines "n \<equiv> int (length ls)" and "v \<equiv> sum_list (map (\<lambda>l. (uint (ping_latency h) - l) ^ 2) ls)"
  shows "uint (maximum h) = Max (insert 0 (set ls)) \<and>
    (if ls = [] then ping_latency h = 0 \<and> stddev rnd h = 0
     else 2 * \<bar>uint (ping_latency h) * n - sum_list ls\<bar> \<le> n \<and>
       (ieee_rounding rnd \<and> list_all (\<lambda>l. l < 2 ^ 20) ls \<longrightarrow>
         (uint (stddev rnd h)) ^ 2 * n \<le> v \<and> v < (uint (stddev rnd h) + 1) ^ 2 * n))"
proof -
  have rep: "represents h (snd (history_run es (False, [])))"
    using run_from_new [OF assms(1), of qt isValid] assms(2) by (simp add: run_rel_def)
  note same = answered_same [OF rep, folded ls_def]
  have bound: "0 \<le> l \<and> l < 2 ^ 32 - 1" if "l \<in> set (answered h)" for l
    using that assms(4) recent_nonneg same(3) by (auto simp: list_all_iff ls_def)
  have "length ls \<le> 32"
    unfolding ls_def recent_def by (rule order.trans [OF length_filter_le]) simp
  then have len: "length (answered h) \<le> 32"
    using same(1) by simp
  have "uint (maximum h) = Max (insert 0 (set ls))"
    unfolding maximum_def using maximum_foldl [of "answered h" 0] bound same(3) by simp
  moreover have "ping_latency h = 0 \<and> stddev rnd h = 0" if "ls = []"
    using that same(3) by (simp add: ping_latency_def stddev_def)
  moreover have "2 * \<bar>uint (ping_latency h) * n - sum_list ls\<bar> \<le> n \<and>
      (ieee_rounding rnd \<and> list_all (\<lambda>l. l < 2 ^ 20) ls \<longrightarrow>
        (uint (stddev rnd h)) ^ 2 * n \<le> v \<and> v < (uint (stddev rnd h) + 1) ^ 2 * n)" if "ls \<noteq> []"
  proof (intro conjI impI)
    have ne: "answered h \<noteq> []"
      using that same(3) by (metis set_empty)
    have n: "0 < n"
      using that by (simp add: n_def)
    have b: "l < 2 ^ 32" if "l \<in> set (answered h)" for l
      using bound [OF that] by simp
    show "2 * \<bar>uint (ping_latency h) * n - sum_list ls\<bar> \<le> n"
      using rounded_division [OF n, of "sum_list ls"] uint_ping_latency [OF ne b len] same(1,2)
      by (simp add: n_def)
    assume "ieee_rounding rnd \<and> list_all (\<lambda>l. l < 2 ^ 20) ls"
    then have r: "ieee_rounding rnd" and short: "\<And>l. l \<in> set (answered h) \<Longrightarrow> l < 2 ^ 20"
      using same(3) by (auto simp: list_all_iff)
    have "image_mset f (mset (answered h)) = image_mset f (mset ls)" for f :: "int \<Rightarrow> int"
      using answered_recent [OF rep] by (simp add: ls_def)
    then have "sum_list (map (\<lambda>l. (uint (ping_latency h) - l) ^ 2) (answered h)) = v"
      unfolding v_def by (metis (no_types) mset_map sum_mset_sum_list)
    then have sd: "uint (stddev rnd h) = \<lfloor>sqrt (real_of_int v / real_of_int n)\<rfloor>"
      using uint_stddev [OF r ne short len] same(1) by (simp add: n_def)
    have "0 \<le> v"
      unfolding v_def by (rule sum_list_nonneg) auto
    from floor_sqrt_bounds [OF this n sd]
    show "(uint (stddev rnd h)) ^ 2 * n \<le> v" "v < (uint (stddev rnd h) + 1) ^ 2 * n" .
  qed
  ultimately show ?thesis
    by simp
qed

lemma demo_recent: "recent (snd (history_run demo_events (False, []))) = [40, 61]"
  by (simp add: demo_history recent_def)

text \<open>Rounding towards zero, to 53 bits.\<close>

definition round_down :: "real \<Rightarrow> real" where
  "round_down x = (if x \<le> 0 then x
     else let u = 2 powr of_int (\<lfloor>log 2 x\<rfloor> - 52) in of_int \<lfloor>x / u\<rfloor> * u)"

lemma round_down_bounds:
  assumes "0 < x"
  shows "2 powr of_int \<lfloor>log 2 x\<rfloor> \<le> round_down x" and "round_down x \<le> x"
    and "x < 2 powr of_int (\<lfloor>log 2 x\<rfloor> + 1)"
proof -
  let ?E = "\<lfloor>log 2 x\<rfloor>"
  define u :: real where "u = 2 powr of_int (?E - 52)"
  have u: "0 < u" "2 powr of_int ?E = 2 ^ 52 * u"
    by (simp_all add: u_def powr_diff)
  have rd: "round_down x = of_int \<lfloor>x / u\<rfloor> * u"
    using assms by (simp add: round_down_def u_def Let_def)
  have "2 powr of_int ?E \<le> 2 powr (log 2 x)" "2 powr (log 2 x) < 2 powr of_int (?E + 1)"
    by (simp_all only: powr_le_cancel_iff powr_less_cancel_iff) linarith+
  then have x: "2 powr of_int ?E \<le> x" "x < 2 powr of_int (?E + 1)"
    using assms by simp_all
  from x(2) show "x < 2 powr of_int (?E + 1)" .
  have "of_int (2 ^ 52) \<le> x / u"
    using x(1) u by (simp add: field_simps)
  then have "2 ^ 52 \<le> \<lfloor>x / u\<rfloor>"
    by (simp only: le_floor_iff)
  then have "real_of_int (2 ^ 52) \<le> real_of_int \<lfloor>x / u\<rfloor>"
    by (simp only: of_int_le_iff)
  then show "2 powr of_int ?E \<le> round_down x"
    unfolding rd u(2) using u(1) by (intro mult_right_mono) simp_all
  have "real_of_int \<lfloor>x / u\<rfloor> * u \<le> (x / u) * u"
    using u(1) by (intro mult_right_mono) simp_all
  then show "round_down x \<le> x"
    using u(1) by (simp add: rd)
qed

lemma round_down_mono:
  assumes "0 \<le> x" and "x \<le> y"
  shows "round_down x \<le> round_down y"
proof (cases "x = 0")
  case True
  then show ?thesis
    using assms round_down_bounds(1) [of y] by (cases "y = 0") (auto simp: round_down_def intro: order.trans [OF powr_ge_zero])
next
  case False
  then have pos: "0 < x" "0 < y" using assms by simp_all
  have "\<lfloor>log 2 x\<rfloor> \<le> \<lfloor>log 2 y\<rfloor>"
    using pos assms(2) by (intro floor_mono) simp
  then consider "\<lfloor>log 2 x\<rfloor> = \<lfloor>log 2 y\<rfloor>" | "\<lfloor>log 2 x\<rfloor> + 1 \<le> \<lfloor>log 2 y\<rfloor>"
    by linarith
  then show ?thesis
  proof cases
    case 1
    then show ?thesis
      using pos assms(2) unfolding round_down_def Let_def
      by (auto intro!: mult_right_mono floor_mono divide_right_mono)
  next
    case 2
    then have "2 powr real_of_int (\<lfloor>log 2 x\<rfloor> + 1) \<le> 2 powr real_of_int \<lfloor>log 2 y\<rfloor>"
      by (simp only: powr_le_cancel_iff of_int_le_iff)
    with round_down_bounds(2,3) [OF pos(1)] round_down_bounds(1) [OF pos(2)] show ?thesis
      by linarith
  qed
qed

lemma round_down_exact:
  assumes "m \<le> 2 ^ 53"
  shows "round_down (real m / 2 ^ e) = real m / 2 ^ e"
proof (cases "m = 0")
  case False
  let ?x = "real m / 2 ^ e" and ?E = "\<lfloor>log 2 (real m / 2 ^ e)\<rfloor>"
  have x: "0 < ?x" using False by simp
  define u :: real where "u = 2 powr of_int (?E - 52)"
  have "2 powr of_int ?E \<le> ?x"
    using round_down_bounds(1,2) [OF x] by linarith
  then have "2 powr of_int (?E + int e) \<le> real m"
    by (simp add: powr_add powr_realpow field_simps)
  also have "\<dots> \<le> real (2 ^ 53)"
    using assms by (simp only: of_nat_le_iff)
  also have "\<dots> = 2 powr of_int 53"
    by simp
  finally have E: "?E + int e \<le> 53"
    by (simp only: powr_le_cancel_iff of_int_le_iff)
  have xu: "?x / u = real m * 2 powr of_int (52 - ?E - int e)"
    by (simp add: u_def powr_diff powr_realpow powr_add field_simps)
  have "\<exists>i. ?x / u = real_of_int i"
  proof (cases "?E + int e \<le> 52")
    case True
    then have "2 powr real_of_int (52 - ?E - int e) = real_of_int (2 ^ nat (52 - ?E - int e))"
      by (simp add: powr_realpow [symmetric])
    then show ?thesis
      unfolding xu by (metis of_int_mult of_int_of_nat_eq)
  next
    case False
    with E have eq: "?E + int e = 53" by linarith
    then have "2 powr of_int (?E + int e) = (2 :: real) ^ 53" by simp
    with \<open>2 powr of_int (?E + int e) \<le> real m\<close> have "real (2 ^ 53) \<le> real m" by simp
    then have "m = 2 ^ 53" using assms by (simp only: of_nat_le_iff)
    moreover have "52 - ?E - int e = - 1" using eq by linarith
    then have "2 powr real_of_int (52 - ?E - int e) = 1 / 2"
      by (simp only:) (simp add: powr_minus)
    ultimately have "?x / u = real_of_int (2 ^ 52)"
      unfolding xu by simp
    then show ?thesis ..
  qed
  then obtain i where i: "?x / u = real_of_int i" ..
  have "0 < u" by (simp add: u_def)
  then have "?x = real_of_int i * u" using i by (simp add: field_simps)
  moreover have "round_down ?x = real_of_int \<lfloor>?x / u\<rfloor> * u"
    using x by (simp add: round_down_def u_def Let_def)
  ultimately show ?thesis by (simp add: i)
qed (simp add: round_down_def)

lemma round_down_ieee: "ieee_rounding round_down"
  unfolding ieee_rounding_def using round_down_mono round_down_exact by blast

theorem ping_statistics_witness:
  "\<exists>h. ping_run demo_qt (\<lambda>_. True) demo_events PingHelper_new = Some h \<and>
     uint (maximum h) = 61 \<and> 2 * \<bar>uint (ping_latency h) * 2 - 101\<bar> \<le> 2 \<and>
     (uint (stddev round_down h)) ^ 2 * 2 \<le> (uint (ping_latency h) - 40) ^ 2 + (uint (ping_latency h) - 61) ^ 2"
proof -
  obtain h where h: "ping_run demo_qt (\<lambda>_. True) demo_events PingHelper_new = Some h"
    using run_from_new [OF demo_no_stray, of demo_qt "\<lambda>_. True"] by blast
  with ping_statistics [OF demo_no_stray h, of round_down] round_down_ieee show ?thesis
    by (simp add: demo_recent)
qed

text \<open>C21. The loss is the number of pings among the last 32 that were sent more than a second ago and are
  still unanswered, as a fraction of the window of 32, so it lies between 0 and 1; pings that may
  still be in flight do not count.\<close>

theorem ping_loss:
  assumes "no_stray es (False, [])" and "ping_run qt isValid es PingHelper_new = Some h"
  shows "loss now h = of_nat (length (lost now (snd (history_run es (False, []))))) / 32 \<and>
    0 \<le> loss now h \<and> loss now h \<le> 1"
proof -
  have "represents h (snd (history_run es (False, [])))"
    using run_from_new [OF assms(1), of qt isValid] assms(2) by (simp add: run_rel_def)
  then have "loss now h = of_nat (length (lost now (snd (history_run es (False, []))))) / 32"
    using loss_represents by simp
  moreover have "length (lost now (snd (history_run es (False, [])))) \<le> 32"
    unfolding lost_def by (rule order.trans [OF length_filter_le]) simp
  then have "(of_nat (length (lost now (snd (history_run es (False, []))))) :: rat) \<le> of_nat 32"
    by (rule of_nat_mono)
  ultimately show ?thesis
    by simp
qed

theorem ping_loss_witness:
  "\<exists>h. ping_run demo_qt (\<lambda>_. True) demo_events PingHelper_new = Some h \<and>
     loss 3900 h = 0 \<and> loss 4100 h = 1 / 32"
proof -
  obtain h where h: "ping_run demo_qt (\<lambda>_. True) demo_events PingHelper_new = Some h"
    using run_from_new [OF demo_no_stray, of demo_qt "\<lambda>_. True"] by blast
  with ping_loss [OF demo_no_stray h, of 3900] ping_loss [OF demo_no_stray h, of 4100] show ?thesis
    by (simp add: demo_history lost_def PING_TIMEOUT_SEC_def)
qed

text \<open>A reply 0 before the first ping matches the empty slot 0, and its latency is the time since the
  epoch: this is what the hypothesis of the properties above excludes.\<close>

lemma stray_reply_counted:
  "pingSentAndReceived (pingReceived 1700000000000 0 (start demo_qt (\<lambda>_. True) gateway device PingHelper_new)) =
    [1700000000001]"
  by (simp add: pingReceived_def start_def PingHelper_new_def ring_index_def Let_def upt_rec
      PingSendData_default_def)

end
