(* ===== verification/QrCodes.thy ===== *)
theory QrCodes
  imports Json "HOL-Library.Word"
begin

text \<open>
  A configuration as a series of QR codes: \<open>generateQrCodeImageSeries\<close> of
  \<open>client/ui/controllers/exportController.cpp\<close> cuts the bytes into pieces of 850 and gives each a
  header with the number of pieces and its own number; \<open>parseQrCodeChunk\<close> of
  \<open>client/ui/controllers/importController.cpp\<close> collects scanned pieces until all are there. The
  base64 coding, the drawing of a code, the JSON reader and the decompressor are parameters. The
  serialisation is that of \<open>QDataStream\<close>: big endian, a byte array with its length in front; reading
  past the end gives zeros and empty arrays.
\<close>

section \<open>Definitions\<close>

unbundle bit_operations_syntax

type_synonym bytes = "8 word list"

definition put_u16 :: "16 word \<Rightarrow> bytes" where
  "put_u16 w = [ucast (drop_bit 8 w), ucast w]"

definition put_u32 :: "32 word \<Rightarrow> bytes" where
  "put_u32 w = [ucast (drop_bit 24 w), ucast (drop_bit 16 w), ucast (drop_bit 8 w), ucast w]"

definition put_bytes :: "bytes \<Rightarrow> bytes" where
  "put_bytes ba = put_u32 (word_of_nat (length ba)) @ ba"

definition get_u8 :: "bytes \<Rightarrow> 8 word \<times> bytes" where
  "get_u8 s = (case s of b # r \<Rightarrow> (b, r) | [] \<Rightarrow> (0, []))"

definition get_u16 :: "bytes \<Rightarrow> 16 word \<times> bytes" where
  "get_u16 s = (case s of a # b # r \<Rightarrow> (push_bit 8 (ucast a) OR ucast b, r) | _ \<Rightarrow> (0, []))"

definition get_u32 :: "bytes \<Rightarrow> 32 word \<times> bytes" where
  "get_u32 s = (case s of a # b # c # d # r \<Rightarrow>
       (push_bit 24 (ucast a) OR push_bit 16 (ucast b) OR push_bit 8 (ucast c) OR ucast d, r)
     | _ \<Rightarrow> (0, []))"

text \<open>The length 0xFFFFFFFF stands for a null array.\<close>

definition get_bytes :: "bytes \<Rightarrow> bytes \<times> bytes" where
  "get_bytes s =
    (let (len, r) = get_u32 s
     in if len = 0xFFFFFFFF then ([], r)
        else if length r < unat len then ([], []) else (take (unat len) r, drop (unat len) r))"

definition qrMagicCode :: "16 word" where
  "qrMagicCode = 1984"

abbreviation qr_piece_size :: nat where
  "qr_piece_size \<equiv> 850"

definition chunksCount :: "bytes \<Rightarrow> 8 word" where
  "chunksCount data = word_of_int \<lceil>of_nat (length data) / (of_nat qr_piece_size :: rat)\<rceil>"

definition qr_chunk :: "bytes \<Rightarrow> nat \<Rightarrow> bytes" where
  "qr_chunk data i = put_u16 qrMagicCode @ [chunksCount data] @
     [word_of_int (round (of_nat i / (of_nat qr_piece_size :: rat)))] @
     put_bytes (take qr_piece_size (drop i data))"

function qr_loop :: "bytes \<Rightarrow> nat \<Rightarrow> bytes list" where
  "qr_loop data i = (if i < length data then qr_chunk data i # qr_loop data (i + qr_piece_size) else [])"
  by pat_completeness auto
termination
  by (relation "measure (\<lambda>(data, i). length data - i)") auto

declare qr_loop.simps [simp del]

definition generateQrCodeImageSeries :: "(bytes \<Rightarrow> string) \<Rightarrow> (string \<Rightarrow> string) \<Rightarrow> bytes \<Rightarrow> string list" where
  "generateQrCodeImageSeries toBase64 draw data = map (\<lambda>chunk. draw (toBase64 chunk)) (qr_loop data 0)"

record qr_import =
  m_config :: json_object
  m_qrCodeChunks :: "(int \<times> bytes) list"
  m_isQrCodeProcessed :: bool
  m_totalQrCodeChunksCount :: int
  m_receivedQrCodeChunksCount :: int
  qrDecodingFinished :: nat

definition extractConfigFromQr :: "(bytes \<Rightarrow> json) \<Rightarrow> (bytes \<Rightarrow> bytes) \<Rightarrow> bytes \<Rightarrow> qr_import \<Rightarrow> bool \<times> qr_import" where
  "extractConfigFromQr fromJson qUncompress data st =
    (let dataObj = json_toObject (fromJson data)
     in if dataObj \<noteq> [] then (True, st\<lparr>m_config := dataObj\<rparr>)
        else (let ba_uncompressed = qUncompress data
              in if ba_uncompressed \<noteq> [] then (True, st\<lparr>m_config := json_toObject (fromJson ba_uncompressed)\<rparr>)
                 else (False, st)))"

definition clear_chunks :: "qr_import \<Rightarrow> qr_import" where
  "clear_chunks st = st\<lparr>m_qrCodeChunks := [], m_totalQrCodeChunksCount := 0, m_receivedQrCodeChunksCount := 0\<rparr>"

definition startDecodingQr :: "bool \<Rightarrow> qr_import \<Rightarrow> qr_import" where
  "startDecodingQr ios st =
    (let st' = clear_chunks st in if ios then st'\<lparr>m_isQrCodeProcessed := True\<rparr> else st')"

definition stopDecodingQr :: "qr_import \<Rightarrow> qr_import" where
  "stopDecodingQr st = st\<lparr>qrDecodingFinished := qrDecodingFinished st + 1\<rparr>"

definition store_chunk :: "8 word \<Rightarrow> 8 word \<Rightarrow> bytes \<Rightarrow> qr_import \<Rightarrow> qr_import" where
  "store_chunk count chunkId ba st =
    (let old = (if m_totalQrCodeChunksCount st \<noteq> uint count then [] else m_qrCodeChunks st);
         chunks = AList.update (uint chunkId) ba old
     in st\<lparr>m_totalQrCodeChunksCount := uint count, m_qrCodeChunks := chunks,
           m_receivedQrCodeChunksCount := int (length chunks)\<rparr>)"

definition parseQrCodeChunk :: "(string \<Rightarrow> bytes) \<Rightarrow> (bytes \<Rightarrow> json) \<Rightarrow> (bytes \<Rightarrow> bytes) \<Rightarrow> string \<Rightarrow>
    qr_import \<Rightarrow> bool \<times> qr_import" where
  "parseQrCodeChunk fromBase64 fromJson qUncompress code st =
    (if \<not> m_isQrCodeProcessed st then (False, st)
     else
       let ba = fromBase64 code; (magic, s) = get_u16 ba
       in if magic = qrMagicCode then
            let (count, s) = get_u8 s; (chunkId, s) = get_u8 s; (chunk, _) = get_bytes s;
                st = store_chunk count chunkId chunk st
            in if int (length (m_qrCodeChunks st)) = m_totalQrCodeChunksCount st then
                 let data = concat (map (\<lambda>i. case map_of (m_qrCodeChunks st) i of None \<Rightarrow> [] | Some c \<Rightarrow> c)
                       [0..m_totalQrCodeChunksCount st - 1])
                 in case extractConfigFromQr fromJson qUncompress data st of (ok, st) \<Rightarrow>
                      if ok then (True, stopDecodingQr (st\<lparr>m_isQrCodeProcessed := False\<rparr>))
                      else (False, clear_chunks st)
               else (False, st)
          else
            case extractConfigFromQr fromJson qUncompress ba st of (ok, st) \<Rightarrow>
              if ok then (True, stopDecodingQr (st\<lparr>m_isQrCodeProcessed := False\<rparr>)) else (False, st))"

text \<open>The entry point on Android.\<close>

definition decodeQrCode :: "(string \<Rightarrow> bytes) \<Rightarrow> (bytes \<Rightarrow> json) \<Rightarrow> (bytes \<Rightarrow> bytes) \<Rightarrow> string \<Rightarrow>
    qr_import \<Rightarrow> bool \<times> qr_import" where
  "decodeQrCode fromBase64 fromJson qUncompress code st =
    parseQrCodeChunk fromBase64 fromJson qUncompress code
      (if \<not> m_isQrCodeProcessed st then (clear_chunks st)\<lparr>m_isQrCodeProcessed := True\<rparr> else st)"

section \<open>Serialisation\<close>

lemma put_get_u16 [simp]: "get_u16 (put_u16 w @ r) = (w, r)"
  by (simp add: put_u16_def get_u16_def)
    (rule bit_word_eqI, auto simp: bit_simps)

lemma put_get_u32 [simp]: "get_u32 (put_u32 w @ r) = (w, r)"
proof -
  have "push_bit 24 (ucast (ucast (drop_bit 24 w) :: 8 word)) OR push_bit 16 (ucast (ucast (drop_bit 16 w) :: 8 word)) OR
      push_bit 8 (ucast (ucast (drop_bit 8 w) :: 8 word)) OR ucast (ucast w :: 8 word) = w" (is "?v = w")
  proof (rule bit_word_eqI)
    fix n assume "n < LENGTH(32)"
    then consider "n < 8" | "8 \<le> n" "n < 16" | "16 \<le> n" "n < 24" | "24 \<le> n" "n < 32"
      by force
    then show "bit ?v n \<longleftrightarrow> bit w n"
      by cases (auto simp: bit_simps)
  qed
  then show ?thesis
    by (simp add: put_u32_def get_u32_def)
qed

lemma put_get_bytes [simp]:
  assumes "length ba < 2 ^ 32 - 1"
  shows "get_bytes (put_bytes ba @ r) = (ba, r)"
proof -
  have unat: "unat (word_of_nat (length ba) :: 32 word) = length ba"
    using assms by (simp add: unat_of_nat)
  have "(word_of_nat (length ba) :: 32 word) \<noteq> 0xFFFFFFFF"
  proof
    assume "(word_of_nat (length ba) :: 32 word) = 0xFFFFFFFF"
    with unat have "length ba = unat (0xFFFFFFFF :: 32 word)"
      by (simp only:)
    with assms show False
      by simp
  qed
  with unat show ?thesis
    by (simp add: put_bytes_def get_bytes_def)
qed

section \<open>Pieces\<close>

definition piece :: "bytes \<Rightarrow> nat \<Rightarrow> bytes" where
  "piece data j = take qr_piece_size (drop (qr_piece_size * j) data)"

definition pieces :: "bytes \<Rightarrow> nat" where
  "pieces data = (length data + qr_piece_size - 1) div qr_piece_size"

lemma pieces_bound: "j < pieces data \<longleftrightarrow> qr_piece_size * j < length data"
proof -
  have "j < pieces data \<longleftrightarrow> Suc j \<le> (length data + qr_piece_size - 1) div qr_piece_size"
    unfolding pieces_def by (rule Suc_le_eq [symmetric])
  also have "\<dots> \<longleftrightarrow> Suc j * qr_piece_size \<le> length data + qr_piece_size - 1"
    by (rule less_eq_div_iff_mult_less_eq) simp
  also have "\<dots> \<longleftrightarrow> qr_piece_size * j < length data"
    by simp linarith
  finally show ?thesis .
qed

lemma concat_pieces: "concat (map (piece data) [0..<n]) = take (qr_piece_size * n) data"
proof (induction n)
  case (Suc n)
  have "take (qr_piece_size * n + qr_piece_size) data = take (qr_piece_size * n) data @ piece data n"
    by (simp only: take_add piece_def)
  with Suc show ?case
    by (simp add: add.commute)
qed simp

lemma concat_all_pieces: "concat (map (piece data) [0..<pieces data]) = data"
  using pieces_bound [of "pieces data" data] by (simp add: concat_pieces)

lemma chunksCount_pieces: "chunksCount data = word_of_nat (pieces data)"
proof -
  have "\<lceil>of_nat (length data) / (850 :: rat)\<rceil> = int (pieces data)"
  proof (rule ceiling_unique)
    have "length data \<le> 850 * pieces data"
      using pieces_bound [of "pieces data" data] by simp
    then have "(of_nat (length data) :: rat) \<le> of_nat (850 * pieces data)"
      by (rule of_nat_mono)
    then show "of_nat (length data) / (850 :: rat) \<le> of_int (int (pieces data))"
      by (simp add: divide_le_eq mult.commute)
    have "\<not> Suc 0 \<le> pieces data \<or> 850 * (pieces data - 1) < length data"
      using pieces_bound [of "pieces data - 1" data] by auto
    then have "850 * pieces data < length data + 850"
      by arith
    then have "(of_nat (850 * pieces data) :: rat) < of_nat (length data + 850)"
      by (rule of_nat_less_iff [THEN iffD2])
    then show "of_int (int (pieces data)) - 1 < of_nat (length data) / (850 :: rat)"
      by (simp add: less_divide_eq field_simps)
  qed
  then show ?thesis
    by (simp add: chunksCount_def)
qed

lemma qr_loop_pieces:
  "qr_loop data (qr_piece_size * i) = map (\<lambda>j. qr_chunk data (qr_piece_size * j)) [i..<pieces data]"
proof (induction "pieces data - i" arbitrary: i)
  case 0
  then have "\<not> i < pieces data"
    by simp
  moreover from this have "\<not> qr_piece_size * i < length data"
    using pieces_bound by blast
  ultimately show ?case
    by (subst qr_loop.simps) simp
next
  case (Suc d)
  then have i: "i < pieces data"
    by simp
  have "qr_loop data (qr_piece_size * Suc i) = map (\<lambda>j. qr_chunk data (qr_piece_size * j)) [Suc i..<pieces data]"
    using Suc by (intro Suc(1)) simp
  with i show ?case
    by (subst qr_loop.simps) (simp add: pieces_bound upt_conv_Cons add.commute)
qed

lemma qr_chunk_piece:
  "qr_chunk data (qr_piece_size * j) =
     put_u16 qrMagicCode @ [word_of_nat (pieces data)] @ [word_of_nat j] @ put_bytes (piece data j)"
  by (simp add: qr_chunk_def chunksCount_pieces piece_def)

section \<open>Scanning\<close>

text \<open>The state after scanning the pieces with the numbers \<open>js\<close>, some of them perhaps more than once.\<close>

definition collected :: "bytes \<Rightarrow> nat set \<Rightarrow> qr_import \<Rightarrow> bool" where
  "collected data js st \<longleftrightarrow> m_isQrCodeProcessed st \<and>
     (m_totalQrCodeChunksCount st = int (pieces data) \<or> m_qrCodeChunks st = []) \<and>
     distinct (map fst (m_qrCodeChunks st)) \<and>
     map_of (m_qrCodeChunks st) = (\<lambda>i. if i \<in> int ` js then Some (piece data (nat i)) else None)"

lemma collected_card:
  assumes "collected data js st"
  shows "length (m_qrCodeChunks st) = card js"
proof -
  have "length (m_qrCodeChunks st) = card (dom (map_of (m_qrCodeChunks st)))"
    using assms by (metis collected_def distinct_card dom_map_of_conv_image_fst length_map set_map)
  also have "dom (map_of (m_qrCodeChunks st)) = int ` js"
    using assms by (auto simp: collected_def split: if_splits)
  finally show ?thesis
    by (simp add: card_image)
qed

lemma collected_store:
  assumes "collected data js st" and "j < pieces data" and "pieces data \<le> 255"
  defines "st' \<equiv> store_chunk (word_of_nat (pieces data)) (word_of_nat j) (piece data j) st"
  shows "collected data (insert j js) st'" and "m_totalQrCodeChunksCount st' = int (pieces data)"
    and "m_config st' = m_config st"
proof -
  have small: "uint (word_of_nat (pieces data) :: 8 word) = int (pieces data)"
    "uint (word_of_nat j :: 8 word) = int j"
    using assms(2,3) by (simp_all add: uint_nat unat_of_nat)
  have old: "(if m_totalQrCodeChunksCount st \<noteq> int (pieces data) then [] else m_qrCodeChunks st) = m_qrCodeChunks st"
    using assms(1) by (auto simp: collected_def)
  show "collected data (insert j js) st'"
    using assms(1) unfolding st'_def store_chunk_def small old Let_def
    by (simp add: collected_def distinct_update update_conv' fun_eq_iff)
  show "m_totalQrCodeChunksCount st' = int (pieces data)" "m_config st' = m_config st"
    by (simp_all add: st'_def store_chunk_def Let_def small)
qed

lemma upto_map_int: "[0..int n - 1] = map int [0..<n]"
  by (induction n) (simp_all add: upto_rec2 [of 0 "int _"])

lemma collected_all:
  assumes "collected data {..<pieces data} st"
  shows "concat (map (\<lambda>i. case map_of (m_qrCodeChunks st) i of None \<Rightarrow> [] | Some c \<Rightarrow> c)
    [0..int (pieces data) - 1]) = data"
proof -
  have "(case map_of (m_qrCodeChunks st) (int j) of None \<Rightarrow> [] | Some c \<Rightarrow> c) = piece data j"
    if "j < pieces data" for j
    using assms that by (simp add: collected_def)
  then have "map (\<lambda>i. case map_of (m_qrCodeChunks st) i of None \<Rightarrow> [] | Some c \<Rightarrow> c) [0..int (pieces data) - 1] =
      map (piece data) [0..<pieces data]"
    unfolding upto_map_int by simp
  then show ?thesis
    using concat_all_pieces by (simp only:)
qed

definition qr_code :: "(bytes \<Rightarrow> string) \<Rightarrow> bytes \<Rightarrow> nat \<Rightarrow> string" where
  "qr_code toBase64 data j = toBase64 (qr_loop data 0 ! j)"

lemma parse_piece:
  assumes "\<And>ba. fromBase64 (toBase64 ba) = ba" and "collected data js st"
    and "j < pieces data" and "pieces data \<le> 255"
  defines "st' \<equiv> store_chunk (word_of_nat (pieces data)) (word_of_nat j) (piece data j) st"
  shows "parseQrCodeChunk fromBase64 fromJson qUncompress (qr_code toBase64 data j) st =
    (if card (insert j js) = pieces data then
       (case extractConfigFromQr fromJson qUncompress
           (concat (map (\<lambda>i. case map_of (m_qrCodeChunks st') i of None \<Rightarrow> [] | Some c \<Rightarrow> c)
             [0..int (pieces data) - 1])) st' of (ok, st) \<Rightarrow>
          if ok then (True, stopDecodingQr (st\<lparr>m_isQrCodeProcessed := False\<rparr>)) else (False, clear_chunks st))
     else (False, st'))"
proof -
  have len: "length (piece data j) < 2 ^ 32 - 1"
    by (rule le_less_trans [of _ qr_piece_size]) (simp_all add: piece_def)
  have code: "fromBase64 (qr_code toBase64 data j) =
      put_u16 qrMagicCode @ word_of_nat (pieces data) # word_of_nat j # put_bytes (piece data j)"
    using assms(3) qr_loop_pieces [of data 0] by (simp add: qr_code_def assms(1) qr_chunk_piece)
  note stored = collected_store [OF assms(2-4), folded st'_def]
  have "m_isQrCodeProcessed st"
    using assms(2) by (simp add: collected_def)
  moreover have "length (m_qrCodeChunks st') = card (insert j js)"
    by (rule collected_card [OF stored(1)])
  moreover have "get_bytes (put_bytes (piece data j)) = (piece data j, [])"
    using put_get_bytes [OF len, of "[]"] by simp
  ultimately show ?thesis
    unfolding parseQrCodeChunk_def code
    by (simp add: get_u8_def Let_def st'_def [symmetric] stored(2))
qed

fun scan_all :: "(string \<Rightarrow> qr_import \<Rightarrow> bool \<times> qr_import) \<Rightarrow> string list \<Rightarrow> qr_import \<Rightarrow> qr_import" where
  "scan_all scan [] st = st"
| "scan_all scan (code # codes) st = scan_all scan codes (snd (scan code st))"

lemma scan_incomplete:
  assumes "\<And>ba. fromBase64 (toBase64 ba) = ba" and "pieces data \<le> 255"
    and "collected data js0 st" and "js0 \<union> set js \<subset> {..<pieces data}"
  shows "collected data (js0 \<union> set js)
      (scan_all (parseQrCodeChunk fromBase64 fromJson qUncompress) (map (qr_code toBase64 data) js) st) \<and>
    m_config (scan_all (parseQrCodeChunk fromBase64 fromJson qUncompress) (map (qr_code toBase64 data) js) st) =
      m_config st"
  using assms(3,4)
proof (induction js arbitrary: js0 st)
  case (Cons j js)
  let ?scan = "parseQrCodeChunk fromBase64 fromJson qUncompress"
  let ?st = "store_chunk (word_of_nat (pieces data)) (word_of_nat j) (piece data j) st"
  have j: "j < pieces data" and less: "insert j js0 \<subset> {..<pieces data}"
    using Cons.prems(2) by auto
  then have "card (insert j js0) < pieces data"
    using psubset_card_mono [of "{..<pieces data}" "insert j js0"] by simp
  then have "?scan (qr_code toBase64 data j) st = (False, ?st)"
    using parse_piece [OF assms(1) Cons.prems(1) j assms(2)] by simp
  moreover note collected_store [OF Cons.prems(1) j assms(2)]
  moreover have "insert j js0 \<union> set js \<subset> {..<pieces data}"
    using Cons.prems(2) by simp
  ultimately show ?case
    using Cons.IH [of "insert j js0" ?st] by simp
qed simp

lemma extract_independent:
  "fst (extractConfigFromQr fromJson qUncompress data st) = fst (extractConfigFromQr fromJson qUncompress data st')"
  "m_config st = m_config st' \<Longrightarrow>
   m_config (snd (extractConfigFromQr fromJson qUncompress data st)) =
   m_config (snd (extractConfigFromQr fromJson qUncompress data st'))"
  by (simp_all add: extractConfigFromQr_def Let_def)

lemma series_length: "length (generateQrCodeImageSeries toBase64 draw data) = pieces data"
  using qr_loop_pieces [of data 0] by (simp add: generateQrCodeImageSeries_def)

lemma series_nth:
  assumes "\<And>t. read (draw t) = t" and "j < pieces data"
  shows "read (generateQrCodeImageSeries toBase64 draw data ! j) = qr_code toBase64 data j"
  using assms(2) qr_loop_pieces [of data 0] by (simp add: generateQrCodeImageSeries_def qr_code_def assms(1))

section \<open>Properties\<close>

text \<open>
  C26. A configuration of up to 255 pieces goes through QR codes unchanged: the codes of a series may be
  scanned in any order and any of them several times. As long as one is missing nothing is
  imported, and with the last missing one the importer extracts the configuration from exactly the
  bytes that were exported. Base64 and the codes themselves are assumed to be read as written.
\<close>

theorem qr_series_roundtrip:
  fixes fromJson :: "bytes \<Rightarrow> json" and qUncompress :: "bytes \<Rightarrow> bytes"
  assumes "\<And>ba. fromBase64 (toBase64 ba) = ba" and "\<And>t. read (draw t) = t"
    and "length data \<le> 255 * 850"
    and "m_isQrCodeProcessed st" and "m_qrCodeChunks st = []"
  defines "codes \<equiv> map read (generateQrCodeImageSeries toBase64 draw data)"
    and "scan \<equiv> parseQrCodeChunk fromBase64 fromJson qUncompress"
  assumes "set js \<subset> {..<length codes}" and "insert j (set js) = {..<length codes}"
  defines "before \<equiv> scan_all scan (map ((!) codes) js) st"
  shows "m_config before = m_config st \<and>
    fst (scan (codes ! j) before) = fst (extractConfigFromQr fromJson qUncompress data st) \<and>
    m_config (snd (scan (codes ! j) before)) = m_config (snd (extractConfigFromQr fromJson qUncompress data st))"
proof -
  have len: "length codes = pieces data"
    by (simp add: codes_def series_length)
  have few: "pieces data \<le> 255"
    using assms(3) pieces_bound [of 255 data] by simp
  have nth: "codes ! i = qr_code toBase64 data i" if "i < pieces data" for i
    using that series_nth [of read draw i data toBase64, OF assms(2) that] by (simp add: codes_def series_length)
  have j: "j < pieces data" and all: "insert j (set js) = {..<pieces data}"
    using assms(9) len by auto
  have "map ((!) codes) js = map (qr_code toBase64 data) js"
    using assms(8) nth by (auto simp: len)
  then have eq: "before = scan_all scan (map (qr_code toBase64 data) js) st"
    unfolding before_def by (simp only:)
  have "collected data {} st"
    using assms(4,5) by (simp add: collected_def)
  then have before: "collected data (set js) before" "m_config before = m_config st"
    unfolding eq scan_def
    using scan_incomplete [OF assms(1) few, of "{}" st js fromJson qUncompress] assms(8) by (simp_all add: len)
  let ?st = "store_chunk (word_of_nat (pieces data)) (word_of_nat j) (piece data j) before"
  have "scan (codes ! j) before =
      (case extractConfigFromQr fromJson qUncompress data ?st of (ok, st) \<Rightarrow>
         if ok then (True, stopDecodingQr (st\<lparr>m_isQrCodeProcessed := False\<rparr>)) else (False, clear_chunks st))"
    unfolding scan_def nth [OF j] parse_piece [OF assms(1) before(1) j few]
    using collected_all [of data ?st] collected_store(1) [OF before(1) j few] by (simp add: all)
  then have "fst (scan (codes ! j) before) = fst (extractConfigFromQr fromJson qUncompress data ?st) \<and>
      m_config (snd (scan (codes ! j) before)) = m_config (snd (extractConfigFromQr fromJson qUncompress data ?st))"
    by (simp add: stopDecodingQr_def clear_chunks_def split: prod.split)
  then show ?thesis
    using extract_independent [where fromJson = fromJson and qUncompress = qUncompress and data = data
        and st = ?st and st' = st] collected_store(3) [OF before(1) j few] before(2)
    by simp
qed

definition demo_toBase64 :: "bytes \<Rightarrow> string" where
  "demo_toBase64 ba = map (\<lambda>b. char_of (unat b)) ba"

definition demo_fromBase64 :: "string \<Rightarrow> bytes" where
  "demo_fromBase64 s = map (\<lambda>c. word_of_nat (of_char c)) s"

lemma demo_base64: "demo_fromBase64 (demo_toBase64 ba) = ba"
proof -
  have "(of_char (char_of (unat b)) :: nat) = unat b" for b :: "8 word"
    using unsigned_less [of b, where 'a = nat] by (simp add: take_bit_eq_mod)
  then show ?thesis
    by (simp add: demo_fromBase64_def demo_toBase64_def map_idI)
qed

definition demo_fromJson :: "bytes \<Rightarrow> json" where
  "demo_fromJson ba = JObject [(''size'', JDouble (of_nat (length ba)))]"

definition demo_import :: qr_import where
  "demo_import = \<lparr>m_config = [], m_qrCodeChunks = [], m_isQrCodeProcessed = True,
     m_totalQrCodeChunksCount = 0, m_receivedQrCodeChunksCount = 0, qrDecodingFinished = 0\<rparr>"

definition demo_bytes :: bytes where
  "demo_bytes = replicate 851 1"

theorem qr_series_roundtrip_witness:
  fixes codes scan
  defines "codes \<equiv> map (\<lambda>t. t) (generateQrCodeImageSeries demo_toBase64 (\<lambda>t. t) demo_bytes)"
    and "scan \<equiv> parseQrCodeChunk demo_fromBase64 demo_fromJson (\<lambda>ba. ba)"
  shows "m_config (snd (scan (codes ! 0) (scan_all scan (map ((!) codes) [1, 1]) demo_import))) =
    [(''size'', JDouble 851)]"
proof -
  have bytes: "length demo_bytes = 851"
    unfolding demo_bytes_def by (rule length_replicate)
  then have len: "length codes = 2"
    by (simp add: codes_def series_length pieces_def)
  have two: "{..<2 :: nat} = {0, 1}"
    by auto
  have js: "set [1, 1 :: nat] \<subset> {..<length codes}" "insert 0 (set [1, 1 :: nat]) = {..<length codes}"
    unfolding len two by (simp_all add: psubset_eq)
  have fresh: "m_isQrCodeProcessed demo_import" "m_qrCodeChunks demo_import = []"
    by (simp_all add: demo_import_def)
  have "length demo_bytes \<le> 255 * 850"
    unfolding bytes by simp
  from qr_series_roundtrip [of demo_fromBase64 demo_toBase64 "\<lambda>t. t" "\<lambda>t. t" demo_bytes demo_import "[1, 1]" 0
      demo_fromJson "\<lambda>ba. ba", OF demo_base64 refl this fresh, folded codes_def scan_def, OF js]
  have "m_config (snd (scan (codes ! 0) (scan_all scan (map ((!) codes) [1, 1]) demo_import))) =
      m_config (snd (extractConfigFromQr demo_fromJson (\<lambda>ba. ba) demo_bytes demo_import))"
    by (simp only:)
  also have "\<dots> = [(''size'', JDouble 851)]"
    by (simp add: extractConfigFromQr_def demo_fromJson_def bytes)
  finally show ?thesis .
qed

end
