(* ===== verification/Containers.thy ===== *)
theory Containers
  imports Json
begin

text \<open>
  The kinds of protocols and of Docker containers: \<open>client/protocols/protocols_defs.cpp\<close> and
  \<open>client/containers/containers_defs.cpp\<close>. The enumerations of the code are datatypes, with a prefix
  for the names that several of them share; the name that \<open>QMetaEnum::valueToKey\<close> gives a value is a
  function. The texts shown to the user are left out.
\<close>

section \<open>Protocols\<close>

datatype TransportProto = Udp | Tcp | TcpAndUdp

datatype Proto = P_Any | P_OpenVpn | P_ShadowSocks | P_Cloak | P_WireGuard | P_Awg | P_Ikev2 | P_L2tp
  | P_Xray | P_SSXray | P_TorWebSite | P_Dns | P_Sftp | P_Socks5Proxy

datatype ServiceType = S_None | S_Vpn | S_Other

fun proto_key :: "Proto \<Rightarrow> string" where
  "proto_key P_Any = ''Any''"
| "proto_key P_OpenVpn = ''OpenVpn''"
| "proto_key P_ShadowSocks = ''ShadowSocks''"
| "proto_key P_Cloak = ''Cloak''"
| "proto_key P_WireGuard = ''WireGuard''"
| "proto_key P_Awg = ''Awg''"
| "proto_key P_Ikev2 = ''Ikev2''"
| "proto_key P_L2tp = ''L2tp''"
| "proto_key P_Xray = ''Xray''"
| "proto_key P_SSXray = ''SSXray''"
| "proto_key P_TorWebSite = ''TorWebSite''"
| "proto_key P_Dns = ''Dns''"
| "proto_key P_Sftp = ''Sftp''"
| "proto_key P_Socks5Proxy = ''Socks5Proxy''"

definition allProtocols :: "Proto list" where
  "allProtocols = [P_Any, P_OpenVpn, P_ShadowSocks, P_Cloak, P_WireGuard, P_Awg, P_Ikev2, P_L2tp,
     P_Xray, P_SSXray, P_TorWebSite, P_Dns, P_Sftp, P_Socks5Proxy]"

definition protoToString :: "Proto \<Rightarrow> string" where
  "protoToString p = (if p = P_Any then [] else toLower (proto_key p))"

definition protoFromString :: "string \<Rightarrow> Proto" where
  "protoFromString proto = (case find (\<lambda>p. proto = protoToString p) allProtocols of
     Some p \<Rightarrow> p | None \<Rightarrow> P_Any)"

fun transport_key :: "TransportProto \<Rightarrow> string" where
  "transport_key Udp = ''Udp''"
| "transport_key Tcp = ''Tcp''"
| "transport_key TcpAndUdp = ''TcpAndUdp''"

definition transportProtoToString :: "TransportProto \<Rightarrow> string" where
  "transportProtoToString proto = toLower (transport_key proto)"

definition transportProtoFromString :: "string \<Rightarrow> TransportProto" where
  "transportProtoFromString p =
    (case find (\<lambda>tp. toLower p = toLower (transportProtoToString tp)) [Udp, Tcp, TcpAndUdp] of
       Some tp \<Rightarrow> tp | None \<Rightarrow> Udp)"

fun protocolService :: "Proto \<Rightarrow> ServiceType" where
  "protocolService P_Any = S_None"
| "protocolService P_SSXray = S_None"
| "protocolService P_OpenVpn = S_Vpn"
| "protocolService P_Cloak = S_Vpn"
| "protocolService P_ShadowSocks = S_Vpn"
| "protocolService P_WireGuard = S_Vpn"
| "protocolService P_Awg = S_Vpn"
| "protocolService P_Ikev2 = S_Vpn"
| "protocolService P_Xray = S_Vpn"
| "protocolService _ = S_Other"

fun defaultPort :: "Proto \<Rightarrow> int" where
  "defaultPort P_OpenVpn = toInt ''1194''"
| "defaultPort P_Cloak = toInt ''443''"
| "defaultPort P_ShadowSocks = toInt ''6789''"
| "defaultPort P_WireGuard = toInt ''51820''"
| "defaultPort P_Awg = toInt ''55424''"
| "defaultPort P_Xray = toInt ''443''"
| "defaultPort P_Dns = 53"
| "defaultPort P_Sftp = 222"
| "defaultPort P_Socks5Proxy = 38080"
| "defaultPort _ = -1"

text \<open>\<open>random\<close> is the number drawn from 30000 up to, but not including, 50000.\<close>

definition getPortForInstall :: "int \<Rightarrow> Proto \<Rightarrow> int" where
  "getPortForInstall random p =
    (if p \<in> set [P_Awg, P_WireGuard, P_ShadowSocks, P_OpenVpn, P_Socks5Proxy] then random else defaultPort p)"

definition defaultPortChangeable :: "Proto \<Rightarrow> bool" where
  "defaultPortChangeable p \<longleftrightarrow>
     p \<in> set [P_OpenVpn, P_Cloak, P_ShadowSocks, P_WireGuard, P_Awg, P_Xray, P_Sftp, P_Socks5Proxy]"

text \<open>The switch has no case for \<open>SSXray\<close> and no default: control reaches the end of the function.\<close>

fun defaultTransportProto :: "Proto \<Rightarrow> TransportProto option" where
  "defaultTransportProto P_Any = Some Udp"
| "defaultTransportProto P_OpenVpn = Some Udp"
| "defaultTransportProto P_Cloak = Some Tcp"
| "defaultTransportProto P_ShadowSocks = Some TcpAndUdp"
| "defaultTransportProto P_WireGuard = Some Udp"
| "defaultTransportProto P_Awg = Some Udp"
| "defaultTransportProto P_Ikev2 = Some Udp"
| "defaultTransportProto P_L2tp = Some Udp"
| "defaultTransportProto P_Xray = Some Tcp"
| "defaultTransportProto P_TorWebSite = Some Tcp"
| "defaultTransportProto P_Dns = Some Udp"
| "defaultTransportProto P_Sftp = Some Tcp"
| "defaultTransportProto P_Socks5Proxy = Some Tcp"
| "defaultTransportProto P_SSXray = None"

definition defaultTransportProtoChangeable :: "Proto \<Rightarrow> bool" where
  "defaultTransportProtoChangeable p \<longleftrightarrow> p = P_OpenVpn"

definition key_proto_config_data :: "Proto \<Rightarrow> string" where
  "key_proto_config_data p = protoToString p @ ''_config_data''"

definition key_proto_config_path :: "Proto \<Rightarrow> string" where
  "key_proto_config_path p = protoToString p @ ''_config_path''"

section \<open>Containers\<close>

datatype DockerContainer = C_None | C_Awg | C_WireGuard | C_OpenVpn | C_Cloak | C_ShadowSocks | C_Ipsec
  | C_Xray | C_SSXray | C_TorWebSite | C_Dns | C_Sftp | C_Socks5Proxy

fun container_key :: "DockerContainer \<Rightarrow> string" where
  "container_key C_None = ''None''"
| "container_key C_Awg = ''Awg''"
| "container_key C_WireGuard = ''WireGuard''"
| "container_key C_OpenVpn = ''OpenVpn''"
| "container_key C_Cloak = ''Cloak''"
| "container_key C_ShadowSocks = ''ShadowSocks''"
| "container_key C_Ipsec = ''Ipsec''"
| "container_key C_Xray = ''Xray''"
| "container_key C_SSXray = ''SSXray''"
| "container_key C_TorWebSite = ''TorWebSite''"
| "container_key C_Dns = ''Dns''"
| "container_key C_Sftp = ''Sftp''"
| "container_key C_Socks5Proxy = ''Socks5Proxy''"

definition allContainers :: "DockerContainer list" where
  "allContainers = [C_None, C_Awg, C_WireGuard, C_OpenVpn, C_Cloak, C_ShadowSocks, C_Ipsec, C_Xray,
     C_SSXray, C_TorWebSite, C_Dns, C_Sftp, C_Socks5Proxy]"

definition containerToString :: "DockerContainer \<Rightarrow> string" where
  "containerToString c =
    (if c = C_None then ''none''
     else if c = C_Cloak then ''amnezia-openvpn-cloak''
     else ''amnezia-'' @ toLower (container_key c))"

definition containerFromString :: "string \<Rightarrow> DockerContainer" where
  "containerFromString container = (case find (\<lambda>c. container = containerToString c) allContainers of
     Some c \<Rightarrow> c | None \<Rightarrow> C_None)"

definition containerTypeToString :: "DockerContainer \<Rightarrow> string" where
  "containerTypeToString c =
    (if c = C_None then ''none'' else if c = C_Ipsec then ''ikev2'' else toLower (container_key c))"

fun defaultProtocol :: "DockerContainer \<Rightarrow> Proto" where
  "defaultProtocol C_None = P_Any"
| "defaultProtocol C_OpenVpn = P_OpenVpn"
| "defaultProtocol C_Cloak = P_Cloak"
| "defaultProtocol C_ShadowSocks = P_ShadowSocks"
| "defaultProtocol C_WireGuard = P_WireGuard"
| "defaultProtocol C_Awg = P_Awg"
| "defaultProtocol C_Xray = P_Xray"
| "defaultProtocol C_Ipsec = P_Ikev2"
| "defaultProtocol C_SSXray = P_SSXray"
| "defaultProtocol C_TorWebSite = P_TorWebSite"
| "defaultProtocol C_Dns = P_Dns"
| "defaultProtocol C_Sftp = P_Sftp"
| "defaultProtocol C_Socks5Proxy = P_Socks5Proxy"

fun protocolsForContainer :: "DockerContainer \<Rightarrow> Proto list" where
  "protocolsForContainer C_None = []"
| "protocolsForContainer C_OpenVpn = [P_OpenVpn]"
| "protocolsForContainer C_ShadowSocks = [P_OpenVpn, P_ShadowSocks]"
| "protocolsForContainer C_Cloak = [P_OpenVpn, P_ShadowSocks, P_Cloak]"
| "protocolsForContainer C_Ipsec = [P_Ikev2]"
| "protocolsForContainer C_Xray = [P_Xray]"
| "protocolsForContainer C_SSXray = [P_SSXray]"
| "protocolsForContainer C_Dns = [P_Dns]"
| "protocolsForContainer C_Sftp = [P_Sftp]"
| "protocolsForContainer C_Socks5Proxy = [P_Socks5Proxy]"
| "protocolsForContainer container = [defaultProtocol container]"

definition containerService :: "DockerContainer \<Rightarrow> ServiceType" where
  "containerService c = protocolService (defaultProtocol c)"

datatype client_os = Windows | IOS | Mac | Android | Linux | OtherOS

fun isSupportedByCurrentPlatform :: "client_os \<Rightarrow> DockerContainer \<Rightarrow> bool" where
  "isSupportedByCurrentPlatform Windows c \<longleftrightarrow> True"
| "isSupportedByCurrentPlatform IOS c \<longleftrightarrow> c \<in> set [C_WireGuard, C_OpenVpn, C_Awg, C_Xray, C_Cloak, C_SSXray]"
| "isSupportedByCurrentPlatform Mac c \<longleftrightarrow> c \<noteq> C_Ipsec"
| "isSupportedByCurrentPlatform Android c \<longleftrightarrow>
     c \<in> set [C_WireGuard, C_OpenVpn, C_Awg, C_Cloak, C_Xray, C_SSXray]"
| "isSupportedByCurrentPlatform Linux c \<longleftrightarrow> c \<noteq> C_Ipsec"
| "isSupportedByCurrentPlatform OtherOS c \<longleftrightarrow> False"

definition isShareable :: "DockerContainer \<Rightarrow> bool" where
  "isShareable container \<longleftrightarrow> container \<notin> set [C_TorWebSite, C_Dns, C_Sftp, C_Socks5Proxy]"

definition fixedPortsForContainer :: "DockerContainer \<Rightarrow> string list" where
  "fixedPortsForContainer c = (if c = C_Ipsec then [''500'', ''4500''] else [])"

definition isEasySetupContainer :: "DockerContainer \<Rightarrow> bool" where
  "isEasySetupContainer container \<longleftrightarrow> container \<in> set [C_WireGuard, C_Awg]"

fun easySetupOrder :: "DockerContainer \<Rightarrow> int" where
  "easySetupOrder C_WireGuard = 3"
| "easySetupOrder C_Awg = 2"
| "easySetupOrder _ = 0"

fun installPageOrder :: "DockerContainer \<Rightarrow> int" where
  "installPageOrder C_OpenVpn = 4"
| "installPageOrder C_Cloak = 5"
| "installPageOrder C_ShadowSocks = 6"
| "installPageOrder C_WireGuard = 2"
| "installPageOrder C_Awg = 1"
| "installPageOrder C_Xray = 3"
| "installPageOrder C_Ipsec = 7"
| "installPageOrder C_SSXray = 8"
| "installPageOrder _ = 0"

definition getProtocolConfigFromContainer :: "(string \<Rightarrow> json) \<Rightarrow> Proto \<Rightarrow> json_object \<Rightarrow> json_object" where
  "getProtocolConfigFromContainer fromJson protocol containerConfig =
    json_toObject (fromJson (qs_text (json_toString (json_value
      (json_toObject (json_value containerConfig (protoToString protocol))) ''last_config''))))"

section \<open>Names\<close>

text \<open>An enumeration whose values have names, and a search through all values that reads a name.\<close>

locale named_values =
  fixes all :: "'e list" and name :: "'e \<Rightarrow> string" and read :: "string \<Rightarrow> 'e" and other :: 'e
  assumes all: "e \<in> set all" and names: "distinct (map name all)"
    and read: "read s = (case find (\<lambda>e. s = name e) all of Some e \<Rightarrow> e | None \<Rightarrow> other)"
begin

lemma name_inject: "name e = name e' \<longleftrightarrow> e = e'"
  using names all by (metis distinct_map inj_onD)

lemma read_name: "read (name e) = e"
proof (cases "find (\<lambda>e'. name e = name e') all")
  case None
  then show ?thesis
    using all by (auto simp: find_None_iff)
next
  case (Some e')
  then have "name e = name e'"
    by (auto simp: find_Some_iff)
  with Some show ?thesis
    by (simp add: read name_inject)
qed

lemma read_other: "s \<notin> range name \<Longrightarrow> read s = other"
proof -
  assume "s \<notin> range name"
  then have "find (\<lambda>e. s = name e) all = None"
    by (auto simp: find_None_iff)
  then show ?thesis
    by (simp add: read)
qed

lemma read_iff: "read s = e \<longleftrightarrow> s = name e \<or> s \<notin> range name \<and> e = other"
  using read_other by (cases "s \<in> range name") (auto simp: read_name)

end

lemmas name_eval = toLower_def lower_char_def containerToString_def protoToString_def
  transportProtoToString_def allContainers_def allProtocols_def

interpretation container_names: named_values allContainers containerToString containerFromString C_None
proof unfold_locales
  show "e \<in> set allContainers" for e
    by (cases e) (simp_all add: allContainers_def)
qed (simp_all add: containerFromString_def, simp add: name_eval)

interpretation proto_names: named_values allProtocols protoToString protoFromString P_Any
proof unfold_locales
  show "e \<in> set allProtocols" for e
    by (cases e) (simp_all add: allProtocols_def)
qed (simp_all add: protoFromString_def, simp add: name_eval)

section \<open>Properties\<close>

lemma container_type_name: "c \<noteq> C_None \<Longrightarrow> containerTypeToString c = protoToString (defaultProtocol c)"
  by (cases c) (simp_all add: containerTypeToString_def name_eval char_of_def bit_0)

lemma default_protocol_listed: "c \<noteq> C_None \<Longrightarrow> defaultProtocol c \<in> set (protocolsForContainer c)"
  by (cases c) simp_all

lemma transport_names: "transportProtoFromString (transportProtoToString t) = t"
  by (cases t) (simp_all add: transportProtoFromString_def name_eval)

lemma transport_of_default_protocol:
  "defaultTransportProto (defaultProtocol c) = None \<longleftrightarrow> c = C_SSXray"
  by (cases c) simp_all

text \<open>
  C29. The names under which containers and protocols are stored read back as what they name, other
  names read as no container and no protocol, and the two sets of names fit together: a container
  has its main protocol among its protocols, and the type name under which its settings are stored
  is the name of that protocol.
\<close>

theorem names_roundtrip:
  "containerFromString (containerToString c) = c \<and> protoFromString (protoToString p) = p \<and>
   transportProtoFromString (transportProtoToString t) = t \<and>
   (s \<notin> range containerToString \<longrightarrow> containerFromString s = C_None) \<and>
   (s \<notin> range protoToString \<longrightarrow> protoFromString s = P_Any) \<and>
   (c \<noteq> C_None \<longrightarrow> defaultProtocol c \<in> set (protocolsForContainer c) \<and>
      containerTypeToString c = protoToString (defaultProtocol c))"
  by (simp add: container_names.read_name proto_names.read_name transport_names container_names.read_other
      proto_names.read_other default_protocol_listed container_type_name)

theorem names_roundtrip_witness:
  "containerFromString ''amnezia-openvpn-cloak'' = C_Cloak \<and>
   containerTypeToString C_Ipsec = protoToString P_Ikev2 \<and> protoFromString ''wireguard'' = P_WireGuard"
proof -
  have "containerToString C_Cloak = ''amnezia-openvpn-cloak''" "protoToString P_WireGuard = ''wireguard''"
    by (simp_all add: name_eval char_of_def bit_0)
  then show ?thesis
    using names_roundtrip [of C_Cloak P_WireGuard Udp "[]"] names_roundtrip [of C_Ipsec P_Any Udp "[]"] by simp
qed

end
