(* ===== verification/QtMap.thy ===== *)
theory QtMap
  imports Json "HOL-Library.Char_ord" "HOL-Library.List_Lexorder"
begin

text \<open>
  Qt's ordered map: a list of key and value pairs with the keys in increasing order, which is the
  order of iteration, and Qt's JSON arrays with their behaviour outside their range.
\<close>

section \<open>Maps\<close>

type_synonym ('k, 'v) qmap = "('k \<times> 'v) list"

definition qmap_remove :: "'k \<Rightarrow> ('k, 'v) qmap \<Rightarrow> ('k, 'v) qmap" where
  "qmap_remove k m = filter (\<lambda>p. fst p \<noteq> k) m"

definition qmap_insert :: "'k :: linorder \<Rightarrow> 'v \<Rightarrow> ('k, 'v) qmap \<Rightarrow> ('k, 'v) qmap" where
  "qmap_insert k v m = insort_key fst (k, v) (qmap_remove k m)"

definition qmap_ok :: "('k :: linorder, 'v) qmap \<Rightarrow> bool" where
  "qmap_ok m \<longleftrightarrow> sorted (map fst m) \<and> distinct (map fst m)"

lemma qmap_ok_Nil [simp]: "qmap_ok []"
  by (simp add: qmap_ok_def)

lemma set_qmap_insert: "set (qmap_insert k v m) = insert (k, v) {p \<in> set m. fst p \<noteq> k}"
  by (simp add: qmap_insert_def qmap_remove_def set_insort_key)

lemma qmap_ok_remove [simp]: "qmap_ok m \<Longrightarrow> qmap_ok (qmap_remove k m)"
  by (auto simp: qmap_ok_def qmap_remove_def sorted_filter distinct_map_filter)

lemma map_fst_insort: "map fst (insort_key fst p m) = insort (fst p) (map fst m)"
  by (induction m) auto

lemma qmap_ok_insert [simp]:
  assumes "qmap_ok m"
  shows "qmap_ok (qmap_insert k v m)"
proof -
  have "sorted (map fst (qmap_insert k v m))"
    using qmap_ok_remove [OF assms] by (simp add: qmap_insert_def sorted_insort_key qmap_ok_def)
  moreover have "distinct (map fst (qmap_insert k v m))"
    using qmap_ok_remove [OF assms, of k] by (simp add: qmap_insert_def map_fst_insort qmap_ok_def distinct_insort)
      (auto simp: qmap_remove_def)
  ultimately show ?thesis
    by (simp add: qmap_ok_def)
qed

lemma map_of_qmap:
  assumes "qmap_ok m"
  shows "map_of m k = Some v \<longleftrightarrow> (k, v) \<in> set m"
  using assms by (simp add: qmap_ok_def)

lemma map_of_qmap_insert:
  assumes "qmap_ok m"
  shows "map_of (qmap_insert k v m) = (map_of m)(k \<mapsto> v)"
proof
  fix k'
  show "map_of (qmap_insert k v m) k' = ((map_of m)(k \<mapsto> v)) k'"
    using map_of_qmap [OF qmap_ok_insert [OF assms, of k v], of k']  map_of_qmap [OF assms, of k']
    by (cases "map_of (qmap_insert k v m) k'"; cases "map_of m k'") (auto simp: set_qmap_insert split: if_splits)
qed

lemma map_of_qmap_remove: "map_of (qmap_remove k m) = (map_of m)(k := None)"
  by (induction m) (auto simp: qmap_remove_def fun_eq_iff)

lemma insort_key_snoc: "(\<And>x. x \<in> set xs \<Longrightarrow> f x < f y) \<Longrightarrow> insort_key f y xs = xs @ [y]"
proof (induction xs)
  case (Cons x xs)
  then have "\<not> f y \<le> f x"
    by (simp add: not_le)
  with Cons show ?case
    by simp
qed simp

text \<open>Inserting the pairs of a map one after the other, in its order, gives the map back.\<close>

lemma fold_qmap_insert:
  fixes m :: "('k :: linorder, 'v) qmap"
  assumes "qmap_ok m"
  shows "fold (\<lambda>(k, v). qmap_insert k v) m [] = m"
proof -
  have "fold (\<lambda>(k, v). qmap_insert k v) m2 m1 = m1 @ m2" if "qmap_ok (m1 @ m2)" for m1 m2 :: "('k, 'v) qmap"
    using that
  proof (induction m2 arbitrary: m1)
    case (Cons p m2)
    obtain k v where p: "p = (k, v)"
      by fastforce
    have "qmap_remove k m1 = m1"
      using Cons.prems p by (force simp: qmap_remove_def filter_id_conv qmap_ok_def)
    moreover have "insort_key fst (k, v) m1 = m1 @ [(k, v)]"
      using Cons.prems p by (intro insort_key_snoc) (force simp: qmap_ok_def sorted_append order.strict_iff_order)
    ultimately show ?case
      using Cons p by (simp add: qmap_insert_def)
  qed simp
  from this [of "[]" m] assms show ?thesis
    by simp
qed

section \<open>Arrays\<close>

definition array_at :: "json list \<Rightarrow> int \<Rightarrow> json" where
  "array_at a i = (if 0 \<le> i \<and> i < int (length a) then a ! nat i else JUndefined)"

definition array_removeAt :: "json list \<Rightarrow> int \<Rightarrow> json list" where
  "array_removeAt a i = (if 0 \<le> i \<and> i < int (length a) then take (nat i) a @ drop (nat i + 1) a else a)"

text \<open>Replacing an element that is not there is undefined.\<close>

definition array_replace :: "json list \<Rightarrow> int \<Rightarrow> json \<Rightarrow> json list option" where
  "array_replace a i v = (if 0 \<le> i \<and> i < int (length a) then Some (a[nat i := v]) else None)"

lemma length_array_removeAt:
  "0 \<le> i \<Longrightarrow> i < int (length a) \<Longrightarrow> length (array_removeAt a i) = length a - 1"
  by (auto simp: array_removeAt_def)

lemma array_at_removeAt:
  assumes "0 \<le> i" and "i < int (length a)" and "0 \<le> j" and "j < int (length a)" and "i \<noteq> j"
  shows "array_at (array_removeAt a i) (if j < i then j else j - 1) = array_at a j"
proof -
  have "nat (j - 1) - nat i + (nat i + 1) = nat j" if "i < j"
    using that assms by simp
  with assms show ?thesis
    by (auto simp: array_at_def array_removeAt_def nth_append min_def nat_diff_distrib add.commute)
qed

end
