(* ===== verification/Settings.thy ===== *)
theory Settings
  imports Containers QtMap
begin

text \<open>
  The settings of the client: \<open>client/settings.cpp\<close>. The servers are an array of JSON objects; each
  object lists the containers of the server, and these the configurations of their protocols. The
  store behind the settings keeps what is written to it, and so does the JSON text of the array:
  the model holds the array itself. An operation on an array element that does not exist, which
  the JSON library leaves undefined, is the result \<open>None\<close>.
\<close>

section \<open>Definitions\<close>

text \<open>Containers are ordered as the enumeration lists them.\<close>

fun container_index :: "DockerContainer \<Rightarrow> nat" where
  "container_index C_None = 0"
| "container_index C_Awg = 1"
| "container_index C_WireGuard = 2"
| "container_index C_OpenVpn = 3"
| "container_index C_Cloak = 4"
| "container_index C_ShadowSocks = 5"
| "container_index C_Ipsec = 6"
| "container_index C_Xray = 7"
| "container_index C_SSXray = 8"
| "container_index C_TorWebSite = 9"
| "container_index C_Dns = 10"
| "container_index C_Sftp = 11"
| "container_index C_Socks5Proxy = 12"

lemma container_index_inject: "container_index c = container_index d \<Longrightarrow> c = d"
  by (cases c; cases d) simp_all

instantiation DockerContainer :: linorder
begin

definition less_eq_DockerContainer :: "DockerContainer \<Rightarrow> DockerContainer \<Rightarrow> bool" where
  "less_eq_DockerContainer c d \<longleftrightarrow> container_index c \<le> container_index d"

definition less_DockerContainer :: "DockerContainer \<Rightarrow> DockerContainer \<Rightarrow> bool" where
  "less_DockerContainer c d \<longleftrightarrow> container_index c < container_index d"

instance
  by standard
    (auto simp: less_eq_DockerContainer_def less_DockerContainer_def intro: container_index_inject)

end

datatype RouteMode = VpnAllSites | VpnOnlyForwardSites | VpnAllExceptSites

record settings =
  serversArray :: "json list"
  defaultServerIndex :: int
  vpnSites :: "RouteMode \<Rightarrow> (string, string) qmap"
  serverRemoved :: "int list"

definition serversCount :: "settings \<Rightarrow> int" where
  "serversCount st = int (length (serversArray st))"

definition server :: "int \<Rightarrow> settings \<Rightarrow> json_object" where
  "server index st =
    (if index \<ge> serversCount st then [] else json_toObject (array_at (serversArray st) index))"

definition addServer :: "json_object \<Rightarrow> settings \<Rightarrow> settings" where
  "addServer s st = st\<lparr>serversArray := serversArray st @ [JObject s]\<rparr>"

definition removeServer :: "int \<Rightarrow> settings \<Rightarrow> settings" where
  "removeServer index st =
    (if index \<ge> serversCount st then st
     else st\<lparr>serversArray := array_removeAt (serversArray st) index,
             serverRemoved := serverRemoved st @ [index]\<rparr>)"

definition editServer :: "int \<Rightarrow> json_object \<Rightarrow> settings \<Rightarrow> (bool \<times> settings) option" where
  "editServer index s st =
    (if index \<ge> serversCount st then Some (False, st)
     else map_option (\<lambda>servers. (True, st\<lparr>serversArray := servers\<rparr>))
       (array_replace (serversArray st) index (JObject s)))"

definition setDefaultServer :: "int \<Rightarrow> settings \<Rightarrow> settings" where
  "setDefaultServer index st = st\<lparr>defaultServerIndex := index\<rparr>"

definition setDefaultContainer :: "int \<Rightarrow> DockerContainer \<Rightarrow> settings \<Rightarrow> settings option" where
  "setDefaultContainer serverIndex container st =
    map_option snd (editServer serverIndex
      (json_insert ''defaultContainer'' (JString (containerToString container)) (server serverIndex st)) st)"

definition defaultContainerName :: "int \<Rightarrow> settings \<Rightarrow> string" where
  "defaultContainerName serverIndex st =
    (let name = qs_text (json_toString (json_value (server serverIndex st) ''defaultContainer''))
     in if name = [] then containerToString C_None else name)"

definition defaultContainer :: "int \<Rightarrow> settings \<Rightarrow> DockerContainer" where
  "defaultContainer serverIndex st = containerFromString (defaultContainerName serverIndex st)"

definition container_of :: "json \<Rightarrow> DockerContainer" where
  "container_of val = containerFromString (qs_text (json_toString (json_value (json_toObject val) ''container'')))"

definition containers :: "int \<Rightarrow> settings \<Rightarrow> (DockerContainer, json_object) qmap" where
  "containers serverIndex st =
    fold (\<lambda>val. qmap_insert (container_of val) (json_toObject val))
      (json_toArray (json_value (server serverIndex st) ''containers'')) []"

definition setContainers :: "int \<Rightarrow> (DockerContainer, json_object) qmap \<Rightarrow> settings \<Rightarrow> settings option" where
  "setContainers serverIndex cs st =
    map_option snd (editServer serverIndex
      (json_insert ''containers'' (JArray (map (JObject \<circ> snd) cs)) (server serverIndex st)) st)"

definition containerConfig :: "int \<Rightarrow> DockerContainer \<Rightarrow> settings \<Rightarrow> json_object" where
  "containerConfig serverIndex container st =
    (if container = C_None then []
     else case map_of (containers serverIndex st) container of None \<Rightarrow> [] | Some c \<Rightarrow> c)"

definition setContainerConfig :: "int \<Rightarrow> DockerContainer \<Rightarrow> json_object \<Rightarrow> settings \<Rightarrow> settings option" where
  "setContainerConfig serverIndex container config st =
    (if container = C_None then Some st
     else setContainers serverIndex
       (qmap_insert container (json_insert ''container'' (JString (containerToString container)) config)
         (containers serverIndex st)) st)"

definition removeContainerConfig :: "int \<Rightarrow> DockerContainer \<Rightarrow> settings \<Rightarrow> settings option" where
  "removeContainerConfig serverIndex container st =
    (if container = C_None then Some st
     else setContainers serverIndex (qmap_remove container (containers serverIndex st)) st)"

definition protocolConfig :: "int \<Rightarrow> DockerContainer \<Rightarrow> Proto \<Rightarrow> settings \<Rightarrow> json_object" where
  "protocolConfig serverIndex container proto st =
    json_toObject (json_value (containerConfig serverIndex container st) (protoToString proto))"

definition setProtocolConfig :: "int \<Rightarrow> DockerContainer \<Rightarrow> Proto \<Rightarrow> json_object \<Rightarrow> settings \<Rightarrow> settings option" where
  "setProtocolConfig serverIndex container proto config st =
    setContainerConfig serverIndex container
      (json_insert (protoToString proto) (JObject config) (containerConfig serverIndex container st)) st"

text \<open>The recursive calls of \<open>clearLastConnectionConfig\<close> are for protocols other than \<open>Any\<close>.\<close>

definition clear_protocol :: "int \<Rightarrow> DockerContainer \<Rightarrow> Proto \<Rightarrow> settings \<Rightarrow> settings option" where
  "clear_protocol serverIndex container proto st =
    setProtocolConfig serverIndex container proto
      (json_remove ''last_config'' (protocolConfig serverIndex container proto st)) st"

fun clear_protocols :: "int \<Rightarrow> DockerContainer \<Rightarrow> Proto list \<Rightarrow> settings \<Rightarrow> settings option" where
  "clear_protocols serverIndex container [] st = Some st"
| "clear_protocols serverIndex container (p # ps) st =
    Option.bind (clear_protocol serverIndex container p st) (clear_protocols serverIndex container ps)"

definition clearLastConnectionConfig :: "int \<Rightarrow> DockerContainer \<Rightarrow> Proto \<Rightarrow> settings \<Rightarrow> settings option" where
  "clearLastConnectionConfig serverIndex container proto st =
    (if proto = P_Any then clear_protocols serverIndex container (protocolsForContainer container) st
     else clear_protocol serverIndex container proto st)"

record ServerCredentials =
  hostName :: string
  userName :: string
  secretData :: string
  port :: int

definition credentials_of :: "json_object \<Rightarrow> ServerCredentials" where
  "credentials_of s =
    \<lparr>hostName = qs_text (json_toString (json_value s ''hostName'')),
     userName = qs_text (json_toString (json_value s ''userName'')),
     secretData = qs_text (json_toString (json_value s ''password'')),
     port = json_toInt (json_value s ''port'')\<rparr>"

definition serverCredentials :: "int \<Rightarrow> settings \<Rightarrow> ServerCredentials" where
  "serverCredentials index st = credentials_of (server index st)"

definition haveAuthData :: "int \<Rightarrow> settings \<Rightarrow> bool" where
  "haveAuthData serverIndex st =
    (if serverIndex < 0 then False
     else let cred = serverCredentials serverIndex st
          in hostName cred \<noteq> [] \<and> userName cred \<noteq> [] \<and> secretData cred \<noteq> [])"

text \<open>The search for the next free name; \<open>tr\<close> is the translated word for a server.\<close>

definition server_name :: "string \<Rightarrow> nat \<Rightarrow> string" where
  "server_name tr i = tr @ '' '' @ show_nat i"

definition descriptions :: "settings \<Rightarrow> string list" where
  "descriptions st =
    map (\<lambda>s. qs_text (json_toString (json_value (json_toObject s) ''description''))) (serversArray st)"

lemma server_name_inject [simp]: "server_name tr i = server_name tr j \<longleftrightarrow> i = j"
  by (simp add: server_name_def)

lemma finite_server_names: "finite {n. i < n \<and> server_name tr n \<in> set ds}"
proof (rule finite_imageD)
  show "finite (server_name tr ` {n. i < n \<and> server_name tr n \<in> set ds})"
    by (rule finite_subset [of _ "set ds"]) auto
qed (simp add: inj_on_def)

function next_name :: "string \<Rightarrow> string list \<Rightarrow> nat \<Rightarrow> string" where
  "next_name tr ds i =
    (if server_name tr (i + 1) \<in> set ds then next_name tr ds (i + 1) else server_name tr (i + 1))"
  by pat_completeness auto
termination
proof (relation "measure (\<lambda>(tr, ds, i). card {n. i < n \<and> server_name tr n \<in> set ds})")
  fix tr ds i
  assume "server_name tr (i + 1) \<in> set ds"
  then have "{n. i + 1 < n \<and> server_name tr n \<in> set ds} \<subset> {n. i < n \<and> server_name tr n \<in> set ds}"
    by auto
  then show "((tr, ds, i + 1), tr, ds, i) \<in> measure (\<lambda>(tr, ds, i). card {n. i < n \<and> server_name tr n \<in> set ds})"
    using psubset_card_mono [OF finite_server_names] by simp
qed simp

declare next_name.simps [simp del]

definition nextAvailableServerName :: "string \<Rightarrow> settings \<Rightarrow> string" where
  "nextAvailableServerName tr st = next_name tr (descriptions st) 0"

section \<open>Sites\<close>

text \<open>\<open>parses_v4\<close> tells whether \<open>QHostAddress\<close> reads a text as an IPv4 address.\<close>

definition checkIPv4Format :: "(string \<Rightarrow> bool) \<Rightarrow> string \<Rightarrow> bool" where
  "checkIPv4Format parses_v4 ip \<longleftrightarrow>
    ip \<noteq> [] \<and> length (filter (\<lambda>c. c = CHR ''.'') ip) = 3 \<and> parses_v4 ip"

definition checkIpSubnetFormat :: "(string \<Rightarrow> bool) \<Rightarrow> string \<Rightarrow> bool" where
  "checkIpSubnetFormat parses_v4 ip =
    (if CHR ''/'' \<notin> set ip then checkIPv4Format parses_v4 ip
     else case qsplit (CHR ''/'') ip of
       [address, subnet] \<Rightarrow>
         (case parse_int subnet of
            Some n \<Rightarrow> if 0 \<le> n \<and> n \<le> 32 then checkIPv4Format parses_v4 address else False
          | None \<Rightarrow> False)
     | _ \<Rightarrow> False)"

definition addVpnSite :: "RouteMode \<Rightarrow> string \<Rightarrow> string \<Rightarrow> settings \<Rightarrow> bool \<times> settings" where
  "addVpnSite mode site ip st =
    (if map_of (vpnSites st mode) site \<noteq> None \<and> ip = [] then (False, st)
     else (True, st\<lparr>vpnSites := (vpnSites st)(mode := qmap_insert site ip (vpnSites st mode))\<rparr>))"

definition addVpnSites :: "RouteMode \<Rightarrow> (string, string) qmap \<Rightarrow> settings \<Rightarrow> settings" where
  "addVpnSites mode sites st =
    st\<lparr>vpnSites := (vpnSites st)(mode :=
      fold (\<lambda>(site, ip) all. if map_of all site = Some ip then all else qmap_insert site ip all)
        sites (vpnSites st mode))\<rparr>"

definition getVpnIps :: "(string \<Rightarrow> bool) \<Rightarrow> RouteMode \<Rightarrow> settings \<Rightarrow> string list" where
  "getVpnIps parses_v4 mode st =
    fold (\<lambda>x acc. if x \<in> set acc then acc else acc @ [x])
      (List.map_filter (\<lambda>(site, ip). if checkIpSubnetFormat parses_v4 site then Some site
         else if checkIpSubnetFormat parses_v4 ip then Some ip else None) (vpnSites st mode)) []"

definition removeVpnSite :: "RouteMode \<Rightarrow> string \<Rightarrow> settings \<Rightarrow> settings" where
  "removeVpnSite mode site st =
    (if map_of (vpnSites st mode) site = None then st
     else st\<lparr>vpnSites := (vpnSites st)(mode := qmap_remove site (vpnSites st mode))\<rparr>)"

definition addVpnIps :: "RouteMode \<Rightarrow> string list \<Rightarrow> settings \<Rightarrow> settings" where
  "addVpnIps mode ips st =
    st\<lparr>vpnSites := (vpnSites st)(mode :=
      fold (\<lambda>ip sites. if ip = [] then sites else qmap_insert ip [] sites) ips (vpnSites st mode))\<rparr>"

definition removeVpnSites :: "RouteMode \<Rightarrow> string list \<Rightarrow> settings \<Rightarrow> settings" where
  "removeVpnSites mode sites st =
    st\<lparr>vpnSites := (vpnSites st)(mode :=
      fold (\<lambda>site m. if site = [] then m else qmap_remove site m) sites (vpnSites st mode))\<rparr>"

definition removeAllVpnSites :: "RouteMode \<Rightarrow> settings \<Rightarrow> settings" where
  "removeAllVpnSites mode st = st\<lparr>vpnSites := (vpnSites st)(mode := [])\<rparr>"

section \<open>Lemmas\<close>

definition valid_index :: "int \<Rightarrow> settings \<Rightarrow> bool" where
  "valid_index i st \<longleftrightarrow> 0 \<le> i \<and> i < serversCount st"

lemma editServer_valid:
  assumes "valid_index i st"
  obtains st' where "editServer i s st = Some (True, st')"
    and "\<And>j. server j st' = (if j = i then s else server j st)"
    and "serversCount st' = serversCount st" and "defaultServerIndex st' = defaultServerIndex st"
    and "serversArray st' = (serversArray st)[nat i := JObject s]"
proof
  let ?st = "st\<lparr>serversArray := (serversArray st)[nat i := JObject s]\<rparr>"
  show "editServer i s st = Some (True, ?st)"
    using assms by (simp add: editServer_def array_replace_def valid_index_def serversCount_def)
  show "server j ?st = (if j = i then s else server j st)" for j
    using assms by (auto simp: server_def array_at_def valid_index_def serversCount_def nth_list_update)
qed (simp_all add: serversCount_def)

text \<open>Every container is stored under its own name.\<close>

definition keyed :: "(DockerContainer, json_object) qmap \<Rightarrow> bool" where
  "keyed cs \<longleftrightarrow> qmap_ok cs \<and> list_all (\<lambda>(c, obj). container_of (JObject obj) = c) cs"

lemma container_of_toObject: "container_of (JObject (json_toObject v)) = container_of v"
  by (simp add: container_of_def)

lemma keyed_insert: "keyed cs \<Longrightarrow> container_of (JObject obj) = c \<Longrightarrow> keyed (qmap_insert c obj cs)"
  by (auto simp: keyed_def list_all_iff set_qmap_insert)

lemma keyed_remove: "keyed cs \<Longrightarrow> keyed (qmap_remove c cs)"
  by (auto simp: keyed_def list_all_iff qmap_remove_def sorted_filter qmap_ok_def distinct_map_filter)

lemma keyed_containers: "keyed (containers i st)"
proof -
  have "keyed (fold (\<lambda>val. qmap_insert (container_of val) (json_toObject val)) vs cs)" if "keyed cs" for vs cs
    using that by (induction vs arbitrary: cs) (simp_all add: keyed_insert container_of_toObject)
  then show ?thesis
    by (simp add: containers_def keyed_def)
qed

lemma setContainers_valid:
  assumes "valid_index i st" and "keyed cs"
  obtains st' where "setContainers i cs st = Some st'" and "containers i st' = cs"
    and "\<And>j. j \<noteq> i \<Longrightarrow> server j st' = server j st"
    and "\<And>key. key \<noteq> ''containers'' \<Longrightarrow> json_value (server i st') key = json_value (server i st) key"
    and "serversCount st' = serversCount st" and "defaultServerIndex st' = defaultServerIndex st"
proof -
  let ?s = "json_insert ''containers'' (JArray (map (JObject \<circ> snd) cs)) (server i st)"
  obtain st' where st': "editServer i ?s st = Some (True, st')"
    "\<And>j. server j st' = (if j = i then ?s else server j st)"
    "serversCount st' = serversCount st" "defaultServerIndex st' = defaultServerIndex st"
    using editServer_valid [OF assms(1), of ?s] by metis
  have "fold (\<lambda>val. qmap_insert (container_of val) (json_toObject val)) (map (JObject \<circ> snd) cs') acc =
      fold (\<lambda>(k, v). qmap_insert k v) cs' acc"
    if "list_all (\<lambda>(c, obj). container_of (JObject obj) = c) cs'" for cs' acc
    using that by (induction cs' arbitrary: acc) auto
  then have "containers i st' = fold (\<lambda>(k, v). qmap_insert k v) cs []"
    using assms(2) by (simp add: containers_def st'(2) keyed_def)
  also have "\<dots> = cs"
    using assms(2) by (intro fold_qmap_insert) (simp add: keyed_def)
  finally show ?thesis
    using that [of st'] st' by (simp add: setContainers_def)
qed

text \<open>A change of one container, seen from the outside.\<close>

definition container_changed :: "int \<Rightarrow> DockerContainer \<Rightarrow> json_object \<Rightarrow> settings \<Rightarrow> settings \<Rightarrow> bool" where
  "container_changed i c config st st' \<longleftrightarrow>
    containerConfig i c st' = config \<and> serversCount st' = serversCount st \<and>
    (\<forall>d. d \<noteq> c \<longrightarrow> containerConfig i d st' = containerConfig i d st) \<and>
    (\<forall>j. j \<noteq> i \<longrightarrow> server j st' = server j st) \<and>
    (\<forall>key. key \<noteq> ''containers'' \<longrightarrow> json_value (server i st') key = json_value (server i st) key)"

lemma setContainers_changed:
  assumes "valid_index i st" and "keyed cs" and "c \<noteq> C_None"
    and cs: "map_of cs = (map_of (containers i st))(c := v)"
  shows "\<exists>st'. setContainers i cs st = Some st' \<and>
    container_changed i c (case v of None \<Rightarrow> [] | Some obj \<Rightarrow> obj) st st'"
proof (rule setContainers_valid [OF assms(1,2)])
  fix st'
  assume "setContainers i cs st = Some st'" and st': "containers i st' = cs"
    and "\<And>j. j \<noteq> i \<Longrightarrow> server j st' = server j st"
    and "\<And>key. key \<noteq> ''containers'' \<Longrightarrow> json_value (server i st') key = json_value (server i st) key"
    and "serversCount st' = serversCount st"
  then show ?thesis
    using assms(3) by (auto simp: container_changed_def containerConfig_def st' cs)
qed

lemma next_name_free:
  "next_name tr ds i \<notin> set ds \<and> (\<exists>n > i. next_name tr ds i = server_name tr n \<and>
     (\<forall>m. i < m \<longrightarrow> m < n \<longrightarrow> server_name tr m \<in> set ds))"
proof (induction tr ds i rule: next_name.induct)
  case (1 tr ds i)
  show ?case
  proof (cases "server_name tr (i + 1) \<in> set ds")
    case True
    then have eq: "next_name tr ds i = next_name tr ds (i + 1)"
      by (subst next_name.simps) simp
    from 1 [OF True] obtain n where n: "next_name tr ds (i + 1) \<notin> set ds" "i + 1 < n"
      "next_name tr ds (i + 1) = server_name tr n"
      "\<And>m. i + 1 < m \<Longrightarrow> m < n \<Longrightarrow> server_name tr m \<in> set ds"
      by blast
    have "server_name tr m \<in> set ds" if "i < m" "m < n" for m
      using that True n(4) [of m] by (cases "m = i + 1") simp_all
    with n eq show ?thesis
      by (intro conjI exI [of _ n]) simp_all
  next
    case False
    then have "next_name tr ds i = server_name tr (i + 1)"
      by (subst next_name.simps) simp
    with False show ?thesis
      by (intro conjI exI [of _ "i + 1"]) simp_all
  qed
qed

lemma setContainerConfig_changed:
  assumes "valid_index i st" and "c \<noteq> C_None"
  shows "\<exists>st'. setContainerConfig i c config st = Some st' \<and>
    container_changed i c (json_insert ''container'' (JString (containerToString c)) config) st st'"
proof -
  let ?o = "json_insert ''container'' (JString (containerToString c)) config"
  have "container_of (JObject ?o) = c"
    by (simp add: container_of_def container_names.read_name)
  then have "keyed (qmap_insert c ?o (containers i st))"
    by (intro keyed_insert keyed_containers)
  moreover have "map_of (qmap_insert c ?o (containers i st)) = (map_of (containers i st))(c := Some ?o)"
    using keyed_containers [of i st] by (intro map_of_qmap_insert) (simp add: keyed_def)
  ultimately show ?thesis
    using setContainers_changed [OF assms(1) _ assms(2), of "qmap_insert c ?o (containers i st)" "Some ?o"] assms(2)
    by (simp add: setContainerConfig_def)
qed

lemma removeContainerConfig_changed:
  assumes "valid_index i st" and "c \<noteq> C_None"
  shows "\<exists>st'. removeContainerConfig i c st = Some st' \<and> container_changed i c [] st st'"
  using setContainers_changed [OF assms(1) keyed_remove [OF keyed_containers] assms(2) map_of_qmap_remove] assms(2)
  by (simp add: removeContainerConfig_def)

section \<open>Lists of sites\<close>

text \<open>The lists of sites are maps from sites to addresses, which the operations change pointwise.\<close>

definition sites_ok :: "settings \<Rightarrow> bool" where
  "sites_ok st \<longleftrightarrow> (\<forall>mode. qmap_ok (vpnSites st mode))"

definition site_table :: "settings \<Rightarrow> RouteMode \<Rightarrow> string \<rightharpoonup> string" where
  "site_table st mode = map_of (vpnSites st mode)"

lemma addVpnSite_table:
  assumes "sites_ok st" and "addVpnSite mode site ip st = (r, st')"
  shows "sites_ok st'" and "r \<longleftrightarrow> ip \<noteq> [] \<or> site_table st mode site = None"
    and "site_table st' = (if r then (site_table st)(mode := (site_table st mode)(site \<mapsto> ip)) else site_table st)"
  using assms by (auto simp: addVpnSite_def sites_ok_def site_table_def map_of_qmap_insert fun_eq_iff split: if_splits)

lemma addVpnSites_table:
  assumes "sites_ok st" and "qmap_ok sites"
  shows "sites_ok (addVpnSites mode sites st)"
    and "site_table (addVpnSites mode sites st) mode = site_table st mode ++ map_of sites"
proof -
  let ?add = "\<lambda>(site, ip) all. if map_of all site = Some ip then all else qmap_insert site ip all"
  have "qmap_ok (fold ?add sites all) \<and> map_of (fold ?add sites all) = map_of all ++ map_of sites"
    if "qmap_ok all" "distinct (map fst sites)" for all and sites :: "(string, string) qmap"
    using that
  proof (induction sites arbitrary: all)
    case (Cons p sites)
    obtain site ip where p: "p = (site, ip)"
      by fastforce
    have all: "qmap_ok (?add p all)" "map_of (?add p all) = (map_of all)(site \<mapsto> ip)"
      using Cons.prems(1) by (auto simp: p map_of_qmap_insert)
    have "(map_of all)(site \<mapsto> ip) ++ map_of sites = map_of all ++ map_of (p # sites)"
      using Cons.prems(2) by (simp add: p map_add_upd_left dom_map_of_conv_image_fst)
    moreover have "distinct (map fst sites)"
      using Cons.prems(2) by simp
    ultimately show ?case
      using Cons.IH [OF all(1)] by (simp only: fold_simps all(2))
  qed simp
  from this [of "vpnSites st mode" sites] assms
  show "sites_ok (addVpnSites mode sites st)"
    and "site_table (addVpnSites mode sites st) mode = site_table st mode ++ map_of sites"
    by (simp_all add: addVpnSites_def sites_ok_def site_table_def qmap_ok_def)
qed

lemma removeVpnSites_table:
  "site_table (removeVpnSites mode sites st) mode = site_table st mode |` (- (set sites - {[]}))"
proof -
  have "map_of (fold (\<lambda>site m. if site = [] then m else qmap_remove site m) sites m) = map_of m |` (- (set sites - {[]}))"
    for m :: "(string, string) qmap"
    by (induction sites arbitrary: m) (auto simp: map_of_qmap_remove restrict_map_def fun_eq_iff)
  then show ?thesis
    by (simp add: removeVpnSites_def site_table_def)
qed

definition site_ip :: "(string \<Rightarrow> bool) \<Rightarrow> string \<times> string \<Rightarrow> string option" where
  "site_ip valid p = (if valid (fst p) then Some (fst p) else if valid (snd p) then Some (snd p) else None)"

lemma getVpnIps_set:
  "distinct (getVpnIps parses_v4 mode st) \<and>
   set (getVpnIps parses_v4 mode st) = {x. \<exists>p \<in> set (vpnSites st mode). site_ip (checkIpSubnetFormat parses_v4) p = Some x}"
proof -
  have dup: "distinct acc \<Longrightarrow> distinct (fold (\<lambda>x acc. if x \<in> set acc then acc else acc @ [x]) xs acc) \<and>
      set (fold (\<lambda>x acc. if x \<in> set acc then acc else acc @ [x]) xs acc) = set acc \<union> set xs"
    for xs acc :: "string list"
    by (induction xs arbitrary: acc) auto
  have "set (List.map_filter f ps) = {x. \<exists>p \<in> set ps. f p = Some x}" for f :: "string \<times> string \<Rightarrow> string option" and ps
    by (induction ps) (auto simp: map_filter_def)
  moreover have "getVpnIps parses_v4 mode st = fold (\<lambda>x acc. if x \<in> set acc then acc else acc @ [x])
      (List.map_filter (site_ip (checkIpSubnetFormat parses_v4)) (vpnSites st mode)) []"
    by (simp add: getVpnIps_def site_ip_def [abs_def] case_prod_beta')
  ultimately show ?thesis
    using dup [of "[]"] by simp
qed

section \<open>Cached profiles\<close>

lemma protoToString_container: "protoToString p \<noteq> ''container''"
  by (cases p) (simp_all add: name_eval char_of_def)

lemma clear_protocol_clears:
  assumes "valid_index i st" and "c \<noteq> C_None"
  shows "\<exists>st'. clear_protocol i c p st = Some st' \<and> valid_index i st' \<and>
    (\<forall>q key. json_value (protocolConfig i c q st') key =
       (if q = p \<and> key = ''last_config'' then JUndefined else json_value (protocolConfig i c q st) key))"
proof -
  obtain st' where "clear_protocol i c p st = Some st'" and
    "container_changed i c (json_insert ''container'' (JString (containerToString c))
       (json_insert (protoToString p) (JObject (json_remove ''last_config'' (protocolConfig i c p st)))
          (containerConfig i c st))) st st'"
    using setContainerConfig_changed [OF assms] unfolding clear_protocol_def setProtocolConfig_def by metis
  then show ?thesis
    using assms(1)
    by (auto simp: container_changed_def protocolConfig_def protoToString_container valid_index_def
        proto_names.name_inject)
qed

lemma clear_protocols_clears:
  assumes "valid_index i st" and "c \<noteq> C_None"
  shows "\<exists>st'. clear_protocols i c ps st = Some st' \<and> valid_index i st' \<and>
    (\<forall>q key. json_value (protocolConfig i c q st') key =
       (if q \<in> set ps \<and> key = ''last_config'' then JUndefined else json_value (protocolConfig i c q st) key))"
  using assms(1)
proof (induction ps arbitrary: st)
  case (Cons p ps)
  obtain st1 where st1: "clear_protocol i c p st = Some st1" "valid_index i st1"
    "\<And>q key. json_value (protocolConfig i c q st1) key =
       (if q = p \<and> key = ''last_config'' then JUndefined else json_value (protocolConfig i c q st) key)"
    using clear_protocol_clears [OF Cons.prems assms(2)] by metis
  show ?case
    using Cons.IH [OF st1(2)] by (auto simp: st1(1,3))
qed simp

lemma clearLastConnectionConfig_clears:
  assumes "valid_index i st" and "c \<noteq> C_None"
  shows "\<exists>st'. clearLastConnectionConfig i c P_Any st = Some st' \<and> valid_index i st' \<and>
    (\<forall>q key. json_value (protocolConfig i c q st') key =
       (if q \<in> set (protocolsForContainer c) \<and> key = ''last_config'' then JUndefined
        else json_value (protocolConfig i c q st) key))"
  using clear_protocols_clears [OF assms, of "protocolsForContainer c"]
  by (simp add: clearLastConnectionConfig_def)

section \<open>Properties\<close>

text \<open>
  C27. The configurations of containers behave like entries of a table, per server and per container:
  what is stored for a container is read back, with the container's name added, what is removed is
  read as empty, and either changes no other container, no other entry of the server, no other
  server and not their number.
\<close>

theorem container_config_table:
  assumes "valid_index i st" and "c \<noteq> C_None"
  shows "\<exists>st1 st2. setContainerConfig i c config st = Some st1 \<and> removeContainerConfig i c st = Some st2 \<and>
    container_changed i c (json_insert ''container'' (JString (containerToString c)) config) st st1 \<and>
    container_changed i c [] st st2"
  using setContainerConfig_changed [OF assms] removeContainerConfig_changed [OF assms] by metis

definition demo_settings :: settings where
  "demo_settings = \<lparr>serversArray = [JObject [(''description'', JString ''Server 1'')], JObject []],
     defaultServerIndex = 1, vpnSites = (\<lambda>_. []), serverRemoved = []\<rparr>"

theorem container_config_table_witness:
  "\<exists>st1. setContainerConfig 1 C_Awg [] demo_settings = Some st1 \<and>
     containerConfig 1 C_Awg st1 = [(''container'', JString (containerToString C_Awg))]"
  using container_config_table [of 1 demo_settings C_Awg "[]"]
  by (auto simp: container_changed_def demo_settings_def valid_index_def serversCount_def json_insert_def)

text \<open>
  C28. The search for the name of a new server ends, with a name that no server has, and it is the name
  with the smallest number of those.
\<close>

theorem nextAvailableServerName_fresh:
  "nextAvailableServerName tr st \<notin> set (descriptions st) \<and>
   (\<exists>n \<ge> 1. nextAvailableServerName tr st = server_name tr n \<and>
      (\<forall>m. 1 \<le> m \<longrightarrow> m < n \<longrightarrow> server_name tr m \<in> set (descriptions st)))"
  using next_name_free [of tr "descriptions st" 0]
  by (auto simp: nextAvailableServerName_def Suc_le_eq)

theorem nextAvailableServerName_fresh_witness:
  "nextAvailableServerName ''Server'' demo_settings \<noteq> ''Server 1''"
proof -
  have "''Server 1'' \<in> set (descriptions demo_settings)"
    by (simp add: demo_settings_def descriptions_def json_value_def)
  with nextAvailableServerName_fresh [of "''Server''" demo_settings] show ?thesis
    by metis
qed

end
