(* ===== verification/ServersModel.thy ===== *)
theory ServersModel
  imports Settings "HOL-Library.Word"
begin

text \<open>
  The list of servers behind the user interface: \<open>client/ui/models/servers_model.cpp\<close>. The model
  keeps a copy of the servers of the settings and the numbers of two of them, the default server
  and the one being worked on; every operation changes the settings and its copy. The signals of
  the class are recorded in order. What is asked of a remote server is a parameter that answers
  with an error code; dates are parameters as well. Replacing an element of the array that does
  not exist is undefined and gives \<open>None\<close>.
\<close>

section \<open>Definitions\<close>

datatype model_signal =
    ProcessedServerIndexChanged int
  | DefaultServerIndexChanged int
  | DefaultServerNameChanged
  | DefaultServerDescriptionChanged
  | ContainersUpdated "json list"
  | DefaultServerContainersUpdated "json list"
  | DefaultServerDefaultContainerChanged DockerContainer
  | UpdateApiLanguageModel
  | UpdateApiServicesModel
  | DataChanged int
  | ModelReset

record servers_model =
  m_settings :: settings
  m_servers :: "json list"
  m_defaultServerIndex :: int
  m_processedServerIndex :: int
  m_isAmneziaDnsEnabled :: bool
  model_signals :: "model_signal list"

definition emit_signal :: "model_signal \<Rightarrow> servers_model \<Rightarrow> servers_model" where
  "emit_signal sig m = m\<lparr>model_signals := model_signals m @ [sig]\<rparr>"

subsection \<open>Reading\<close>

definition getServerConfig :: "int \<Rightarrow> servers_model \<Rightarrow> json_object" where
  "getServerConfig i m = json_toObject (array_at (m_servers m) i)"

definition containers_array :: "json_object \<Rightarrow> json list" where
  "containers_array s = json_toArray (json_value s ''containers'')"

definition string_at :: "json_object \<Rightarrow> string \<Rightarrow> string" where
  "string_at s key = qs_text (json_toString (json_value s key))"

definition default_container_of :: "json_object \<Rightarrow> DockerContainer" where
  "default_container_of s = containerFromString (string_at s ''defaultContainer'')"

definition api_config :: "json_object \<Rightarrow> json_object" where
  "api_config s = json_toObject (json_value s ''api_config'')"

definition config_version :: "json_object \<Rightarrow> int" where
  "config_version s = json_toInt (json_value s ''config_version'')"

definition model_serverCredentials :: "int \<Rightarrow> servers_model \<Rightarrow> ServerCredentials" where
  "model_serverCredentials i m = credentials_of (getServerConfig i m)"

definition isAmneziaDnsContainerInstalled :: "int \<Rightarrow> servers_model \<Rightarrow> bool" where
  "isAmneziaDnsContainerInstalled i m \<longleftrightarrow>
    list_ex (\<lambda>c. string_at (json_toObject c) ''container'' = containerToString C_Dns)
      (containers_array (getServerConfig i m))"

definition serverHasInstalledContainers :: "int \<Rightarrow> servers_model \<Rightarrow> bool" where
  "serverHasInstalledContainers i m \<longleftrightarrow>
    list_ex (\<lambda>c. containerService (container_of c) = S_Vpn \<or> container_of c = C_SSXray)
      (containers_array (getServerConfig i m))"

definition in_rows :: "int \<Rightarrow> servers_model \<Rightarrow> bool" where
  "in_rows i m \<longleftrightarrow> 0 \<le> i \<and> i < int (length (m_servers m))"

datatype server_role = NameRole | ServerDescriptionRole | CollapsedServerDescriptionRole
  | ExpandedServerDescriptionRole | HostNameRole | CredentialsRole | CredentialsLoginRole
  | IsDefaultRole | IsCurrentlyProcessedRole | HasWriteAccessRole | ContainsAmneziaDnsRole
  | DefaultContainerRole | HasInstalledContainers | IsServerFromTelegramApiRole
  | IsServerFromGatewayApiRole | ApiConfigRole | IsCountrySelectionAvailableRole
  | ApiAvailableCountriesRole | ApiServerCountryCodeRole | HasAmneziaDns

datatype variant = NoVariant | VString string | VBool bool | VContainer DockerContainer
  | VCredentials ServerCredentials | VObject json_object | VArray "json list"

definition amneziaDnsIp :: string where
  "amneziaDnsIp = ''172.29.172.254''"

definition hasWriteAccess :: "int \<Rightarrow> servers_model \<Rightarrow> bool" where
  "hasWriteAccess i m \<longleftrightarrow> in_rows i m \<and>
    userName (model_serverCredentials i m) \<noteq> [] \<and> secretData (model_serverCredentials i m) \<noteq> []"

definition hasAmneziaDns :: "int \<Rightarrow> servers_model \<Rightarrow> bool" where
  "hasAmneziaDns i m \<longleftrightarrow> in_rows i m \<and> string_at (getServerConfig i m) ''dns1'' = amneziaDnsIp"

definition getServerDescription :: "json_object \<Rightarrow> int \<Rightarrow> servers_model \<Rightarrow> string" where
  "getServerDescription s i m =
    (if config_version s \<noteq> 0 \<and> string_at (api_config s) ''server_country_code'' \<noteq> [] then
       string_at (api_config s) ''server_country_name''
     else if config_version s \<noteq> 0 then string_at s ''description''
     else if hasWriteAccess i m then
       (if m_isAmneziaDnsEnabled m \<and> isAmneziaDnsContainerInstalled i m then ''Amnezia DNS | '' else [])
     else if hasAmneziaDns i m then ''Amnezia DNS | '' else [])"

fun model_data :: "int \<Rightarrow> server_role \<Rightarrow> servers_model \<Rightarrow> variant" where
  "model_data i role m =
    (if \<not> in_rows i m then NoVariant
     else let s = getServerConfig i m; description = getServerDescription s i m
          in case role of
            NameRole \<Rightarrow> VString
              (if config_version s \<noteq> 0 then string_at s ''name''
               else if string_at s ''description'' = [] then string_at s ''hostName'' else string_at s ''description'')
          | ServerDescriptionRole \<Rightarrow> VString
              (if config_version s \<noteq> 0 then description else description @ string_at s ''hostName'')
          | HostNameRole \<Rightarrow> VString (string_at s ''hostName'')
          | CredentialsRole \<Rightarrow> VCredentials (model_serverCredentials i m)
          | CredentialsLoginRole \<Rightarrow> VString (userName (model_serverCredentials i m))
          | IsDefaultRole \<Rightarrow> VBool (i = m_defaultServerIndex m)
          | IsCurrentlyProcessedRole \<Rightarrow> VBool (i = m_processedServerIndex m)
          | HasWriteAccessRole \<Rightarrow> VBool (hasWriteAccess i m)
          | ContainsAmneziaDnsRole \<Rightarrow> VBool (string_at s ''dns1'' = amneziaDnsIp)
          | DefaultContainerRole \<Rightarrow> VContainer (default_container_of s)
          | HasInstalledContainers \<Rightarrow> VBool (serverHasInstalledContainers i m)
          | IsServerFromTelegramApiRole \<Rightarrow> VBool (config_version s = 1)
          | IsServerFromGatewayApiRole \<Rightarrow> VBool (config_version s = 2)
          | ApiConfigRole \<Rightarrow> VObject (api_config s)
          | IsCountrySelectionAvailableRole \<Rightarrow>
              VBool (json_toArray (json_value (api_config s) ''available_countries'') \<noteq> [])
          | ApiAvailableCountriesRole \<Rightarrow> VArray (json_toArray (json_value (api_config s) ''available_countries''))
          | ApiServerCountryCodeRole \<Rightarrow> VString (string_at (api_config s) ''server_country_code'')
          | HasAmneziaDns \<Rightarrow> VBool (hasAmneziaDns i m)
          | _ \<Rightarrow> NoVariant)"

definition toBool :: "variant \<Rightarrow> bool" where
  "toBool v \<longleftrightarrow> v = VBool True"

definition toContainer :: "variant \<Rightarrow> DockerContainer" where
  "toContainer v = (case v of VContainer c \<Rightarrow> c | _ \<Rightarrow> C_None)"

definition isServerFromApi :: "int \<Rightarrow> servers_model \<Rightarrow> bool" where
  "isServerFromApi i m \<longleftrightarrow>
    toBool (model_data i IsServerFromTelegramApiRole m) \<or> toBool (model_data i IsServerFromGatewayApiRole m)"

definition hasServerWithWriteAccess :: "servers_model \<Rightarrow> bool" where
  "hasServerWithWriteAccess m \<longleftrightarrow>
    list_ex (\<lambda>i. toBool (model_data (int i) HasWriteAccessRole m)) [0..<length (m_servers m)]"

definition isServerFromApiAlreadyExists :: "string \<Rightarrow> string \<Rightarrow> string \<Rightarrow> servers_model \<Rightarrow> bool" where
  "isServerFromApiAlreadyExists userCountryCode serviceType serviceProtocol m \<longleftrightarrow>
    list_ex (\<lambda>v. let c = api_config (json_toObject v)
      in string_at c ''user_country_code'' = userCountryCode \<and> string_at c ''service_type'' = serviceType \<and>
         string_at c ''service_protocol'' = serviceProtocol) (m_servers m)"

definition isServerFromApiAlreadyExists_crc :: "16 word \<Rightarrow> servers_model \<Rightarrow> bool" where
  "isServerFromApiAlreadyExists_crc crc m \<longleftrightarrow>
    list_ex (\<lambda>v. word_of_int (json_toInt (json_value (json_toObject v) ''crc'')) = crc) (m_servers m)"

fun service_name :: "DockerContainer \<Rightarrow> string list" where
  "service_name C_Dns = [''DNS'']"
| "service_name C_Sftp = [''SFTP'']"
| "service_name C_TorWebSite = [''TOR'']"
| "service_name C_Socks5Proxy = [''SOCKS5'']"
| "service_name _ = []"

definition getAllInstalledServicesName :: "int \<Rightarrow> servers_model \<Rightarrow> string list" where
  "getAllInstalledServicesName i m = sort (concat
    (map (\<lambda>v. if containerService (container_of v) = S_Other then service_name (container_of v) else [])
      (containers_array (getServerConfig i m))))"

text \<open>The number of the server is not used. \<open>primary\<close> and \<open>secondary\<close> are resolvers of the settings.\<close>

definition getDnsPair :: "(string \<Rightarrow> bool) \<Rightarrow> string \<Rightarrow> string \<Rightarrow> int \<Rightarrow> servers_model \<Rightarrow> string \<times> string" where
  "getDnsPair parses_v4 primary secondary serverIndex m =
    (let s = getServerConfig (m_processedServerIndex m) m;
         isDnsContainerInstalled = list_ex (\<lambda>c. container_of c = C_Dns) (containers_array s);
         dns1 = string_at s ''dns1''; dns2 = string_at s ''dns2''
     in (if dns1 = [] \<or> \<not> checkIPv4Format parses_v4 dns1 then
           (if m_isAmneziaDnsEnabled m \<and> isDnsContainerInstalled then amneziaDnsIp else primary)
         else dns1,
         if dns2 = [] \<or> \<not> checkIPv4Format parses_v4 dns2 then secondary else dns2))"

subsection \<open>Numbers of servers\<close>

definition updateContainersModel :: "servers_model \<Rightarrow> servers_model" where
  "updateContainersModel m =
    emit_signal (ContainersUpdated (containers_array (getServerConfig (m_processedServerIndex m) m))) m"

definition updateDefaultServerContainersModel :: "servers_model \<Rightarrow> servers_model" where
  "updateDefaultServerContainersModel m =
    emit_signal (DefaultServerContainersUpdated (containers_array (getServerConfig (m_defaultServerIndex m) m))) m"

text \<open>Emitting \<open>defaultServerIndexChanged\<close> runs what the constructor has connected to it.\<close>

definition emit_defaultServerIndexChanged :: "servers_model \<Rightarrow> servers_model" where
  "emit_defaultServerIndexChanged m =
    (let i = m_defaultServerIndex m;
         m1 = emit_signal DefaultServerNameChanged (emit_signal (DefaultServerIndexChanged i) m);
         m2 = emit_signal (DefaultServerDefaultContainerChanged (default_container_of (getServerConfig i m))) m1
     in updateDefaultServerContainersModel (emit_signal DefaultServerNameChanged m2))"

definition resetModel :: "servers_model \<Rightarrow> servers_model" where
  "resetModel m =
    (let st = m_settings m;
         m' = m\<lparr>m_servers := serversArray st, m_defaultServerIndex := defaultServerIndex st,
                m_processedServerIndex := defaultServerIndex st\<rparr>
     in emit_defaultServerIndexChanged (emit_signal ModelReset m'))"

definition setDefaultServerIndex :: "int \<Rightarrow> servers_model \<Rightarrow> servers_model" where
  "setDefaultServerIndex i m =
    (let st = setDefaultServer i (m_settings m)
     in emit_defaultServerIndexChanged (m\<lparr>m_settings := st, m_defaultServerIndex := defaultServerIndex st\<rparr>))"

definition setProcessedServerIndex :: "int \<Rightarrow> servers_model \<Rightarrow> servers_model" where
  "setProcessedServerIndex i m =
    (let m1 = updateContainersModel (m\<lparr>m_processedServerIndex := i\<rparr>);
         m2 = (if toBool (model_data i IsServerFromGatewayApiRole m1) then
                 emit_signal UpdateApiServicesModel
                   (if toBool (model_data i IsCountrySelectionAvailableRole m1) then
                      emit_signal UpdateApiLanguageModel m1 else m1)
               else m1)
     in emit_signal (ProcessedServerIndexChanged i) m2)"

definition toggleAmneziaDns :: "bool \<Rightarrow> servers_model \<Rightarrow> servers_model" where
  "toggleAmneziaDns enabled m = emit_signal DefaultServerDescriptionChanged (m\<lparr>m_isAmneziaDnsEnabled := enabled\<rparr>)"

subsection \<open>Servers\<close>

definition model_addServer :: "json_object \<Rightarrow> servers_model \<Rightarrow> servers_model" where
  "model_addServer s m =
    (let st = addServer s (m_settings m)
     in emit_signal ModelReset (m\<lparr>m_settings := st, m_servers := serversArray st\<rparr>))"

definition model_editServer :: "json_object \<Rightarrow> int \<Rightarrow> servers_model \<Rightarrow> servers_model option" where
  "model_editServer s i m =
    Option.bind (editServer i s (m_settings m)) (\<lambda>(_, st).
    Option.bind (array_replace (m_servers m) i (array_at (serversArray st) i)) (\<lambda>servers.
      let m1 = emit_signal (DataChanged i) (m\<lparr>m_settings := st, m_servers := servers\<rparr>);
          m2 = (if i = m_defaultServerIndex m then updateDefaultServerContainersModel m1 else m1);
          m3 = updateContainersModel m2
      in Some (if i = m_defaultServerIndex m then
                 emit_signal (DefaultServerDefaultContainerChanged
                   (toContainer (model_data (m_defaultServerIndex m) DefaultContainerRole m3))) m3
               else m3)))"

definition model_removeServer :: "servers_model \<Rightarrow> servers_model" where
  "model_removeServer m =
    (let p = m_processedServerIndex m;
         st = removeServer p (m_settings m);
         m1 = m\<lparr>m_settings := st, m_servers := serversArray st\<rparr>;
         m2 = (if defaultServerIndex st = p then setDefaultServerIndex 0 m1
               else if defaultServerIndex st > p then setDefaultServerIndex (defaultServerIndex st - 1) m1
               else m1);
         m3 = (if serversCount (m_settings m2) = 0 then setDefaultServerIndex (-1) m2 else m2)
     in emit_signal ModelReset (setProcessedServerIndex (m_defaultServerIndex m3) m3))"

definition model_setData :: "int \<Rightarrow> string \<Rightarrow> server_role \<Rightarrow> servers_model \<Rightarrow> (bool \<times> servers_model) option" where
  "model_setData i v role m =
    (if \<not> in_rows i m then Some (False, m)
     else if role \<noteq> NameRole then Some (True, m)
     else let s = getServerConfig i m;
              s' = json_insert (if config_version s \<noteq> 0 then ''name'' else ''description'') (JString v) s
          in Option.bind (editServer i s' (m_settings m)) (\<lambda>(_, st).
             Option.bind (array_replace (m_servers m) i (JObject s')) (\<lambda>servers.
               let m1 = m\<lparr>m_settings := st, m_servers := servers\<rparr>;
                   m2 = (if i = m_defaultServerIndex m then emit_signal DefaultServerNameChanged m1 else m1)
               in Some (True, emit_signal (DataChanged i) m2))))"

subsection \<open>Containers of a server\<close>

primrec replace_container :: "DockerContainer \<Rightarrow> json_object \<Rightarrow> json list \<Rightarrow> json list" where
  "replace_container container config [] = []"
| "replace_container container config (v # vs) =
    (if container_of v = container then JObject config # vs else v # replace_container container config vs)"

primrec erase_container :: "DockerContainer \<Rightarrow> json list \<Rightarrow> json list" where
  "erase_container container [] = []"
| "erase_container container (v # vs) =
    (if string_at (json_toObject v) ''container'' = containerToString container then vs
     else v # erase_container container vs)"

definition with_containers :: "json list \<Rightarrow> json_object \<Rightarrow> json_object" where
  "with_containers cs s = json_insert ''containers'' (JArray cs) s"

definition with_default :: "DockerContainer \<Rightarrow> json_object \<Rightarrow> json_object" where
  "with_default c s = json_insert ''defaultContainer'' (JString (containerToString c)) s"

definition reloadDefaultServerContainerConfig :: "servers_model \<Rightarrow> servers_model option" where
  "reloadDefaultServerContainerConfig m =
    (let i = m_defaultServerIndex m; s = getServerConfig i m; container = default_container_of s;
         config = containerConfig i container (m_settings m)
     in model_editServer (with_containers (replace_container container config (containers_array s)) s) i m)"

definition updateContainerConfig :: "DockerContainer \<Rightarrow> json_object \<Rightarrow> servers_model \<Rightarrow> servers_model option" where
  "updateContainerConfig container config m =
    (let i = m_processedServerIndex m; s = getServerConfig i m
     in model_editServer (with_containers (replace_container container config (containers_array s)) s) i m)"

definition addContainerConfig :: "client_os \<Rightarrow> DockerContainer \<Rightarrow> json_object \<Rightarrow> servers_model \<Rightarrow>
    servers_model option" where
  "addContainerConfig os container config m =
    (let i = m_processedServerIndex m; s = getServerConfig i m;
         s1 = with_containers (containers_array s @ [JObject config]) s;
         s2 = (if default_container_of s1 = C_None \<and> containerService container \<noteq> S_Other \<and>
                  isSupportedByCurrentPlatform os container
               then with_default container s1 else s1)
     in model_editServer s2 i m)"

definition model_setDefaultContainer :: "int \<Rightarrow> DockerContainer \<Rightarrow> servers_model \<Rightarrow> servers_model option" where
  "model_setDefaultContainer i container m =
    model_editServer (with_default container (getServerConfig i m)) i m"

text \<open>Error codes are numbers; 0 is \<open>NoError\<close>.\<close>

definition removeAllContainers :: "(ServerCredentials \<Rightarrow> int) \<Rightarrow> servers_model \<Rightarrow> (int \<times> servers_model) option" where
  "removeAllContainers remote m =
    (let i = m_processedServerIndex m; errorCode = remote (serverCredentials i (m_settings m))
     in if errorCode = 0 then
          map_option (Pair errorCode)
            (model_editServer (with_default C_None (json_insert ''containers'' JNull (getServerConfig i m))) i m)
        else Some (errorCode, m))"

definition removeContainer :: "(ServerCredentials \<Rightarrow> DockerContainer \<Rightarrow> int) \<Rightarrow> DockerContainer \<Rightarrow>
    servers_model \<Rightarrow> (int \<times> servers_model) option" where
  "removeContainer remote container m =
    (let i = m_processedServerIndex m; errorCode = remote (serverCredentials i (m_settings m)) container
     in if errorCode = 0 then
          let s = getServerConfig i m; cs = erase_container container (containers_array s);
              s1 = with_containers cs s;
              s2 = (if default_container_of s1 = container then
                      with_default (if cs = [] then C_None else container_of (hd cs)) s1
                    else s1)
          in map_option (Pair errorCode) (model_editServer s2 i m)
        else Some (errorCode, m))"

definition clearCachedProfile :: "DockerContainer \<Rightarrow> servers_model \<Rightarrow> servers_model option" where
  "clearCachedProfile container m =
    (let i = m_processedServerIndex m
     in Option.bind (clearLastConnectionConfig i container P_Any (m_settings m)) (\<lambda>st.
        Option.bind (array_replace (m_servers m) i (JObject (server i st))) (\<lambda>servers.
          let m1 = m\<lparr>m_settings := st, m_servers := servers\<rparr>
          in Some (updateContainersModel
               (if i = m_defaultServerIndex m then updateDefaultServerContainersModel m1 else m1)))))"

text \<open>
  The key of a bought server: \<open>tomorrow\<close> is the text of a date a day from now, \<open>past\<close> tells whether
  the text of a date is over.
\<close>

definition isApiKeyExpired :: "string \<Rightarrow> (string \<Rightarrow> bool) \<Rightarrow> int \<Rightarrow> servers_model \<Rightarrow> (bool \<times> servers_model) option" where
  "isApiKeyExpired tomorrow past i m =
    (let s = getServerConfig i m; api = api_config s;
         key = json_toObject (json_value api ''public_key'');
         endDate = string_at key ''end_date''
     in if endDate = [] then
          map_option (Pair False) (model_editServer
            (json_insert ''api_config'' (JObject (json_insert ''public_key''
               (JObject (json_insert ''end_date'' (JString tomorrow) key)) api)) s) i m)
        else Some (past endDate, m))"

definition removeApiConfig :: "int \<Rightarrow> servers_model \<Rightarrow> servers_model option" where
  "removeApiConfig i m =
    (let s = getServerConfig i m;
         s1 = json_remove ''hostName'' (json_remove ''containers'' (json_remove ''dns2'' (json_remove ''dns1'' s)));
         api = json_remove ''public_key'' (api_config s1)
     in model_editServer (with_default C_None (json_insert ''api_config'' (JObject api) s1)) i m)"

section \<open>What the signals leave alone\<close>

lemma emit_signal_core [simp]:
  "m_settings (emit_signal sig m) = m_settings m" "m_servers (emit_signal sig m) = m_servers m"
  "m_defaultServerIndex (emit_signal sig m) = m_defaultServerIndex m"
  "m_processedServerIndex (emit_signal sig m) = m_processedServerIndex m"
  by (simp_all add: emit_signal_def)

lemma update_core [simp]:
  "m_settings (updateContainersModel m) = m_settings m" "m_servers (updateContainersModel m) = m_servers m"
  "m_defaultServerIndex (updateContainersModel m) = m_defaultServerIndex m"
  "m_processedServerIndex (updateContainersModel m) = m_processedServerIndex m"
  "m_settings (updateDefaultServerContainersModel m) = m_settings m"
  "m_servers (updateDefaultServerContainersModel m) = m_servers m"
  "m_defaultServerIndex (updateDefaultServerContainersModel m) = m_defaultServerIndex m"
  "m_processedServerIndex (updateDefaultServerContainersModel m) = m_processedServerIndex m"
  by (simp_all add: updateContainersModel_def updateDefaultServerContainersModel_def)

lemma emit_default_core [simp]:
  "m_settings (emit_defaultServerIndexChanged m) = m_settings m"
  "m_servers (emit_defaultServerIndexChanged m) = m_servers m"
  "m_defaultServerIndex (emit_defaultServerIndexChanged m) = m_defaultServerIndex m"
  "m_processedServerIndex (emit_defaultServerIndexChanged m) = m_processedServerIndex m"
  by (simp_all add: emit_defaultServerIndexChanged_def Let_def)

lemma setDefaultServerIndex_core [simp]:
  "m_settings (setDefaultServerIndex i m) = (m_settings m)\<lparr>defaultServerIndex := i\<rparr>"
  "m_servers (setDefaultServerIndex i m) = m_servers m"
  "m_defaultServerIndex (setDefaultServerIndex i m) = i"
  "m_processedServerIndex (setDefaultServerIndex i m) = m_processedServerIndex m"
  by (simp_all add: setDefaultServerIndex_def setDefaultServer_def Let_def)

lemma setProcessedServerIndex_core [simp]:
  "m_settings (setProcessedServerIndex i m) = m_settings m"
  "m_servers (setProcessedServerIndex i m) = m_servers m"
  "m_defaultServerIndex (setProcessedServerIndex i m) = m_defaultServerIndex m"
  "m_processedServerIndex (setProcessedServerIndex i m) = i"
  by (simp_all add: setProcessedServerIndex_def Let_def)

section \<open>Invariant\<close>

definition is_JObject :: "json \<Rightarrow> bool" where
  "is_JObject v \<longleftrightarrow> v = JObject (json_toObject v)"

lemma is_JObject_JObject [simp]: "is_JObject (JObject obj)"
  by (simp add: is_JObject_def)

definition model_ok :: "servers_model \<Rightarrow> bool" where
  "model_ok m \<longleftrightarrow>
    m_servers m = serversArray (m_settings m) \<and> list_all is_JObject (m_servers m) \<and>
    m_defaultServerIndex m = defaultServerIndex (m_settings m) \<and>
    - 1 \<le> m_defaultServerIndex m \<and>
    (m_defaultServerIndex m < int (length (m_servers m)) \<or> m_defaultServerIndex m = 0 \<and> m_servers m = [])"

lemma in_rows_valid: "model_ok m \<Longrightarrow> in_rows i m \<longleftrightarrow> valid_index i (m_settings m)"
  by (simp add: model_ok_def in_rows_def valid_index_def serversCount_def)

lemma objects_update: "list_all is_JObject vs \<Longrightarrow> list_all is_JObject (vs[i := JObject s])"
  using set_update_subset_insert [of vs i "JObject s"] by (auto simp: list_all_iff)

lemma model_ok_update:
  assumes "model_ok m" and "m_servers m' = (m_servers m)[i := JObject s]"
    and "serversArray (m_settings m') = (m_servers m)[i := JObject s]"
    and "m_defaultServerIndex m' = m_defaultServerIndex m"
    and "defaultServerIndex (m_settings m') = m_defaultServerIndex m"
  shows "model_ok m'"
  using assms by (auto simp: model_ok_def objects_update)

lemma model_editServer_ok:
  assumes "model_ok m" and "in_rows i m"
  shows "\<exists>m'. model_editServer s i m = Some m' \<and> model_ok m' \<and> m_servers m' = (m_servers m)[nat i := JObject s]"
proof -
  have valid: "valid_index i (m_settings m)"
    using assms by (simp add: in_rows_valid)
  then obtain st where st: "editServer i s (m_settings m) = Some (True, st)"
    "serversArray st = (serversArray (m_settings m))[nat i := JObject s]"
    "defaultServerIndex st = defaultServerIndex (m_settings m)"
    by (rule editServer_valid)
  have servers: "serversArray (m_settings m) = m_servers m" "defaultServerIndex (m_settings m) = m_defaultServerIndex m"
    using assms(1) by (simp_all add: model_ok_def)
  have "array_replace (m_servers m) i (array_at (serversArray st) i) = Some ((m_servers m)[nat i := JObject s])"
    using assms(2) by (simp add: array_replace_def array_at_def in_rows_def st servers nth_list_update nat_less_iff)
  then obtain m' where m': "model_editServer s i m = Some m'"
    and core: "m_settings m' = st" "m_servers m' = (m_servers m)[nat i := JObject s]"
      "m_defaultServerIndex m' = m_defaultServerIndex m"
    by (auto simp: model_editServer_def st(1) Let_def)
  have "model_ok m'"
    by (rule model_ok_update [OF assms(1) core(2)]) (simp_all add: core st servers)
  with m' core show ?thesis
    by blast
qed

lemma model_setData_ok:
  assumes "model_ok m"
  shows "\<exists>r m'. model_setData i v role m = Some (r, m') \<and> model_ok m'"
proof (cases "in_rows i m \<and> role = NameRole")
  case True
  define s where "s = json_insert (if config_version (getServerConfig i m) \<noteq> 0 then ''name'' else ''description'')
    (JString v) (getServerConfig i m)"
  have "valid_index i (m_settings m)"
    using assms True by (simp add: in_rows_valid)
  then obtain st where st: "editServer i s (m_settings m) = Some (True, st)"
    "serversArray st = (serversArray (m_settings m))[nat i := JObject s]"
    "defaultServerIndex st = defaultServerIndex (m_settings m)"
    by (rule editServer_valid)
  have replace: "array_replace (m_servers m) i (JObject s) = Some ((m_servers m)[nat i := JObject s])"
    using True by (simp add: array_replace_def in_rows_def)
  obtain m' where m': "model_setData i v role m = Some (True, m')"
    and core: "m_settings m' = st" "m_servers m' = (m_servers m)[nat i := JObject s]"
      "m_defaultServerIndex m' = m_defaultServerIndex m"
    using True by (auto simp: model_setData_def Let_def st(1) replace simp flip: s_def)
  have "model_ok m'"
    using assms by (intro model_ok_update [OF assms core(2)]) (simp_all add: core st model_ok_def)
  with m' show ?thesis
    by blast
qed (use assms in \<open>auto simp: model_setData_def\<close>)

lemma setContainers_objects:
  assumes "valid_index i st" and "setContainers i cs st = Some st'"
  shows "\<exists>obj. serversArray st' = (serversArray st)[nat i := JObject obj] \<and>
    defaultServerIndex st' = defaultServerIndex st"
proof (rule editServer_valid [OF assms(1)])
  fix st1
  assume "editServer i (json_insert ''containers'' (JArray (map (JObject \<circ> snd) cs)) (server i st)) st = Some (True, st1)"
    and "serversArray st1 = (serversArray st)[nat i :=
      JObject (json_insert ''containers'' (JArray (map (JObject \<circ> snd) cs)) (server i st))]"
    and "defaultServerIndex st1 = defaultServerIndex st"
  then show ?thesis
    using assms(2) by (auto simp: setContainers_def)
qed

lemma same_object:
  "valid_index i st \<Longrightarrow> list_all is_JObject (serversArray st) \<Longrightarrow>
   (serversArray st)[nat i := JObject (server i st)] = serversArray st"
  by (auto simp: list_update_same_conv valid_index_def serversCount_def server_def array_at_def list_all_length
      is_JObject_def nat_less_iff simp flip: is_JObject_def)

definition server_replaced :: "int \<Rightarrow> settings \<Rightarrow> settings \<Rightarrow> bool" where
  "server_replaced i st st' \<longleftrightarrow> (\<exists>obj. serversArray st' = (serversArray st)[nat i := JObject obj]) \<and>
    defaultServerIndex st' = defaultServerIndex st"

lemma server_replaced_trans:
  "server_replaced i st st1 \<Longrightarrow> server_replaced i st1 st2 \<Longrightarrow> server_replaced i st st2"
  by (auto simp: server_replaced_def)

lemma server_replaced_refl:
  "valid_index i st \<Longrightarrow> list_all is_JObject (serversArray st) \<Longrightarrow> server_replaced i st st"
  unfolding server_replaced_def by (metis same_object)

lemma server_replaced_keeps:
  assumes "server_replaced i st st'"
  shows "valid_index i st' \<longleftrightarrow> valid_index i st"
    and "list_all is_JObject (serversArray st) \<Longrightarrow> list_all is_JObject (serversArray st')"
  using assms by (auto simp: server_replaced_def valid_index_def serversCount_def objects_update)

lemma clear_protocol_array:
  assumes "valid_index i st" and "list_all is_JObject (serversArray st)"
  shows "\<exists>st'. clear_protocol i c p st = Some st' \<and> server_replaced i st st'"
proof (cases "c = C_None")
  case True
  with server_replaced_refl [OF assms] show ?thesis
    by (simp add: clear_protocol_def setProtocolConfig_def setContainerConfig_def)
next
  case False
  from clear_protocol_clears [OF assms(1) False, of p] obtain st' where st': "clear_protocol i c p st = Some st'"
    by blast
  then show ?thesis
    using setContainers_objects [OF assms(1), of _ st'] False
    by (auto simp: server_replaced_def clear_protocol_def setProtocolConfig_def setContainerConfig_def)
qed

lemma clear_protocols_array:
  assumes "valid_index i st" and "list_all is_JObject (serversArray st)"
  shows "\<exists>st'. clear_protocols i c ps st = Some st' \<and> server_replaced i st st'"
  using assms
proof (induction ps arbitrary: st)
  case Nil
  then show ?case
    by (simp add: server_replaced_refl)
next
  case (Cons p ps)
  obtain st1 where st1: "clear_protocol i c p st = Some st1" "server_replaced i st st1"
    using clear_protocol_array [OF Cons.prems] by blast
  obtain st2 where "clear_protocols i c ps st1 = Some st2" "server_replaced i st1 st2"
    using Cons.IH [of st1] server_replaced_keeps [OF st1(2)] Cons.prems by blast
  with st1 show ?case
    by (auto intro: server_replaced_trans)
qed

lemma clearCachedProfile_ok:
  assumes "model_ok m" and "in_rows (m_processedServerIndex m) m"
  shows "\<exists>m'. clearCachedProfile c m = Some m' \<and> model_ok m'"
proof -
  let ?i = "m_processedServerIndex m"
  have ok: "valid_index ?i (m_settings m)" "list_all is_JObject (serversArray (m_settings m))"
    "serversArray (m_settings m) = m_servers m" "defaultServerIndex (m_settings m) = m_defaultServerIndex m"
    using assms by (simp_all add: in_rows_valid) (auto simp: model_ok_def)
  obtain st where st: "clearLastConnectionConfig ?i c P_Any (m_settings m) = Some st"
    and replaced: "server_replaced ?i (m_settings m) st"
    using clear_protocols_array [OF ok(1,2)] by (auto simp: clearLastConnectionConfig_def)
  then obtain obj where obj: "serversArray st = (m_servers m)[nat ?i := JObject obj]"
    "defaultServerIndex st = m_defaultServerIndex m"
    by (auto simp: server_replaced_def ok)
  have "server ?i st = obj"
    using assms(2) by (simp add: server_def serversCount_def array_at_def in_rows_def obj nth_list_update nat_less_iff)
  then have "array_replace (m_servers m) ?i (JObject (server ?i st)) = Some ((m_servers m)[nat ?i := JObject obj])"
    using assms(2) by (simp add: array_replace_def in_rows_def)
  then obtain m' where m': "clearCachedProfile c m = Some m'"
    and core: "m_settings m' = st" "m_servers m' = (m_servers m)[nat ?i := JObject obj]"
      "m_defaultServerIndex m' = m_defaultServerIndex m"
    by (auto simp: clearCachedProfile_def Let_def st)
  have "model_ok m'"
    by (rule model_ok_update [OF assms(1) core(2)]) (simp_all add: core obj)
  with m' show ?thesis
    by blast
qed

lemma model_addServer_ok: "model_ok m \<Longrightarrow> model_ok (model_addServer s m)"
  by (auto simp: model_ok_def model_addServer_def addServer_def Let_def)

lemma resetModel_ok: "model_ok m \<Longrightarrow> model_ok (resetModel m)"
  by (auto simp: model_ok_def resetModel_def Let_def)

text \<open>The number of the default server after a removal, and the server it stands for.\<close>

lemma model_removeServer_core:
  assumes "model_ok m" and "in_rows (m_processedServerIndex m) m"
  defines "m' \<equiv> model_removeServer m" and "p \<equiv> m_processedServerIndex m" and "d \<equiv> m_defaultServerIndex m"
  shows "m_servers m' = array_removeAt (m_servers m) p" and "serversArray (m_settings m') = m_servers m'"
    and "m_defaultServerIndex m' =
      (if length (m_servers m) = 1 then - 1 else if d = p then 0 else if d > p then d - 1 else d)"
    and "defaultServerIndex (m_settings m') = m_defaultServerIndex m'"
    and "m_processedServerIndex m' = m_defaultServerIndex m'"
proof -
  have st: "serversArray (removeServer p (m_settings m)) = array_removeAt (m_servers m) p"
    "defaultServerIndex (removeServer p (m_settings m)) = d"
    using assms(1,2) by (simp_all add: removeServer_def serversCount_def model_ok_def in_rows_def p_def d_def)
  have "length (array_removeAt (m_servers m) p) = length (m_servers m) - 1"
    using assms(2) by (simp add: length_array_removeAt in_rows_def p_def)
  then have count: "array_removeAt (m_servers m) p = [] \<longleftrightarrow> length (m_servers m) = 1"
    using assms(2) by (auto simp: in_rows_def simp flip: length_0_conv)
  note count = count trans [OF eq_commute count]
  show "m_servers m' = array_removeAt (m_servers m) p" "serversArray (m_settings m') = m_servers m'"
    "m_defaultServerIndex m' =
      (if length (m_servers m) = 1 then - 1 else if d = p then 0 else if d > p then d - 1 else d)"
    "defaultServerIndex (m_settings m') = m_defaultServerIndex m'"
    "m_processedServerIndex m' = m_defaultServerIndex m'"
    by (simp_all add: m'_def model_removeServer_def Let_def st serversCount_def count flip: p_def d_def)
qed

lemma model_removeServer_ok:
  assumes "model_ok m" and "in_rows (m_processedServerIndex m) m"
  shows "model_ok (model_removeServer m)"
proof -
  let ?p = "m_processedServerIndex m"
  have "list_all is_JObject (array_removeAt (m_servers m) ?p)"
    using assms(1) by (auto simp: model_ok_def array_removeAt_def list_all_iff dest: in_set_takeD in_set_dropD)
  moreover have "length (array_removeAt (m_servers m) ?p) = length (m_servers m) - 1"
    using assms(2) by (simp add: length_array_removeAt in_rows_def)
  ultimately show ?thesis
    using assms by (auto simp: model_removeServer_core [OF assms] model_ok_def [of "model_removeServer m"])
      (auto simp: model_ok_def in_rows_def)
qed

section \<open>Calls\<close>

datatype model_call =
    Call_resetModel
  | Call_setDefaultServerIndex int
  | Call_setProcessedServerIndex int
  | Call_toggleAmneziaDns bool
  | Call_addServer json_object
  | Call_editServer json_object int
  | Call_removeServer
  | Call_setData int string server_role
  | Call_reloadDefaultServerContainerConfig
  | Call_updateContainerConfig DockerContainer json_object
  | Call_addContainerConfig client_os DockerContainer json_object
  | Call_setDefaultContainer int DockerContainer
  | Call_removeAllContainers "ServerCredentials \<Rightarrow> int"
  | Call_removeContainer "ServerCredentials \<Rightarrow> DockerContainer \<Rightarrow> int" DockerContainer
  | Call_clearCachedProfile DockerContainer
  | Call_isApiKeyExpired string "string \<Rightarrow> bool" int
  | Call_removeApiConfig int

fun model_run :: "model_call \<Rightarrow> servers_model \<Rightarrow> servers_model option" where
  "model_run Call_resetModel m = Some (resetModel m)"
| "model_run (Call_setDefaultServerIndex i) m = Some (setDefaultServerIndex i m)"
| "model_run (Call_setProcessedServerIndex i) m = Some (setProcessedServerIndex i m)"
| "model_run (Call_toggleAmneziaDns enabled) m = Some (toggleAmneziaDns enabled m)"
| "model_run (Call_addServer s) m = Some (model_addServer s m)"
| "model_run (Call_editServer s i) m = model_editServer s i m"
| "model_run Call_removeServer m = Some (model_removeServer m)"
| "model_run (Call_setData i v role) m = map_option snd (model_setData i v role m)"
| "model_run Call_reloadDefaultServerContainerConfig m = reloadDefaultServerContainerConfig m"
| "model_run (Call_updateContainerConfig c config) m = updateContainerConfig c config m"
| "model_run (Call_addContainerConfig os c config) m = addContainerConfig os c config m"
| "model_run (Call_setDefaultContainer i c) m = model_setDefaultContainer i c m"
| "model_run (Call_removeAllContainers remote) m = map_option snd (removeAllContainers remote m)"
| "model_run (Call_removeContainer remote c) m = map_option snd (removeContainer remote c m)"
| "model_run (Call_clearCachedProfile c) m = clearCachedProfile c m"
| "model_run (Call_isApiKeyExpired tomorrow past i) m = map_option snd (isApiKeyExpired tomorrow past i m)"
| "model_run (Call_removeApiConfig i) m = removeApiConfig i m"

text \<open>A call is admissible if the server it works on is in the list.\<close>

fun admissible :: "model_call \<Rightarrow> servers_model \<Rightarrow> bool" where
  "admissible (Call_setDefaultServerIndex i) m \<longleftrightarrow> i = - 1 \<or> in_rows i m"
| "admissible (Call_editServer s i) m \<longleftrightarrow> in_rows i m"
| "admissible Call_removeServer m \<longleftrightarrow> in_rows (m_processedServerIndex m) m"
| "admissible Call_reloadDefaultServerContainerConfig m \<longleftrightarrow> in_rows (m_defaultServerIndex m) m"
| "admissible (Call_updateContainerConfig c config) m \<longleftrightarrow> in_rows (m_processedServerIndex m) m"
| "admissible (Call_addContainerConfig os c config) m \<longleftrightarrow> in_rows (m_processedServerIndex m) m"
| "admissible (Call_setDefaultContainer i c) m \<longleftrightarrow> in_rows i m"
| "admissible (Call_removeAllContainers remote) m \<longleftrightarrow> in_rows (m_processedServerIndex m) m"
| "admissible (Call_removeContainer remote c) m \<longleftrightarrow> in_rows (m_processedServerIndex m) m"
| "admissible (Call_clearCachedProfile c) m \<longleftrightarrow> in_rows (m_processedServerIndex m) m"
| "admissible (Call_isApiKeyExpired tomorrow past i) m \<longleftrightarrow> in_rows i m"
| "admissible (Call_removeApiConfig i) m \<longleftrightarrow> in_rows i m"
| "admissible _ m \<longleftrightarrow> True"

lemma edit_result:
  "model_ok m \<Longrightarrow> in_rows i m \<Longrightarrow> \<exists>m'. model_editServer s i m = Some m' \<and> model_ok m'"
  using model_editServer_ok by blast

lemmas editing_defs = reloadDefaultServerContainerConfig_def updateContainerConfig_def addContainerConfig_def
  model_setDefaultContainer_def removeAllContainers_def removeContainer_def isApiKeyExpired_def removeApiConfig_def

lemma model_run_ok:
  assumes "model_ok m" and "admissible call m"
  shows "\<exists>m'. model_run call m = Some m' \<and> model_ok m'"
proof (cases call)
  case (Call_setDefaultServerIndex i)
  then show ?thesis
    using assms by (auto simp: model_ok_def in_rows_def)
next
  case (Call_setData i v role)
  then show ?thesis
    using model_setData_ok [OF assms(1), of i v role] by auto
next
  case (Call_removeAllContainers remote)
  then show ?thesis
    using assms edit_result [of m "m_processedServerIndex m"] by (auto simp: editing_defs Let_def)
next
  case (Call_removeContainer remote c)
  then show ?thesis
    using assms edit_result [of m "m_processedServerIndex m"] by (auto simp: editing_defs Let_def)
next
  case (Call_isApiKeyExpired tomorrow past i)
  then show ?thesis
    using assms edit_result [of m i] by (auto simp: editing_defs Let_def)
qed (use assms in \<open>simp_all add: edit_result clearCachedProfile_ok model_addServer_ok resetModel_ok
  model_removeServer_ok editing_defs Let_def, simp_all add: model_ok_def toggleAmneziaDns_def\<close>)

text \<open>
  The states the list can reach: it is filled from stored settings, and every later call works on
  a server of the list.
\<close>

definition settings_ok :: "settings \<Rightarrow> bool" where
  "settings_ok st \<longleftrightarrow> list_all is_JObject (serversArray st) \<and> - 1 \<le> defaultServerIndex st \<and>
    (defaultServerIndex st < serversCount st \<or> defaultServerIndex st = 0 \<and> serversArray st = [])"

inductive model_reachable :: "servers_model \<Rightarrow> bool" where
  start: "settings_ok (m_settings m) \<Longrightarrow> model_reachable (resetModel m)"
| call: "model_reachable m \<Longrightarrow> admissible call m \<Longrightarrow> model_run call m = Some m' \<Longrightarrow> model_reachable m'"

lemma model_reachable_ok: "model_reachable m \<Longrightarrow> model_ok m"
proof (induction rule: model_reachable.induct)
  case (start m)
  then show ?case
    by (auto simp: settings_ok_def model_ok_def resetModel_def serversCount_def Let_def)
next
  case (call m call m')
  then show ?case
    using model_run_ok [of m call] by auto
qed

lemma getServerConfig_edit:
  assumes "model_ok m" and "in_rows i m" and "model_editServer s i m = Some m'"
  shows "getServerConfig j m' = (if j = i then s else getServerConfig j m)"
  using model_editServer_ok [OF assms(1,2), of s] assms(2,3)
  by (auto simp: getServerConfig_def array_at_def in_rows_def nth_list_update)

text \<open>
  Removing the default container makes the first of the others the default one, whatever service
  it is, while a container added later becomes the default one only if it is a VPN.
\<close>

lemma removeContainer_default:
  assumes "model_ok m" and "in_rows (m_processedServerIndex m) m"
    and "remote (serverCredentials (m_processedServerIndex m) (m_settings m)) c = 0"
    and "default_container_of (getServerConfig (m_processedServerIndex m) m) = c"
  shows "\<exists>m'. removeContainer remote c m = Some (0, m') \<and>
    default_container_of (getServerConfig (m_processedServerIndex m) m') =
      (case erase_container c (containers_array (getServerConfig (m_processedServerIndex m) m)) of
         [] \<Rightarrow> C_None | v # _ \<Rightarrow> container_of v)"
proof -
  let ?i = "m_processedServerIndex m"
  let ?s = "getServerConfig ?i m"
  let ?cs = "erase_container c (containers_array ?s)"
  let ?s2 = "with_default (if ?cs = [] then C_None else container_of (hd ?cs)) (with_containers ?cs ?s)"
  obtain m' where m': "model_editServer ?s2 ?i m = Some m'"
    using edit_result [OF assms(1,2)] by blast
  have "default_container_of (with_containers ?cs ?s) = c"
    using assms(4) by (simp add: default_container_of_def with_containers_def string_at_def)
  then have "removeContainer remote c m = Some (0, m')"
    using assms(3) m' by (simp add: removeContainer_def Let_def)
  moreover have "default_container_of ?s2 = (case ?cs of [] \<Rightarrow> C_None | v # _ \<Rightarrow> container_of v)"
    by (cases ?cs) (simp_all add: default_container_of_def with_default_def string_at_def container_names.read_name)
  ultimately show ?thesis
    using getServerConfig_edit [OF assms(1,2) m', of ?i] by auto
qed

lemma getDnsPair_any_server:
  "getDnsPair parses_v4 primary secondary i m = getDnsPair parses_v4 primary secondary (m_processedServerIndex m) m"
  by (simp add: getDnsPair_def)

section \<open>Properties\<close>

text \<open>
  C24. Once filled from well-formed settings, the list stays well formed under every operation on one of
  its servers: the copy agrees with the settings, every server is an object, the default server is
  none or one of the list; and no such operation replaces an element past the end of an array, which
  would be undefined. Reading past the end is defined, and gives the undefined value: removing the
  only server does so, where the change of the default server is reported on the emptied list.
\<close>

theorem model_stays_ok:
  assumes "model_reachable m"
  shows "model_ok m \<and> (admissible call m \<longrightarrow> (\<exists>m'. model_run call m = Some m' \<and> model_reachable m'))"
  using model_run_ok [OF model_reachable_ok [OF assms], of call] model_reachable_ok [OF assms]
  by (auto intro: model_reachable.call [OF assms])

definition demo_model :: servers_model where
  "demo_model = resetModel \<lparr>m_settings = demo_settings, m_servers = [], m_defaultServerIndex = 0,
     m_processedServerIndex = 0, m_isAmneziaDnsEnabled = False, model_signals = []\<rparr>"

lemma demo_model_reachable: "model_reachable demo_model"
  unfolding demo_model_def by (rule model_reachable.start) (simp add: settings_ok_def demo_settings_def serversCount_def)

lemma demo_model_core:
  "m_servers demo_model = serversArray demo_settings" "m_defaultServerIndex demo_model = 1"
  by (simp_all add: demo_model_def resetModel_def Let_def demo_settings_def)

theorem model_stays_ok_witness:
  "\<exists>m'. model_run (Call_setDefaultServerIndex 0) demo_model = Some m' \<and> model_reachable m'"
  using model_stays_ok [OF demo_model_reachable, of "Call_setDefaultServerIndex 0"]
  by (simp add: in_rows_def demo_model_core demo_settings_def)

text \<open>
  C25. Removing a server takes exactly that server from the list and leaves the default server the same
  server, under its new number; if it was the default server itself, the first of the rest becomes
  it, or none if there is no other. The server worked on is then the default one.
\<close>

theorem removeServer_keeps_default:
  assumes "model_ok m" and "in_rows (m_processedServerIndex m) m"
  defines "m' \<equiv> model_removeServer m" and "p \<equiv> m_processedServerIndex m" and "d \<equiv> m_defaultServerIndex m"
  shows "m_servers m' = array_removeAt (m_servers m) p \<and> serversArray (m_settings m') = m_servers m' \<and>
    m_processedServerIndex m' = m_defaultServerIndex m' \<and>
    (in_rows d m \<and> d \<noteq> p \<longrightarrow> getServerConfig (m_defaultServerIndex m') m' = getServerConfig d m) \<and>
    (d = p \<longrightarrow> m_defaultServerIndex m' = (if length (m_servers m) = 1 then - 1 else 0))"
proof -
  note core = model_removeServer_core [OF assms(1,2), folded m'_def p_def d_def]
  have "getServerConfig (m_defaultServerIndex m') m' = getServerConfig d m" if "in_rows d m" "d \<noteq> p"
  proof -
    have "0 \<le> p" "p < int (length (m_servers m))" "0 \<le> d" "d < int (length (m_servers m))"
      using assms(2) that by (simp_all add: in_rows_def p_def)
    moreover from this that have "m_defaultServerIndex m' = (if d < p then d else d - 1)"
      by (auto simp: core(3))
    ultimately show ?thesis
      using that array_at_removeAt [of p "m_servers m" d] by (simp add: getServerConfig_def core(1))
  qed
  then show ?thesis
    by (simp add: core)
qed

definition demo_removal :: servers_model where
  "demo_removal = setProcessedServerIndex 0 demo_model"

theorem removeServer_keeps_default_witness:
  "getServerConfig (m_defaultServerIndex (model_removeServer demo_removal)) (model_removeServer demo_removal) =
   getServerConfig 1 demo_removal"
proof -
  have "model_ok demo_removal"
    using model_reachable_ok [OF demo_model_reachable] by (auto simp: demo_removal_def model_ok_def)
  then show ?thesis
    using removeServer_keeps_default [of demo_removal]
    by (simp add: in_rows_def demo_removal_def demo_model_core demo_settings_def)
qed

end
