(* ===== verification/Spec2Isabelle.thy ===== *)
theory Spec2Isabelle
  imports ControlScript ComponentScript ClientDaemon PingHelper QrCodes ServersModel
begin

text \<open>
  AmneziaVPN: a verification library.

  \<^bold>\<open>The program.\<close> AmneziaVPN is a VPN client in C++ on Qt. A user interface edits a list of
  servers, kept in the settings; each server runs containers, each container offers protocols. To
  connect with WireGuard, the client sends a JSON request over a local socket to a privileged
  daemon, which configures the tunnel through platform classes and answers with JSON lines. An
  installer, driven by two scripts of the Qt Installer Framework, puts both on the machine. The
  library models the two installer scripts completely and the core of the client and the daemon.

  \<^bold>\<open>Theories.\<close> Names of files are below \<open>src/\<close>.

  \<^item> \<open>Prelude\<close>: results, decimal numerals, lists. \<open>Json\<close>: Qt's strings and JSON values. \<open>QtMap\<close>: Qt's
    ordered map and the behaviour of JSON arrays outside their range. \<open>JS_Runtime\<close>: the script
    language of the installer as functions of the state that return, throw or do not return; the
    locale \<open>script_relation\<close> lifts a relation between first and last states through scripts.
  \<^item> \<open>ControlScript\<close>: \<open>deploy/installer/config/controlscript.js\<close>, every function and page callback. The
    installer framework is the parameter \<open>installer_api\<close>; its commands are recorded. Shown:
    an uninstaller runs only with the user's consent, when removal and message loop end and with
    what result, the bounds of the waits, and that the constructor throws only where no shell can be
    started, never on Windows.
  \<^item> \<open>ComponentScript\<close>: \<open>componentscript.js\<close> of the package \<open>org.amneziavpn.package\<close>. Shown: services are
    set up under administrator rights only, and what is installed is registered for removal.
  \<^item> \<open>AddressBits\<close>, \<open>IPAddress\<close>: \<open>client/mozilla/shared/ipaddress.cpp\<close> on machine words and byte arrays.
    Blocks are read as sets of bit strings; the locale \<open>address_code\<close> has the algebra of blocks and is
    interpreted for IPv4 and IPv6. Shown: masks, containment, overlap, and that excluding blocks
    covers exactly the difference, with disjoint results.
  \<^item> \<open>InterfaceConfig\<close>: \<open>client/daemon/interfaceconfig.cpp\<close> and \<open>Daemon::parseConfig\<close>. Shown: what the
    reader accepts and refuses, the round trip through JSON, one line per setting in the text for
    the WireGuard tools. \<open>std::sort\<close> is not stable; the order it gives equal elements is a parameter.
  \<^item> \<open>Daemon\<close>, \<open>DaemonRoutes\<close>, \<open>DaemonOutcomes\<close>: \<open>client/daemon/daemon.cpp\<close>. The state is the record
    \<open>daemon\<close> (connections by hop, counted exclusion routes, handshake timer) with the record of calls
    and signals; the platform classes answer calls through the parameter \<open>platform\<close>. Shown: in every
    reachable state the counted routes are the installed ones, except those whose deletion failed, and
    they refine a multiset (locale \<open>counted_routes\<close>), the outcomes of activation, deactivation, server switching and polling for
    handshakes, and that a waiting connection is served.
  \<^item> \<open>DaemonServer\<close>: \<open>client/daemon/daemonlocalserverconnection.cpp\<close>; \<open>LocalSocketController\<close>:
    \<open>client/mozilla/localsocketcontroller.cpp\<close>; \<open>ClientDaemon\<close>: both together. The locale \<open>line_reader\<close> is the
    framing of lines, interpreted for both ends; what an end writes is kept as bytes, the JSON text
    of an object being a parameter. Shown: messages arrive one by one and in order
    however the bytes are cut, the request of the client activates the tunnel it describes,
    errors are answered, the client gives up after eleven attempts and reports the daemon's status.
  \<^item> \<open>PingHelper\<close>: \<open>client/mozilla/pinghelper.cpp\<close>. Shown: the ring of 32 pings and the 16-bit counter
    represent the history of pings; the figures are those of the last pings. Sums are kept in 64 bits,
    and the rounding of doubles is a parameter with the laws of the IEEE modes.
  \<^item> \<open>QrCodes\<close>: \<open>generateQrCodeImageSeries\<close> of \<open>client/ui/controllers/exportController.cpp\<close> and the QR
    functions of \<open>importController.cpp\<close>. Shown: the round trip of a series, in any order and with
    repetitions, for up to 255 pieces.
  \<^item> \<open>Containers\<close>: \<open>client/protocols/protocols_defs.cpp\<close> and \<open>client/containers/containers_defs.cpp\<close>. The
    locale \<open>named_values\<close> has the round trip of names, interpreted for containers and protocols.
  \<^item> \<open>Settings\<close>: the servers, containers, protocols and sites of \<open>client/settings.cpp\<close>. Shown:
    configurations behave like entries of a table, cached profiles are cleared and nothing else,
    the lists of sites are maps changed pointwise, the search for a server name ends with a free
    one.
  \<^item> \<open>ServersModel\<close>: \<open>client/ui/models/servers_model.cpp\<close>. Shown: in every reachable state the copy of the
    list agrees with the settings and the default server exists or is none, and no operation on a
    listed server replaces an element outside an array; removing a server keeps the default server.

  \<^bold>\<open>Loops.\<close> There is no fuel. Loops over data are structural recursion or have a termination proof
  (\<open>exclude_loop\<close>, \<open>qr_loop\<close>, \<open>next_name\<close>). The busy wait and the message loop of the control script may
  run forever; they are \<open>partial_function (option)\<close>, and their termination is proved under the
  condition on the clock and on the user that it needs. Machine integers have their width
  where the code can overflow them: address words, the sequence number and the figures of pings,
  the eight-bit numbers in QR codes. Undefined behaviour of array accesses and failed assertions
  are results of their own.

  \<^bold>\<open>Not modelled.\<close> Qt itself, the installer framework, the network, processes and the file system are
  parameters or left out. The files ending in \<open>.ts\<close> are translation tables. The QML pages, the
  controllers that join pages with remote servers (\<open>client/ui/controllers\<close>, \<open>client/core/controllers\<close>), the
  configurators and protocol classes (\<open>client/configurators\<close>, \<open>client/protocols\<close>) mostly run external
  programs, shell scripts over SSH and cryptographic libraries, none of which is in the sources.
  The platform back ends (\<open>client/platforms\<close>), the mobile applications and \<open>service\<close> consist of system
  calls; the daemon is proved for every answer they may give. Of the settings, the entries that
  store one value without further logic and the encrypted store are left out.
\<close>

end
